theory Spec2Isabelle
  imports Complex_Main "HOL-Library.Word"
begin

section \<open>Scalars\<close>

text \<open>
  The renderer computes on C++ \<open>float\<close>. The clipper, the rasterizer and the driver below
  are written over an arbitrary scalar type that has the operations the code uses (\<open>+\<close>,
  \<open>-\<close>, \<open>*\<close>, \<open>/\<close>, unary minus and the comparisons), so that whatever follows from the
  control flow alone holds for every arithmetic. Two instances follow. The type \<open>float\<close> is
  exact arithmetic: finite values are real numbers, and the special values of IEEE 754
  appear where the code can produce them without rounding, by a division by zero;
  rounding, overflow and the sign of zero are not part of it. The type \<open>binary32\<close> of the
  next section rounds every operation as the format does; it is the arithmetic of the
  program.
\<close>

datatype float = Fin real | PInf | NInf | NaN

fun float_neg :: "float \<Rightarrow> float" where
  "float_neg (Fin a) = Fin (- a)"
| "float_neg PInf = NInf"
| "float_neg NInf = PInf"
| "float_neg NaN = NaN"

fun float_add :: "float \<Rightarrow> float \<Rightarrow> float" where
  "float_add (Fin a) (Fin b) = Fin (a + b)"
| "float_add NaN _ = NaN"
| "float_add _ NaN = NaN"
| "float_add PInf NInf = NaN"
| "float_add NInf PInf = NaN"
| "float_add PInf _ = PInf"
| "float_add _ PInf = PInf"
| "float_add NInf _ = NInf"
| "float_add _ NInf = NInf"

fun float_mul :: "float \<Rightarrow> float \<Rightarrow> float" where
  "float_mul (Fin a) (Fin b) = Fin (a * b)"
| "float_mul NaN _ = NaN"
| "float_mul _ NaN = NaN"
| "float_mul (Fin a) PInf = (if a = 0 then NaN else if 0 < a then PInf else NInf)"
| "float_mul (Fin a) NInf = (if a = 0 then NaN else if 0 < a then NInf else PInf)"
| "float_mul PInf (Fin b) = (if b = 0 then NaN else if 0 < b then PInf else NInf)"
| "float_mul NInf (Fin b) = (if b = 0 then NaN else if 0 < b then NInf else PInf)"
| "float_mul PInf PInf = PInf"
| "float_mul NInf NInf = PInf"
| "float_mul PInf NInf = NInf"
| "float_mul NInf PInf = NInf"

text \<open>
  Division is where the special values come from: \<open>0 / 0\<close> is NaN and a nonzero value
  divided by zero is an infinity (zero counts as positive zero).
\<close>

fun float_div :: "float \<Rightarrow> float \<Rightarrow> float" where
  "float_div (Fin a) (Fin b) =
     (if b \<noteq> 0 then Fin (a / b) else if a = 0 then NaN else if 0 < a then PInf else NInf)"
| "float_div NaN _ = NaN"
| "float_div _ NaN = NaN"
| "float_div (Fin a) PInf = Fin 0"
| "float_div (Fin a) NInf = Fin 0"
| "float_div PInf (Fin b) = (if 0 \<le> b then PInf else NInf)"
| "float_div NInf (Fin b) = (if 0 \<le> b then NInf else PInf)"
| "float_div PInf PInf = NaN"
| "float_div PInf NInf = NaN"
| "float_div NInf PInf = NaN"
| "float_div NInf NInf = NaN"

text \<open>Every comparison with NaN is false.\<close>

fun float_less :: "float \<Rightarrow> float \<Rightarrow> bool" where
  "float_less (Fin a) (Fin b) = (a < b)"
| "float_less NaN _ = False"
| "float_less _ NaN = False"
| "float_less NInf NInf = False"
| "float_less NInf _ = True"
| "float_less _ NInf = False"
| "float_less PInf _ = False"
| "float_less _ PInf = True"

fun float_le :: "float \<Rightarrow> float \<Rightarrow> bool" where
  "float_le (Fin a) (Fin b) = (a \<le> b)"
| "float_le NaN _ = False"
| "float_le _ NaN = False"
| "float_le NInf _ = True"
| "float_le _ PInf = True"
| "float_le _ NInf = False"
| "float_le PInf _ = False"

instantiation float :: "{zero, one, plus, minus, uminus, times, inverse, ord}"
begin

definition zero_float :: float where "zero_float = Fin 0"
definition one_float :: float where "one_float = Fin 1"
definition plus_float :: "float \<Rightarrow> float \<Rightarrow> float" where "plus_float a b = float_add a b"
definition uminus_float :: "float \<Rightarrow> float" where "uminus_float a = float_neg a"
definition minus_float :: "float \<Rightarrow> float \<Rightarrow> float" where
  "minus_float a b = float_add a (float_neg b)"
definition times_float :: "float \<Rightarrow> float \<Rightarrow> float" where "times_float a b = float_mul a b"
definition divide_float :: "float \<Rightarrow> float \<Rightarrow> float" where "divide_float a b = float_div a b"
definition inverse_float :: "float \<Rightarrow> float" where "inverse_float a = float_div (Fin 1) a"
definition less_float :: "float \<Rightarrow> float \<Rightarrow> bool" where "less_float a b = float_less a b"
definition less_eq_float :: "float \<Rightarrow> float \<Rightarrow> bool" where "less_eq_float a b = float_le a b"

instance ..

end

section \<open>Scalars with rounding: IEEE 754 binary32 and binary64\<close>

text \<open>
  The second instance of the scalar type: \<open>B32 m e\<close> is the number \<open>m * 2 ^ e\<close>, and every
  operation rounds its exact result to the binary32 format, to nearest with ties to
  even: at most 24 significant bits, the last of them not below \<open>2 ^ -149\<close>, and an
  infinity from \<open>2 ^ 128\<close> on. \<open>B32 0 e\<close> is the positive zero and \<open>B32_MZero\<close> the negative
  one.
\<close>

datatype binary32 = B32 int int | B32_MZero | B32_PInf | B32_NInf | B32_NaN

text \<open>
  The number of binary digits of a positive integer, and the powers of two; both on
  \<open>int\<close>, whose arithmetic evaluates on binary numerals.
\<close>

function bitlen :: "int \<Rightarrow> int" where
  "bitlen m = (if m \<le> 0 then 0 else 1 + bitlen (m div 2))"
  by pat_completeness auto
termination
  by (relation "measure nat") auto

declare bitlen.simps [simp del]

function pow2 :: "int \<Rightarrow> int" where
  "pow2 k = (if k \<le> 0 then 1 else 2 * pow2 (k - 1))"
  by pat_completeness auto
termination
  by (relation "measure nat") auto

declare pow2.simps [simp del]

text \<open>\<open>a / 2 ^ s\<close> rounded to an integer, to nearest and ties to even, for \<open>a \<ge> 0\<close>.\<close>

definition round_shift :: "int \<Rightarrow> int \<Rightarrow> int" where
  "round_shift a s =
     (if s \<le> 0 then a
      else let q = a div pow2 s; r = a mod pow2 s; h = pow2 (s - 1)
           in if h < r \<or> (r = h \<and> odd q) then q + 1 else q)"

text \<open>
  The number \<open>m * 2 ^ e\<close> rounded to a format of \<open>p\<close> significant bits whose last bit is not
  below \<open>2 ^ emin\<close> and whose finite values are below \<open>2 ^ emax\<close>: the significand and the
  exponent of the result, or \<open>None\<close> when the result is an infinity.
\<close>

definition round_to :: "int \<Rightarrow> int \<Rightarrow> int \<Rightarrow> int \<Rightarrow> int \<Rightarrow> (int \<times> int) option" where
  "round_to p emin emax m e =
     (let n = bitlen \<bar>m\<bar>;
          E = max (e + n - p) emin;
          q = (if E \<le> e then \<bar>m\<bar> * pow2 (e - E) else round_shift \<bar>m\<bar> (E - e))
      in if q \<noteq> 0 \<and> emax < bitlen q + E then None else Some (sgn m * q, E))"

definition b32_zero :: "bool \<Rightarrow> binary32" where
  "b32_zero negative = (if negative then B32_MZero else B32 0 0)"

definition b32_inf :: "bool \<Rightarrow> binary32" where
  "b32_inf negative = (if negative then B32_NInf else B32_PInf)"

text \<open>The number \<open>m * 2 ^ e\<close> rounded to binary32; a result that rounds to zero keeps the sign.\<close>

definition round32 :: "int \<Rightarrow> int \<Rightarrow> binary32" where
  "round32 m e =
     (case round_to 24 (- 149) 128 m e of
        None \<Rightarrow> b32_inf (m < 0)
      | Some (q, E) \<Rightarrow> if q = 0 then b32_zero (m < 0) else B32 q E)"

fun b32_negative :: "binary32 \<Rightarrow> bool" where
  "b32_negative (B32 m e) = (m < 0)"
| "b32_negative B32_MZero = True"
| "b32_negative B32_PInf = False"
| "b32_negative B32_NInf = True"
| "b32_negative B32_NaN = False"

fun b32_is_zero :: "binary32 \<Rightarrow> bool" where
  "b32_is_zero (B32 m e) = (m = 0)"
| "b32_is_zero B32_MZero = True"
| "b32_is_zero _ = False"

fun b32_is_inf :: "binary32 \<Rightarrow> bool" where
  "b32_is_inf B32_PInf = True"
| "b32_is_inf B32_NInf = True"
| "b32_is_inf _ = False"

fun b32_neg :: "binary32 \<Rightarrow> binary32" where
  "b32_neg (B32 m e) = (if m = 0 then B32_MZero else B32 (- m) e)"
| "b32_neg B32_MZero = B32 0 0"
| "b32_neg B32_PInf = B32_NInf"
| "b32_neg B32_NInf = B32_PInf"
| "b32_neg B32_NaN = B32_NaN"

text \<open>
  A sum that is exactly zero is the positive zero, unless both terms are the negative
  zero.
\<close>

fun b32_add :: "binary32 \<Rightarrow> binary32 \<Rightarrow> binary32" where
  "b32_add (B32 m1 e1) (B32 m2 e2) =
     (let e = min e1 e2 in round32 (m1 * pow2 (e1 - e) + m2 * pow2 (e2 - e)) e)"
| "b32_add B32_NaN _ = B32_NaN"
| "b32_add _ B32_NaN = B32_NaN"
| "b32_add B32_PInf B32_NInf = B32_NaN"
| "b32_add B32_NInf B32_PInf = B32_NaN"
| "b32_add B32_PInf _ = B32_PInf"
| "b32_add _ B32_PInf = B32_PInf"
| "b32_add B32_NInf _ = B32_NInf"
| "b32_add _ B32_NInf = B32_NInf"
| "b32_add B32_MZero b = b"
| "b32_add a B32_MZero = a"

text \<open>The sign of a product or a quotient is the product of the signs, also when it is zero.\<close>

fun b32_mul :: "binary32 \<Rightarrow> binary32 \<Rightarrow> binary32" where
  "b32_mul (B32 m1 e1) (B32 m2 e2) =
     (if m1 = 0 \<or> m2 = 0 then b32_zero ((m1 < 0) \<noteq> (m2 < 0))
      else round32 (m1 * m2) (e1 + e2))"
| "b32_mul B32_NaN _ = B32_NaN"
| "b32_mul _ B32_NaN = B32_NaN"
| "b32_mul a b =
     (let negative = (b32_negative a \<noteq> b32_negative b) in
      if b32_is_inf a \<or> b32_is_inf b
      then (if b32_is_zero a \<or> b32_is_zero b then B32_NaN else b32_inf negative)
      else b32_zero negative)"

text \<open>
  The quotient of two finite numbers: the integer quotient is taken with at least 27
  binary digits, and one more digit records whether the division left a remainder, so
  that rounding the result rounds the exact quotient.
\<close>

definition b32_quotient :: "int \<Rightarrow> int \<Rightarrow> int \<Rightarrow> int \<Rightarrow> binary32" where
  "b32_quotient m1 e1 m2 e2 =
     (let k = max 0 (27 + bitlen \<bar>m2\<bar> - bitlen \<bar>m1\<bar>);
          N = \<bar>m1\<bar> * pow2 k;
          q = N div \<bar>m2\<bar>;
          M = 2 * q + (if N mod \<bar>m2\<bar> = 0 then 0 else 1)
      in round32 (sgn m1 * sgn m2 * M) (e1 - e2 - k - 1))"

fun b32_div :: "binary32 \<Rightarrow> binary32 \<Rightarrow> binary32" where
  "b32_div (B32 m1 e1) (B32 m2 e2) =
     (if m2 = 0 then (if m1 = 0 then B32_NaN else b32_inf (m1 < 0))
      else if m1 = 0 then b32_zero (m2 < 0)
      else b32_quotient m1 e1 m2 e2)"
| "b32_div B32_NaN _ = B32_NaN"
| "b32_div _ B32_NaN = B32_NaN"
| "b32_div a b =
     (let negative = (b32_negative a \<noteq> b32_negative b) in
      if b32_is_inf a then (if b32_is_inf b then B32_NaN else b32_inf negative)
      else if b32_is_inf b then b32_zero negative
      else if b32_is_zero b then (if b32_is_zero a then B32_NaN else b32_inf negative)
      else b32_zero negative)"

text \<open>Every comparison with NaN is false, and the two zeros are equal.\<close>

fun b32_less :: "binary32 \<Rightarrow> binary32 \<Rightarrow> bool" where
  "b32_less (B32 m1 e1) (B32 m2 e2) =
     (let e = min e1 e2 in m1 * pow2 (e1 - e) < m2 * pow2 (e2 - e))"
| "b32_less (B32 m e) B32_MZero = (m < 0)"
| "b32_less B32_MZero (B32 m e) = (0 < m)"
| "b32_less B32_MZero B32_MZero = False"
| "b32_less B32_NaN _ = False"
| "b32_less _ B32_NaN = False"
| "b32_less B32_NInf B32_NInf = False"
| "b32_less B32_NInf _ = True"
| "b32_less _ B32_NInf = False"
| "b32_less B32_PInf _ = False"
| "b32_less _ B32_PInf = True"

fun b32_le :: "binary32 \<Rightarrow> binary32 \<Rightarrow> bool" where
  "b32_le (B32 m1 e1) (B32 m2 e2) =
     (let e = min e1 e2 in m1 * pow2 (e1 - e) \<le> m2 * pow2 (e2 - e))"
| "b32_le (B32 m e) B32_MZero = (m \<le> 0)"
| "b32_le B32_MZero (B32 m e) = (0 \<le> m)"
| "b32_le B32_MZero B32_MZero = True"
| "b32_le B32_NaN _ = False"
| "b32_le _ B32_NaN = False"
| "b32_le B32_NInf _ = True"
| "b32_le _ B32_PInf = True"
| "b32_le _ B32_NInf = False"
| "b32_le B32_PInf _ = False"

instantiation binary32 :: "{zero, one, plus, minus, uminus, times, inverse, ord}"
begin

definition zero_binary32 :: binary32 where "zero_binary32 = B32 0 0"
definition one_binary32 :: binary32 where "one_binary32 = B32 1 0"
definition plus_binary32 :: "binary32 \<Rightarrow> binary32 \<Rightarrow> binary32" where
  "plus_binary32 a b = b32_add a b"
definition uminus_binary32 :: "binary32 \<Rightarrow> binary32" where
  "uminus_binary32 a = b32_neg a"
definition minus_binary32 :: "binary32 \<Rightarrow> binary32 \<Rightarrow> binary32" where
  "minus_binary32 a b = b32_add a (b32_neg b)"
definition times_binary32 :: "binary32 \<Rightarrow> binary32 \<Rightarrow> binary32" where
  "times_binary32 a b = b32_mul a b"
definition divide_binary32 :: "binary32 \<Rightarrow> binary32 \<Rightarrow> binary32" where
  "divide_binary32 a b = b32_div a b"
definition inverse_binary32 :: "binary32 \<Rightarrow> binary32" where
  "inverse_binary32 a = b32_div (B32 1 0) a"
definition less_binary32 :: "binary32 \<Rightarrow> binary32 \<Rightarrow> bool" where
  "less_binary32 a b = b32_less a b"
definition less_eq_binary32 :: "binary32 \<Rightarrow> binary32 \<Rightarrow> bool" where
  "less_eq_binary32 a b = b32_le a b"

instance ..

end

text \<open>Two values denote the same number, with the same sign when it is zero.\<close>

fun b32_same :: "binary32 \<Rightarrow> binary32 \<Rightarrow> bool" where
  "b32_same (B32 m1 e1) (B32 m2 e2) =
     (let e = min e1 e2 in m1 * pow2 (e1 - e) = m2 * pow2 (e2 - e))"
| "b32_same B32_MZero B32_MZero = True"
| "b32_same B32_PInf B32_PInf = True"
| "b32_same B32_NInf B32_NInf = True"
| "b32_same B32_NaN B32_NaN = True"
| "b32_same _ _ = False"

subsection \<open>binary64\<close>

text \<open>
  The rasterizer computes two expressions in \<open>double\<close>, with a sum and products, before it
  stores them in a \<open>float\<close>. \<open>B64 m e\<close> is the number \<open>m * 2 ^ e\<close> in the binary64 format: at
  most 53 significant bits, the last of them not below \<open>2 ^ -1074\<close>, and an infinity from
  \<open>2 ^ 1024\<close> on.
\<close>

datatype binary64 = B64 int int | B64_MZero | B64_PInf | B64_NInf | B64_NaN

definition b64_zero :: "bool \<Rightarrow> binary64" where
  "b64_zero negative = (if negative then B64_MZero else B64 0 0)"

definition b64_inf :: "bool \<Rightarrow> binary64" where
  "b64_inf negative = (if negative then B64_NInf else B64_PInf)"

definition round64 :: "int \<Rightarrow> int \<Rightarrow> binary64" where
  "round64 m e =
     (case round_to 53 (- 1074) 1024 m e of
        None \<Rightarrow> b64_inf (m < 0)
      | Some (q, E) \<Rightarrow> if q = 0 then b64_zero (m < 0) else B64 q E)"

fun b64_negative :: "binary64 \<Rightarrow> bool" where
  "b64_negative (B64 m e) = (m < 0)"
| "b64_negative B64_MZero = True"
| "b64_negative B64_PInf = False"
| "b64_negative B64_NInf = True"
| "b64_negative B64_NaN = False"

fun b64_is_zero :: "binary64 \<Rightarrow> bool" where
  "b64_is_zero (B64 m e) = (m = 0)"
| "b64_is_zero B64_MZero = True"
| "b64_is_zero _ = False"

fun b64_is_inf :: "binary64 \<Rightarrow> bool" where
  "b64_is_inf B64_PInf = True"
| "b64_is_inf B64_NInf = True"
| "b64_is_inf _ = False"

fun b64_add :: "binary64 \<Rightarrow> binary64 \<Rightarrow> binary64" where
  "b64_add (B64 m1 e1) (B64 m2 e2) =
     (let e = min e1 e2 in round64 (m1 * pow2 (e1 - e) + m2 * pow2 (e2 - e)) e)"
| "b64_add B64_NaN _ = B64_NaN"
| "b64_add _ B64_NaN = B64_NaN"
| "b64_add B64_PInf B64_NInf = B64_NaN"
| "b64_add B64_NInf B64_PInf = B64_NaN"
| "b64_add B64_PInf _ = B64_PInf"
| "b64_add _ B64_PInf = B64_PInf"
| "b64_add B64_NInf _ = B64_NInf"
| "b64_add _ B64_NInf = B64_NInf"
| "b64_add B64_MZero b = b"
| "b64_add a B64_MZero = a"

fun b64_mul :: "binary64 \<Rightarrow> binary64 \<Rightarrow> binary64" where
  "b64_mul (B64 m1 e1) (B64 m2 e2) =
     (if m1 = 0 \<or> m2 = 0 then b64_zero ((m1 < 0) \<noteq> (m2 < 0))
      else round64 (m1 * m2) (e1 + e2))"
| "b64_mul B64_NaN _ = B64_NaN"
| "b64_mul _ B64_NaN = B64_NaN"
| "b64_mul a b =
     (let negative = (b64_negative a \<noteq> b64_negative b) in
      if b64_is_inf a \<or> b64_is_inf b
      then (if b64_is_zero a \<or> b64_is_zero b then B64_NaN else b64_inf negative)
      else b64_zero negative)"

instantiation binary64 :: "{plus, times}"
begin

definition plus_binary64 :: "binary64 \<Rightarrow> binary64 \<Rightarrow> binary64" where
  "plus_binary64 a b = b64_add a b"
definition times_binary64 :: "binary64 \<Rightarrow> binary64 \<Rightarrow> binary64" where
  "times_binary64 a b = b64_mul a b"

instance ..

end

fun b64_same :: "binary64 \<Rightarrow> binary64 \<Rightarrow> bool" where
  "b64_same (B64 m1 e1) (B64 m2 e2) =
     (let e = min e1 e2 in m1 * pow2 (e1 - e) = m2 * pow2 (e2 - e))"
| "b64_same B64_MZero B64_MZero = True"
| "b64_same B64_PInf B64_PInf = True"
| "b64_same B64_NInf B64_NInf = True"
| "b64_same B64_NaN B64_NaN = True"
| "b64_same _ _ = False"

section \<open>Vectors\<close>

datatype 'a Vector2f = Vector2f (ux: 'a) (uy: 'a)
datatype 'a Vector3f = Vector3f (tx: 'a) (ty: 'a) (tz: 'a)
datatype 'a Vector4f = Vector4f (vx: 'a) (vy: 'a) (vz: 'a) (vw: 'a)

text \<open>
  Modelled from the spec: \<open>vectorInterpolate\<close> is declared in util.hpp, which is not among
  the sources. The specification gives it as \<open>lerp(a, b, t) = a + t (b - a)\<close>, componentwise;
  the C++ overloads for the three vector widths are three functions here.
\<close>

definition lerp :: "'a::{plus,minus,times} \<Rightarrow> 'a \<Rightarrow> 'a \<Rightarrow> 'a" where
  "lerp a b t = a + t * (b - a)"

definition vectorInterpolate2 ::
  "'a::{plus,minus,times} Vector2f \<Rightarrow> 'a Vector2f \<Rightarrow> 'a \<Rightarrow> 'a Vector2f" where
  "vectorInterpolate2 a b t = Vector2f (lerp (ux a) (ux b) t) (lerp (uy a) (uy b) t)"

definition vectorInterpolate3 ::
  "'a::{plus,minus,times} Vector3f \<Rightarrow> 'a Vector3f \<Rightarrow> 'a \<Rightarrow> 'a Vector3f" where
  "vectorInterpolate3 a b t =
     Vector3f (lerp (tx a) (tx b) t) (lerp (ty a) (ty b) t) (lerp (tz a) (tz b) t)"

definition vectorInterpolate4 ::
  "'a::{plus,minus,times} Vector4f \<Rightarrow> 'a Vector4f \<Rightarrow> 'a \<Rightarrow> 'a Vector4f" where
  "vectorInterpolate4 a b t =
     Vector4f (lerp (vx a) (vx b) t) (lerp (vy a) (vy b) t)
              (lerp (vz a) (vz b) t) (lerp (vw a) (vw b) t)"

section \<open>Clipper (pipeline.cpp)\<close>

text \<open>
  Modelled from the spec: the enumeration \<open>Plane\<close> and the constant \<open>MINIMAL_VAL\<close> are declared
  in headers that are not among the sources. The specification fixes the enumeration as
  \<open>{MINIMAL, RIGHT, LEFT, TOP, BOTTOM, NEAR, FAR}\<close>, so the enumerators have the values 0 to 6
  in that order. \<open>MINIMAL_VAL\<close> is the first argument \<open>eps\<close> of every function that uses it.
\<close>

datatype Plane = MINIMAL | RIGHT | LEFT | TOP | BOTTOM | NEAR | FAR

fun plane_value :: "Plane \<Rightarrow> nat" where
  "plane_value MINIMAL = 0"
| "plane_value RIGHT = 1"
| "plane_value LEFT = 2"
| "plane_value TOP = 3"
| "plane_value BOTTOM = 4"
| "plane_value NEAR = 5"
| "plane_value FAR = 6"

fun is_inside_plane :: "'a::{uminus,ord} \<Rightarrow> Plane \<Rightarrow> 'a Vector4f \<Rightarrow> bool" where
  "is_inside_plane eps MINIMAL vertex = (vw vertex \<le> - eps)"
| "is_inside_plane eps RIGHT vertex = (vx vertex \<ge> vw vertex)"
| "is_inside_plane eps LEFT vertex = (vx vertex \<le> - vw vertex)"
| "is_inside_plane eps TOP vertex = (vy vertex \<ge> vw vertex)"
| "is_inside_plane eps BOTTOM vertex = (vy vertex \<le> - vw vertex)"
| "is_inside_plane eps NEAR vertex = (vz vertex \<ge> vw vertex)"
| "is_inside_plane eps FAR vertex = (vz vertex \<le> - vw vertex)"

fun get_intersect_ratio ::
  "'a::{plus,minus,inverse} \<Rightarrow> 'a Vector4f \<Rightarrow> 'a Vector4f \<Rightarrow> Plane \<Rightarrow> 'a" where
  "get_intersect_ratio eps prev curv MINIMAL = (vw prev + eps) / (vw prev - vw curv)"
| "get_intersect_ratio eps prev curv RIGHT =
     (vw prev - vx prev) / ((vw prev - vx prev) - (vw curv - vx curv))"
| "get_intersect_ratio eps prev curv LEFT =
     (vw prev + vx prev) / ((vw prev + vx prev) - (vw curv + vx curv))"
| "get_intersect_ratio eps prev curv TOP =
     (vw prev - vy prev) / ((vw prev - vy prev) - (vw curv - vy curv))"
| "get_intersect_ratio eps prev curv BOTTOM =
     (vw prev + vy prev) / ((vw prev + vy prev) - (vw curv + vy curv))"
| "get_intersect_ratio eps prev curv NEAR =
     (vw prev - vz prev) / ((vw prev - vz prev) - (vw curv - vz curv))"
| "get_intersect_ratio eps prev curv FAR =
     (vw prev + vz prev) / ((vw prev + vz prev) - (vw curv + vz curv))"

text \<open>
  The payload's arrays have a fixed capacity that is declared in a header which is not
  among the sources. An array is a function from the index to the element; the capacity
  is not modelled, so a store is never out of range here.
\<close>

type_synonym 'a arr = "nat \<Rightarrow> 'a"

record 'a Payload =
  clipped_coords_a :: "'a Vector4f arr"
  clipped_world_coords_a :: "'a Vector4f arr"
  clipped_normals_a :: "'a Vector3f arr"
  clipped_uvs_a :: "'a Vector2f arr"
  clipped_coords_b :: "'a Vector4f arr"
  clipped_world_coords_b :: "'a Vector4f arr"
  clipped_normals_b :: "'a Vector3f arr"
  clipped_uvs_b :: "'a Vector2f arr"
  homo_coords :: "'a Vector4f arr"

text \<open>The four attribute streams of one side of the payload, and the output cursor \<open>num\<close>.\<close>

type_synonym 'a streams =
  "'a Vector4f arr \<times> 'a Vector4f arr \<times> 'a Vector3f arr \<times> 'a Vector2f arr"

text \<open>One iteration of the loop of \<open>clipWithPlane\<close>, for the edge from \<open>i\<close> to its successor.\<close>

definition clip_edge ::
  "'a::{plus,minus,uminus,times,inverse,ord} \<Rightarrow> Plane \<Rightarrow> nat \<Rightarrow> 'a streams \<Rightarrow> nat \<Rightarrow>
   nat \<times> 'a streams \<Rightarrow> nat \<times> 'a streams" where
  "clip_edge eps clip_plane vertex_num ins i st =
     (case ins of (in_coords, in_world_coords, in_normals, in_uvs) \<Rightarrow>
      let v1 = i;
          v2 = (i + 1) mod vertex_num;
          v1_inside = is_inside_plane eps clip_plane (in_coords v1);
          v2_inside = is_inside_plane eps clip_plane (in_coords v2);
          st1 = (if v1_inside \<noteq> v2_inside then
                   (case st of (num, out_coords, out_world_coords, out_normals, out_uvs) \<Rightarrow>
                    let ratio = get_intersect_ratio eps (in_coords v1) (in_coords v2) clip_plane
                    in (num + 1,
                        out_coords(num := vectorInterpolate4 (in_coords v1) (in_coords v2) ratio),
                        out_world_coords(num :=
                          vectorInterpolate4 (in_world_coords v1) (in_world_coords v2) ratio),
                        out_normals(num :=
                          vectorInterpolate3 (in_normals v1) (in_normals v2) ratio),
                        out_uvs(num := vectorInterpolate2 (in_uvs v1) (in_uvs v2) ratio)))
                 else st)
      in (if v2_inside then
            (case st1 of (num, out_coords, out_world_coords, out_normals, out_uvs) \<Rightarrow>
               (num + 1,
                out_coords(num := in_coords v2),
                out_world_coords(num := in_world_coords v2),
                out_normals(num := in_normals v2),
                out_uvs(num := in_uvs v2)))
          else st1))"

definition side_a :: "'a Payload \<Rightarrow> 'a streams" where
  "side_a payload = (clipped_coords_a payload, clipped_world_coords_a payload,
                     clipped_normals_a payload, clipped_uvs_a payload)"

definition side_b :: "'a Payload \<Rightarrow> 'a streams" where
  "side_b payload = (clipped_coords_b payload, clipped_world_coords_b payload,
                     clipped_normals_b payload, clipped_uvs_b payload)"

definition set_side_a :: "'a streams \<Rightarrow> 'a Payload \<Rightarrow> 'a Payload" where
  "set_side_a s payload =
     (case s of (c, wc, n, u) \<Rightarrow>
        payload\<lparr>clipped_coords_a := c, clipped_world_coords_a := wc,
                clipped_normals_a := n, clipped_uvs_a := u\<rparr>)"

definition set_side_b :: "'a streams \<Rightarrow> 'a Payload \<Rightarrow> 'a Payload" where
  "set_side_b s payload =
     (case s of (c, wc, n, u) \<Rightarrow>
        payload\<lparr>clipped_coords_b := c, clipped_world_coords_b := wc,
                clipped_normals_b := n, clipped_uvs_b := u\<rparr>)"

text \<open>
  \<open>clipWithPlane\<close>: a plane with an odd value reads side b and writes side a, a plane with
  an even value reads side a and writes side b. The loop over \<open>i = 0, ..., vertex_num - 1\<close>
  is a fold of \<open>clip_edge\<close>, starting with \<open>num = 0\<close> and the output side as it is. The result
  is the returned count and the payload after the stores.
\<close>

definition clipWithPlane ::
  "'a::{plus,minus,uminus,times,inverse,ord} \<Rightarrow> Plane \<Rightarrow> nat \<Rightarrow> 'a Payload \<Rightarrow>
   nat \<times> 'a Payload" where
  "clipWithPlane eps clip_plane vertex_num payload =
     (let is_odd = (plane_value clip_plane mod 2 \<noteq> 0);
          ins = (if \<not> is_odd then side_a payload else side_b payload);
          outs = (if \<not> is_odd then side_b payload else side_a payload);
          r = fold (clip_edge eps clip_plane vertex_num ins) [0..<vertex_num] (0, outs)
      in (fst r, (if \<not> is_odd then set_side_b (snd r) payload
                  else set_side_a (snd r) payload)))"

definition homogeneous_clip ::
  "'a::{plus,minus,uminus,times,inverse,ord} \<Rightarrow> 'a Payload \<Rightarrow> nat \<times> 'a Payload" where
  "homogeneous_clip eps payload =
     (let (num, payload) = clipWithPlane eps MINIMAL 3 payload;
          (num, payload) = clipWithPlane eps RIGHT num payload;
          (num, payload) = clipWithPlane eps LEFT num payload;
          (num, payload) = clipWithPlane eps TOP num payload;
          (num, payload) = clipWithPlane eps BOTTOM num payload;
          (num, payload) = clipWithPlane eps NEAR num payload
      in clipWithPlane eps FAR num payload)"


subsection \<open>The polygon of clip-space positions\<close>

text \<open>
  The control flow of the clipper depends on the clip-space positions only. These
  definitions read the positions off the arrays as lists: \<open>sh_edge\<close> is what one loop
  iteration appends to \<open>out_coords\<close>, \<open>clip_ring\<close> is one call of \<open>clipWithPlane\<close>, and
  \<open>clip_polygon\<close> is the seven calls of \<open>homogeneous_clip\<close>.
\<close>

definition sh_edge ::
  "'a::{plus,minus,uminus,times,inverse,ord} \<Rightarrow> Plane \<Rightarrow> 'a Vector4f \<Rightarrow> 'a Vector4f \<Rightarrow> 'a Vector4f list" where
  "sh_edge eps pl p c =
     (if is_inside_plane eps pl p \<noteq> is_inside_plane eps pl c
      then [vectorInterpolate4 p c (get_intersect_ratio eps p c pl)] else []) @
     (if is_inside_plane eps pl c then [c] else [])"

definition edges_out ::
  "'a::{plus,minus,uminus,times,inverse,ord} \<Rightarrow> Plane \<Rightarrow> 'a Vector4f arr \<Rightarrow> nat \<Rightarrow> nat \<Rightarrow> 'a Vector4f list" where
  "edges_out eps pl f n k = concat (map (\<lambda>i. sh_edge eps pl (f i) (f ((i + 1) mod n))) [0..<k])"

definition clip_ring ::
  "'a::{plus,minus,uminus,times,inverse,ord} \<Rightarrow> Plane \<Rightarrow> 'a Vector4f list \<Rightarrow> 'a Vector4f list" where
  "clip_ring eps pl xs = edges_out eps pl (\<lambda>i. xs ! i) (length xs) (length xs)"

definition coords_of :: "nat \<times> 'a streams \<Rightarrow> 'a Vector4f list" where
  "coords_of st = map (fst (snd st)) [0..<fst st]"

definition clip_polygon ::
  "'a::{plus,minus,uminus,times,inverse,ord} \<Rightarrow> 'a Vector4f list \<Rightarrow> 'a Vector4f list" where
  "clip_polygon eps xs = fold (clip_ring eps) [MINIMAL, RIGHT, LEFT, TOP, BOTTOM, NEAR, FAR] xs"


text \<open>
  Modelled from the spec: \<open>MINIMAL_VAL\<close> is defined in macro.hpp, which is not among the
  sources; the specification suggests \<open>1e-5\<close>. The value is used for the scenarios only.
\<close>

definition MINIMAL_VAL :: float where
  "MINIMAL_VAL = Fin (1 / 100000)"

text \<open>A payload whose side a holds a triangle, as the driver fills it before clipping.\<close>

definition triangle_payload ::
  "'a Vector4f \<Rightarrow> 'a Vector4f \<Rightarrow> 'a Vector4f \<Rightarrow> 'a Vector3f \<Rightarrow> 'a Vector2f \<Rightarrow> 'a Payload" where
  "triangle_payload v0 v1 v2 n u =
     (let c = (\<lambda>i::nat. if i = 0 then v0 else if i = 1 then v1 else v2)
      in \<lparr>clipped_coords_a = c, clipped_world_coords_a = c,
          clipped_normals_a = (\<lambda>i. n), clipped_uvs_a = (\<lambda>i. u),
          clipped_coords_b = c, clipped_world_coords_b = c,
          clipped_normals_b = (\<lambda>i. n), clipped_uvs_b = (\<lambda>i. u),
          homo_coords = c\<rparr>)"

text \<open>Scenario S1 of the specification, and the same triangle with \<open>w = -1\<close>.\<close>

definition S1_v0 :: "float Vector4f" where "S1_v0 = Vector4f (Fin (-1/2)) (Fin (-1/2)) (Fin 0) (Fin 1)"
definition S1_v1 :: "float Vector4f" where "S1_v1 = Vector4f (Fin (1/2)) (Fin (-1/2)) (Fin 0) (Fin 1)"
definition S1_v2 :: "float Vector4f" where "S1_v2 = Vector4f (Fin 0) (Fin (1/2)) (Fin 0) (Fin 1)"

definition S1_payload :: "float Payload" where
  "S1_payload = triangle_payload S1_v0 S1_v1 S1_v2
                  (Vector3f (Fin 0) (Fin 0) (Fin 1)) (Vector2f (Fin 0) (Fin 0))"

definition N1_v0 :: "float Vector4f" where "N1_v0 = Vector4f (Fin (-1/2)) (Fin (-1/2)) (Fin 0) (Fin (-1))"
definition N1_v1 :: "float Vector4f" where "N1_v1 = Vector4f (Fin (1/2)) (Fin (-1/2)) (Fin 0) (Fin (-1))"
definition N1_v2 :: "float Vector4f" where "N1_v2 = Vector4f (Fin 0) (Fin (1/2)) (Fin 0) (Fin (-1))"

definition N1_payload :: "float Payload" where
  "N1_payload = triangle_payload N1_v0 N1_v1 N1_v2
                  (Vector3f (Fin 0) (Fin 0) (Fin 1)) (Vector2f (Fin 0) (Fin 0))"

subsection \<open>The plane table of the specification\<close>

text \<open>
  These three definitions follow the words of the specification (section 4.1): the order of
  the planes, the column "inside test" and the column "intersect-ratio numerator /
  denominator", with \<open>p\<close> the previous and \<open>c\<close> the current vertex.
\<close>

definition spec_plane_order :: "Plane list" where
  "spec_plane_order = [MINIMAL, RIGHT, LEFT, TOP, BOTTOM, NEAR, FAR]"

definition spec_inside_test :: "'a::{uminus,ord} \<Rightarrow> Plane \<Rightarrow> 'a Vector4f \<Rightarrow> bool" where
  "spec_inside_test eps pl v =
     (case pl of
        MINIMAL \<Rightarrow> vw v \<le> - eps
      | RIGHT \<Rightarrow> vx v \<ge> vw v
      | LEFT \<Rightarrow> vx v \<le> - vw v
      | TOP \<Rightarrow> vy v \<ge> vw v
      | BOTTOM \<Rightarrow> vy v \<le> - vw v
      | NEAR \<Rightarrow> vz v \<ge> vw v
      | FAR \<Rightarrow> vz v \<le> - vw v)"

definition spec_ratio_numerator :: "'a::{plus,minus} \<Rightarrow> Plane \<Rightarrow> 'a Vector4f \<Rightarrow> 'a" where
  "spec_ratio_numerator eps pl p =
     (case pl of
        MINIMAL \<Rightarrow> vw p + eps
      | RIGHT \<Rightarrow> vw p - vx p
      | LEFT \<Rightarrow> vw p + vx p
      | TOP \<Rightarrow> vw p - vy p
      | BOTTOM \<Rightarrow> vw p + vy p
      | NEAR \<Rightarrow> vw p - vz p
      | FAR \<Rightarrow> vw p + vz p)"

definition spec_ratio_denominator ::
  "Plane \<Rightarrow> 'a::{plus,minus} Vector4f \<Rightarrow> 'a Vector4f \<Rightarrow> 'a" where
  "spec_ratio_denominator pl p c =
     (case pl of
        MINIMAL \<Rightarrow> vw p - vw c
      | RIGHT \<Rightarrow> (vw p - vx p) - (vw c - vx c)
      | LEFT \<Rightarrow> (vw p + vx p) - (vw c + vx c)
      | TOP \<Rightarrow> (vw p - vy p) - (vw c - vy c)
      | BOTTOM \<Rightarrow> (vw p + vy p) - (vw c + vy c)
      | NEAR \<Rightarrow> (vw p - vz p) - (vw c - vz c)
      | FAR \<Rightarrow> (vw p + vz p) - (vw c + vz c))"

text \<open>Finite values, and vectors of finite values.\<close>

fun is_fin :: "float \<Rightarrow> bool" where
  "is_fin (Fin a) = True"
| "is_fin PInf = False"
| "is_fin NInf = False"
| "is_fin NaN = False"

definition finite4 :: "float Vector4f \<Rightarrow> bool" where
  "finite4 v = (is_fin (vx v) \<and> is_fin (vy v) \<and> is_fin (vz v) \<and> is_fin (vw v))"

subsection \<open>Auxiliary notions for the proofs\<close>

text \<open>The real value of a finite \<open>float\<close>.\<close>

fun re :: "float \<Rightarrow> real" where
  "re (Fin a) = a"
| "re PInf = 0"
| "re NInf = 0"
| "re NaN = 0"

text \<open>
  Each plane is the zero set of an affine function of the position, and a finite vertex
  is inside the plane if and only if the function is not positive there. The ratio of
  \<open>get_intersect_ratio\<close> is \<open>f p / (f p - f c)\<close> for this function \<open>f\<close>.
\<close>

definition plane_fn :: "real \<Rightarrow> Plane \<Rightarrow> float Vector4f \<Rightarrow> real" where
  "plane_fn e pl v =
     (case pl of
        MINIMAL \<Rightarrow> re (vw v) + e
      | RIGHT \<Rightarrow> re (vw v) - re (vx v)
      | LEFT \<Rightarrow> re (vw v) + re (vx v)
      | TOP \<Rightarrow> re (vw v) - re (vy v)
      | BOTTOM \<Rightarrow> re (vw v) + re (vy v)
      | NEAR \<Rightarrow> re (vw v) - re (vz v)
      | FAR \<Rightarrow> re (vw v) + re (vz v))"

text \<open>A vertex on the RIGHT plane, and an edge that crosses the RIGHT plane.\<close>

definition on_plane :: "float Vector4f" where
  "on_plane = Vector4f (Fin (-1)) (Fin 0) (Fin 0) (Fin (-1))"

definition P_in :: "float Vector4f" where "P_in = Vector4f (Fin 0) (Fin 0) (Fin 0) (Fin (-1))"
definition P_out :: "float Vector4f" where "P_out = Vector4f (Fin (-3)) (Fin 0) (Fin 0) (Fin (-1))"

text \<open>
  The number of places where a sequence of booleans changes its value: along a list
  (\<open>chg\<close>) and around a ring (\<open>ring_changes\<close>, the last element is followed by the first).
\<close>

definition differ :: "bool \<Rightarrow> bool \<Rightarrow> nat" where
  "differ a b = (if a = b then 0 else 1)"

fun chg :: "bool list \<Rightarrow> nat" where
  "chg [] = 0"
| "chg [x] = 0"
| "chg (x # y # r) = differ x y + chg (y # r)"

definition ring_changes :: "bool list \<Rightarrow> nat" where
  "ring_changes bs = (\<Sum>i<length bs. differ (bs ! i) (bs ! ((i + 1) mod length bs)))"

text \<open>
  The inside tests of the vertices of a ring, and the number of edges of the ring that
  end at an inside vertex.
\<close>

definition inside_ring ::
  "'a::{uminus,ord} \<Rightarrow> Plane \<Rightarrow> 'a Vector4f list \<Rightarrow> bool list" where
  "inside_ring eps pl xs = map (is_inside_plane eps pl) xs"

definition inside_count :: "bool list \<Rightarrow> nat" where
  "inside_count bs = (\<Sum>i<length bs. if bs ! ((i + 1) mod length bs) then 1 else 0)"

text \<open>The vertex that the clipper inserts on an edge that crosses the plane.\<close>

definition crossing :: "float \<Rightarrow> Plane \<Rightarrow> float Vector4f \<Rightarrow> float Vector4f \<Rightarrow> float Vector4f" where
  "crossing eps pl p c = vectorInterpolate4 p c (get_intersect_ratio eps p c pl)"

text \<open>
  The invariant of the clipper in exact arithmetic: all positions are finite and no plane
  is crossed more than twice around the ring.
\<close>

definition convex_ring :: "real \<Rightarrow> float Vector4f list \<Rightarrow> bool" where
  "convex_ring e xs =
     ((\<forall>v\<in>set xs. finite4 v) \<and> (\<forall>q. ring_changes (inside_ring (Fin e) q xs) \<le> 2))"

text \<open>A triangle with one vertex outside the RIGHT plane.\<close>

definition X1_v0 :: "float Vector4f" where "X1_v0 = Vector4f (Fin (-2)) (Fin 0) (Fin 0) (Fin (-1))"
definition X1_v1 :: "float Vector4f" where "X1_v1 = Vector4f (Fin 0) (Fin 1) (Fin 0) (Fin (-1))"
definition X1_v2 :: "float Vector4f" where "X1_v2 = Vector4f (Fin 0) (Fin (-1)) (Fin 0) (Fin (-1))"

definition X1_payload :: "float Payload" where
  "X1_payload = triangle_payload X1_v0 X1_v1 X1_v2
                  (Vector3f (Fin 0) (Fin 0) (Fin 1)) (Vector2f (Fin 0) (Fin 0))"

section \<open>Rasterizer and pipeline driver (pipeline.cpp)\<close>

subsection \<open>Undefined behaviour as a value\<close>

text \<open>
  An access outside an array, a conversion of a floating-point value that the target
  integer type cannot hold, and a signed overflow are undefined behaviour in C++. A
  function that can run into one of them returns \<open>Inl\<close> of the fault, and \<open>Inr\<close> of its
  result otherwise.
\<close>

datatype fault = OutOfRange | BadConversion | Overflow

definition bindF :: "fault + 'a \<Rightarrow> ('a \<Rightarrow> fault + 'b) \<Rightarrow> fault + 'b" where
  "bindF m f = (case m of Inl e \<Rightarrow> Inl e | Inr v \<Rightarrow> f v)"

text \<open>A loop over the elements of a list that stops at the first fault.\<close>

fun foldF :: "('a \<Rightarrow> 's \<Rightarrow> fault + 's) \<Rightarrow> 'a list \<Rightarrow> 's \<Rightarrow> fault + 's" where
  "foldF f [] s = Inr s"
| "foldF f (x # xs) s = bindF (f x s) (foldF f xs)"

text \<open>\<open>xs[i]\<close> of a \<open>std::vector\<close>, read and written, with an \<open>int\<close> index.\<close>

definition load :: "'a list \<Rightarrow> int \<Rightarrow> fault + 'a" where
  "load xs i = (if 0 \<le> i \<and> i < int (length xs) then Inr (xs ! nat i) else Inl OutOfRange)"

definition store :: "'a list \<Rightarrow> int \<Rightarrow> 'a \<Rightarrow> fault + 'a list" where
  "store xs i v =
     (if 0 \<le> i \<and> i < int (length xs) then Inr (xs[nat i := v]) else Inl OutOfRange)"

text \<open>\<open>std::min\<close> and \<open>std::max\<close>, which return their first argument unless the comparison holds.\<close>

definition std_min :: "'a::ord \<Rightarrow> 'a \<Rightarrow> 'a" where
  "std_min a b = (if b < a then b else a)"

definition std_max :: "'a::ord \<Rightarrow> 'a \<Rightarrow> 'a" where
  "std_max a b = (if a < b then b else a)"

subsection \<open>Conversions\<close>

text \<open>
  The rasterizer mixes \<open>int\<close>, \<open>float\<close>, \<open>double\<close> and bytes. Its functions are written over a
  type \<open>'a\<close> of the floats and a type \<open>'d\<close> of the doubles, and they take the conversions
  that C++ inserts, \<open>std::ceil\<close> and the two literals that are neither 0 nor 1 as a
  parameter \<open>cv\<close>. The \<open>int\<close> literal \<open>1\<close> in a \<open>float\<close> expression is \<open>1\<close> and \<open>0.f\<close> is \<open>0\<close>.
  A floating-point value converts to an integer type by discarding the fraction; the
  behaviour is undefined when the result does not fit.
\<close>

type_synonym byte = "8 word"

record ('a, 'd) conversions =
  int_to_double :: "int \<Rightarrow> 'd"
  float_to_double :: "'a \<Rightarrow> 'd"
  double_to_float :: "'d \<Rightarrow> 'a"
  float_to_int :: "'a \<Rightarrow> fault + int"
  float_to_uchar :: "'a \<Rightarrow> fault + byte"
  std_ceil :: "'a \<Rightarrow> 'a"
  double_half :: 'd
  float_255 :: 'a

text \<open>\<open>INT_MAX\<close> is that of a 32-bit \<open>int\<close>.\<close>

definition INT_MAX :: int where
  "INT_MAX = 2147483647"

text \<open>
  The conversions of the exact arithmetic, where \<open>float\<close> and \<open>double\<close> are the same type and
  no conversion between them rounds.
\<close>

definition trunc :: "real \<Rightarrow> int" where
  "trunc r = (if 0 \<le> r then \<lfloor>r\<rfloor> else \<lceil>r\<rceil>)"

fun to_int :: "float \<Rightarrow> fault + int" where
  "to_int (Fin r) =
     (if - INT_MAX - 1 \<le> trunc r \<and> trunc r \<le> INT_MAX then Inr (trunc r) else Inl BadConversion)"
| "to_int PInf = Inl BadConversion"
| "to_int NInf = Inl BadConversion"
| "to_int NaN = Inl BadConversion"

fun to_byte :: "float \<Rightarrow> fault + byte" where
  "to_byte (Fin r) =
     (if 0 \<le> trunc r \<and> trunc r \<le> 255 then Inr (word_of_int (trunc r)) else Inl BadConversion)"
| "to_byte PInf = Inl BadConversion"
| "to_byte NInf = Inl BadConversion"
| "to_byte NaN = Inl BadConversion"

definition of_int_float :: "int \<Rightarrow> float" where
  "of_int_float i = Fin (of_int i)"

fun float_ceil :: "float \<Rightarrow> float" where
  "float_ceil (Fin r) = Fin (of_int \<lceil>r\<rceil>)"
| "float_ceil PInf = PInf"
| "float_ceil NInf = NInf"
| "float_ceil NaN = NaN"

definition exact_conversions :: "(float, float) conversions" where
  "exact_conversions =
     \<lparr>int_to_double = of_int_float, float_to_double = (\<lambda>x. x), double_to_float = (\<lambda>x. x),
      float_to_int = to_int, float_to_uchar = to_byte, std_ceil = float_ceil,
      double_half = Fin (1 / 2), float_255 = Fin 255\<rparr>"

text \<open>
  The conversions of the rounded arithmetic. Every binary32 number is a binary64 number,
  the way back rounds, and an \<open>int\<close> is a binary64 number.
\<close>

fun b32_to_b64 :: "binary32 \<Rightarrow> binary64" where
  "b32_to_b64 (B32 m e) = B64 m e"
| "b32_to_b64 B32_MZero = B64_MZero"
| "b32_to_b64 B32_PInf = B64_PInf"
| "b32_to_b64 B32_NInf = B64_NInf"
| "b32_to_b64 B32_NaN = B64_NaN"

fun b64_to_b32 :: "binary64 \<Rightarrow> binary32" where
  "b64_to_b32 (B64 m e) = round32 m e"
| "b64_to_b32 B64_MZero = B32_MZero"
| "b64_to_b32 B64_PInf = B32_PInf"
| "b64_to_b32 B64_NInf = B32_NInf"
| "b64_to_b32 B64_NaN = B32_NaN"

definition int_to_b64 :: "int \<Rightarrow> binary64" where
  "int_to_b64 i = round64 i 0"

text \<open>The integer part of \<open>m * 2 ^ e\<close>.\<close>

definition b32_trunc :: "int \<Rightarrow> int \<Rightarrow> int" where
  "b32_trunc m e = (if 0 \<le> e then m * pow2 e else sgn m * (\<bar>m\<bar> div pow2 (- e)))"

fun b32_to_int :: "binary32 \<Rightarrow> fault + int" where
  "b32_to_int (B32 m e) =
     (if - INT_MAX - 1 \<le> b32_trunc m e \<and> b32_trunc m e \<le> INT_MAX then Inr (b32_trunc m e)
      else Inl BadConversion)"
| "b32_to_int B32_MZero = Inr 0"
| "b32_to_int B32_PInf = Inl BadConversion"
| "b32_to_int B32_NInf = Inl BadConversion"
| "b32_to_int B32_NaN = Inl BadConversion"

fun b32_to_uchar :: "binary32 \<Rightarrow> fault + byte" where
  "b32_to_uchar (B32 m e) =
     (if 0 \<le> b32_trunc m e \<and> b32_trunc m e \<le> 255 then Inr (word_of_int (b32_trunc m e))
      else Inl BadConversion)"
| "b32_to_uchar B32_MZero = Inr 0"
| "b32_to_uchar B32_PInf = Inl BadConversion"
| "b32_to_uchar B32_NInf = Inl BadConversion"
| "b32_to_uchar B32_NaN = Inl BadConversion"

fun b32_ceil :: "binary32 \<Rightarrow> binary32" where
  "b32_ceil (B32 m e) =
     (if 0 \<le> e then B32 m e
      else let c = - ((- m) div pow2 (- e)) in if c = 0 then b32_zero (m < 0) else B32 c 0)"
| "b32_ceil B32_MZero = B32_MZero"
| "b32_ceil B32_PInf = B32_PInf"
| "b32_ceil B32_NInf = B32_NInf"
| "b32_ceil B32_NaN = B32_NaN"

definition binary32_conversions :: "(binary32, binary64) conversions" where
  "binary32_conversions =
     \<lparr>int_to_double = int_to_b64, float_to_double = b32_to_b64, double_to_float = b64_to_b32,
      float_to_int = b32_to_int, float_to_uchar = b32_to_uchar, std_ceil = b32_ceil,
      double_half = B64 1 (- 1), float_255 = B32 255 0\<rparr>"

subsection \<open>The pipeline, the shader and the model\<close>

text \<open>
  Modelled from the spec: the class \<open>Pipeline\<close> is declared in pipeline.hpp, which is not
  among the sources. Its constructor gives the fields: the depth buffer has
  \<open>width * height\<close> floats, the framebuffer \<open>4 * width * height\<close> bytes.
\<close>

record 'a Pipeline =
  width :: int
  height :: int
  zbuffer :: "'a list"
  framebuffer :: "byte list"

text \<open>
  Modelled from the spec: the class \<open>Shader\<close> is not among the sources. It holds the
  attribute slots of the triangle being drawn and whatever else its two functions read
  (\<open>uniforms\<close>); the vertex shader and the fragment shader are parameters \<open>VS\<close> and \<open>FS\<close> of
  the functions that call them, and they read the shader.
\<close>

record ('a, 'u) Shader =
  shader_homo_coords :: "'a Vector4f arr"
  shader_world_coords :: "'a Vector4f arr"
  shader_normals :: "'a Vector3f arr"
  shader_uvs :: "'a Vector2f arr"
  uniforms :: 'u

type_synonym ('a, 'u) vertex_shader = "('a, 'u) Shader \<Rightarrow> 'a Vector4f \<Rightarrow> 'a Vector4f"
type_synonym ('a, 'u) fragment_shader =
  "('a, 'u) Shader \<Rightarrow> 'a \<Rightarrow> 'a \<Rightarrow> 'a \<Rightarrow> 'a \<Rightarrow> 'a Vector3f"

text \<open>
  Modelled from the spec: the class \<open>Model\<close> is declared in model.hpp, which is not among
  the sources. A face holds three triples of indices into the model's arrays.
\<close>

record FaceVertex =
  vertex_index :: int
  uv_index :: int
  normal_index :: int

record Face =
  vertex :: "FaceVertex arr"

record 'a Model =
  vertices :: "'a Vector4f list"
  normals :: "'a Vector3f list"
  uv_coords :: "'a Vector2f list"
  faces :: "Face list"

subsection \<open>setColor\<close>

definition setColor ::
  "('a, 'd) conversions \<Rightarrow> int \<Rightarrow> int \<Rightarrow> 'a Vector3f \<Rightarrow> 'a Pipeline \<Rightarrow> fault + 'a Pipeline" where
  "setColor cv x y color pl =
     (let index = ((height pl - y - 1) * width pl + x) * 4 in
      bindF (float_to_uchar cv (tx color)) (\<lambda>r.
      bindF (store (framebuffer pl) (index + 2) r) (\<lambda>fb.
      bindF (float_to_uchar cv (ty color)) (\<lambda>g.
      bindF (store fb (index + 1) g) (\<lambda>fb.
      bindF (float_to_uchar cv (tz color)) (\<lambda>b.
      bindF (store fb index b) (\<lambda>fb.
      Inr (pl\<lparr>framebuffer := fb\<rparr>))))))))"

subsection \<open>rasterize\<close>

definition computeBarycentricCoords2D ::
  "'a::{one,plus,minus,times,inverse} \<Rightarrow> 'a \<Rightarrow> 'a Vector3f arr \<Rightarrow> 'a \<times> 'a \<times> 'a" where
  "computeBarycentricCoords2D x y v =
     (let alpha = (x * (ty (v 1) - ty (v 2)) + (tx (v 2) - tx (v 1)) * y
                     + tx (v 1) * ty (v 2) - tx (v 2) * ty (v 1)) /
                  (tx (v 0) * (ty (v 1) - ty (v 2)) + (tx (v 2) - tx (v 1)) * ty (v 0)
                     + tx (v 1) * ty (v 2) - tx (v 2) * ty (v 1));
          beta = (x * (ty (v 2) - ty (v 0)) + (tx (v 0) - tx (v 2)) * y
                     + tx (v 2) * ty (v 0) - tx (v 0) * ty (v 2)) /
                 (tx (v 1) * (ty (v 2) - ty (v 0)) + (tx (v 0) - tx (v 2)) * ty (v 1)
                     + tx (v 2) * ty (v 0) - tx (v 0) * ty (v 2))
      in (alpha, beta, 1 - alpha - beta))"

definition inside_triangle :: "'a::{zero,ord} \<Rightarrow> 'a \<Rightarrow> 'a \<Rightarrow> bool" where
  "inside_triangle alpha beta gamma = (alpha > 0 \<and> beta > 0 \<and> gamma > 0)"

text \<open>
  The screen position of one vertex (the body of the first loop of \<open>rasterize\<close>). The
  literal \<open>0.5\<close> is a \<open>double\<close>, so the two products are products of doubles, and the
  assignment converts them to \<open>float\<close>.
\<close>

definition screen_position ::
  "('a::{one,plus,uminus,inverse}, 'd::times) conversions \<Rightarrow> 'a Pipeline \<Rightarrow> 'a Vector4f \<Rightarrow>
   'a Vector3f" where
  "screen_position cv pl h =
     Vector3f
       (double_to_float cv
          (double_half cv * int_to_double cv (width pl - 1) * float_to_double cv (vx h / vw h + 1)))
       (double_to_float cv
          (double_half cv * int_to_double cv (height pl - 1) * float_to_double cv (vy h / vw h + 1)))
       (- vw h)"

text \<open>
  The bounding box, as \<open>(x_max, x_min, y_max, y_min)\<close>: one step of the second loop of
  \<open>rasterize\<close>, with its four conversions in the order of the code.
\<close>

definition bounding_step ::
  "('a, 'd) conversions \<Rightarrow> 'a Vector3f \<Rightarrow> int \<times> int \<times> int \<times> int \<Rightarrow>
   fault + int \<times> int \<times> int \<times> int" where
  "bounding_step cv pos box =
     (case box of (x_max, x_min, y_max, y_min) \<Rightarrow>
      let x = tx pos; y = ty pos in
      bindF (float_to_int cv (std_ceil cv x)) (\<lambda>cx.
      bindF (float_to_int cv x) (\<lambda>ix.
      bindF (float_to_int cv (std_ceil cv y)) (\<lambda>cy.
      bindF (float_to_int cv y) (\<lambda>iy.
      Inr (max x_max cx, min x_min ix, max y_max cy, min y_min iy))))))"

definition clamp_color :: "('a::{zero,ord}, 'd) conversions \<Rightarrow> 'a Vector3f \<Rightarrow> 'a Vector3f" where
  "clamp_color cv color =
     Vector3f (std_max 0 (std_min (float_255 cv) (tx color)))
              (std_max 0 (std_min (float_255 cv) (ty color)))
              (std_max 0 (std_min (float_255 cv) (tz color)))"

text \<open>
  The body of the two nested loops of \<open>rasterize\<close>, for the pixel \<open>(x, y)\<close>. The sum
  \<open>x + 0.5\<close> is a sum of doubles, converted to \<open>float\<close> by the cast.
\<close>

definition rasterize_pixel ::
  "('a::{zero,one,plus,minus,uminus,times,inverse,ord}, 'd::plus) conversions \<Rightarrow>
   ('a, 'u) fragment_shader \<Rightarrow> 'a Payload \<Rightarrow> ('a, 'u) Shader \<Rightarrow> 'a Vector3f arr \<Rightarrow> int \<Rightarrow> int \<Rightarrow>
   'a Pipeline \<Rightarrow> fault + 'a Pipeline" where
  "rasterize_pixel cv FS payload shader screen_pos y x pl =
     (case computeBarycentricCoords2D
             (double_to_float cv (int_to_double cv x + double_half cv))
             (double_to_float cv (int_to_double cv y + double_half cv))
             screen_pos of
        (alpha, beta, gamma) \<Rightarrow>
          if inside_triangle alpha beta gamma then
            let index = y * width pl + x;
                corrector = 1 / (alpha / vw (homo_coords payload 0)
                                 + beta / vw (homo_coords payload 1)
                                 + gamma / vw (homo_coords payload 2));
                z = - corrector
            in bindF (load (zbuffer pl) index) (\<lambda>stored.
               if stored > z then
                 bindF (store (zbuffer pl) index z) (\<lambda>zb.
                 setColor cv x y (clamp_color cv (FS shader alpha beta gamma corrector))
                   (pl\<lparr>zbuffer := zb\<rparr>))
               else Inr pl)
          else Inr pl)"

text \<open>
  \<open>rasterize\<close>. The loops over \<open>y\<close> and \<open>x\<close> run over the closed integer ranges of the
  bounding box. A counter that reaches \<open>INT_MAX\<close> overflows in its increment.
\<close>

definition rasterize ::
  "('a::{zero,one,plus,minus,uminus,times,inverse,ord}, 'd::{plus,times}) conversions \<Rightarrow>
   ('a, 'u) fragment_shader \<Rightarrow> 'a Payload \<Rightarrow> ('a, 'u) Shader \<Rightarrow> 'a Pipeline \<Rightarrow>
   fault + 'a Pipeline" where
  "rasterize cv FS payload shader pl =
     (let screen_pos = (\<lambda>i. screen_position cv pl (homo_coords payload i)) in
      bindF (foldF (bounding_step cv) (map screen_pos [0, 1, 2]) (0, width pl, 0, height pl))
        (\<lambda>(x_max, x_min, y_max, y_min).
           if y_min \<le> y_max \<and> (y_max = INT_MAX \<or> x_max = INT_MAX) then Inl Overflow
           else foldF (\<lambda>y. foldF (rasterize_pixel cv FS payload shader screen_pos y) [x_min..x_max])
                  [y_min..y_max] pl))"

subsection \<open>The driver\<close>

definition prepareVertex ::
  "nat list \<Rightarrow> 'a Payload \<Rightarrow> ('a, 'u) Shader \<Rightarrow> 'a Payload \<times> ('a, 'u) Shader" where
  "prepareVertex tri_index payload shader =
     fold (\<lambda>i (payload, shader).
        let shader = shader\<lparr>
              shader_homo_coords := (shader_homo_coords shader)
                 (i := clipped_coords_b payload (tri_index ! i)),
              shader_world_coords := (shader_world_coords shader)
                 (i := clipped_world_coords_b payload (tri_index ! i)),
              shader_normals := (shader_normals shader)
                 (i := clipped_normals_b payload (tri_index ! i)),
              shader_uvs := (shader_uvs shader)
                 (i := clipped_uvs_b payload (tri_index ! i))\<rparr>
        in (payload\<lparr>homo_coords := (homo_coords payload)(i := shader_homo_coords shader i)\<rparr>,
            shader))
       [0, 1, 2] (payload, shader)"

text \<open>
  The index triples \<open>{0, j, j + 1}\<close> of the loop \<open>for (int j = 1; j < vertex_num - 1; j++)\<close>,
  in the order of the calls; the comparison is the one of the code, on \<open>int\<close>.
\<close>

function fan_from :: "nat \<Rightarrow> nat \<Rightarrow> nat list list" where
  "fan_from j vertex_num =
     (if int j < int vertex_num - 1 then [0, j, j + 1] # fan_from (j + 1) vertex_num else [])"
  by pat_completeness auto
termination
  by (relation "measure (\<lambda>(j, vertex_num). vertex_num - j)") auto

declare fan_from.simps [simp del]

text \<open>The body of the inner loop over \<open>j = 0, 1, 2\<close> that fills side a of the payload.\<close>

definition fill_vertex ::
  "('a, 'u) vertex_shader \<Rightarrow> 'a Model \<Rightarrow> ('a, 'u) Shader \<Rightarrow> FaceVertex arr \<Rightarrow> nat \<Rightarrow>
   'a Payload \<Rightarrow> fault + 'a Payload" where
  "fill_vertex VS model shader face_vertex j payload =
     bindF (load (vertices model) (vertex_index (face_vertex j))) (\<lambda>v.
     bindF (load (normals model) (normal_index (face_vertex j))) (\<lambda>n.
     bindF (load (uv_coords model) (uv_index (face_vertex j))) (\<lambda>u.
     Inr (payload\<lparr>
       clipped_coords_a := (clipped_coords_a payload)(j := VS shader v),
       clipped_world_coords_a := (clipped_world_coords_a payload)(j := v),
       clipped_normals_a := (clipped_normals_a payload)(j := n),
       clipped_uvs_a := (clipped_uvs_a payload)(j := u)\<rparr>))))"

text \<open>
  The body of the loop of \<open>renderingTriangles\<close> for the face \<open>i\<close>. The state is the shader
  (a by-value parameter that \<open>prepareVertex\<close> writes), the local payload and the pipeline.
\<close>

type_synonym ('a, 'u) render_state = "('a, 'u) Shader \<times> 'a Payload \<times> 'a Pipeline"

definition render_sub_triangle ::
  "('a::{zero,one,plus,minus,uminus,times,inverse,ord}, 'd::{plus,times}) conversions \<Rightarrow>
   ('a, 'u) fragment_shader \<Rightarrow> nat list \<Rightarrow> ('a, 'u) render_state \<Rightarrow>
   fault + ('a, 'u) render_state" where
  "render_sub_triangle cv FS tri_index st =
     (case st of (shader, payload, pl) \<Rightarrow>
        case prepareVertex tri_index payload shader of (payload, shader) \<Rightarrow>
          bindF (rasterize cv FS payload shader pl) (\<lambda>pl. Inr (shader, payload, pl)))"

definition render_face ::
  "('a::{zero,one,plus,minus,uminus,times,inverse,ord}, 'd::{plus,times}) conversions \<Rightarrow> 'a \<Rightarrow>
   ('a, 'u) vertex_shader \<Rightarrow> ('a, 'u) fragment_shader \<Rightarrow> 'a Model \<Rightarrow> int \<Rightarrow>
   ('a, 'u) render_state \<Rightarrow> fault + ('a, 'u) render_state" where
  "render_face cv eps VS FS model i st =
     (case st of (shader, payload, pl) \<Rightarrow>
        bindF (load (faces model) i) (\<lambda>face.
        bindF (foldF (fill_vertex VS model shader (vertex face)) [0, 1, 2] payload) (\<lambda>payload.
          case homogeneous_clip eps payload of (vertex_num, payload) \<Rightarrow>
            foldF (render_sub_triangle cv FS) (fan_from 1 vertex_num) (shader, payload, pl))))"

text \<open>
  The loop \<open>for (int i = begin; i < end; i += interval)\<close>. It need not terminate, so it is
  a partial function: \<open>None\<close> is a run that never returns, \<open>Some (Inl e)\<close> a run that meets
  undefined behaviour, \<open>Some (Inr st)\<close> a run that returns.
\<close>

partial_function (option) faces_loop ::
  "('a::{zero,one,plus,minus,uminus,times,inverse,ord}, 'd::{plus,times}) conversions \<Rightarrow> 'a \<Rightarrow>
   ('a, 'u) vertex_shader \<Rightarrow> ('a, 'u) fragment_shader \<Rightarrow> 'a Model \<Rightarrow> int \<Rightarrow> int \<Rightarrow>
   int \<Rightarrow> ('a, 'u) render_state \<Rightarrow> (fault + ('a, 'u) render_state) option" where
  "faces_loop cv eps VS FS model end interval i st =
     (if i < end then
        (case render_face cv eps VS FS model i st of
           Inl e \<Rightarrow> Some (Inl e)
         | Inr st \<Rightarrow>
             if i + interval > INT_MAX \<or> i + interval < - INT_MAX - 1 then Some (Inl Overflow)
             else faces_loop cv eps VS FS model end interval (i + interval) st)
      else Some (Inr st))"

declare faces_loop.simps [code]

definition renderingTriangles ::
  "('a::{zero,one,plus,minus,uminus,times,inverse,ord}, 'd::{plus,times}) conversions \<Rightarrow> 'a \<Rightarrow>
   ('a, 'u) vertex_shader \<Rightarrow> ('a, 'u) fragment_shader \<Rightarrow> int \<Rightarrow> int \<Rightarrow> int \<Rightarrow> 'a Model \<Rightarrow>
   ('a, 'u) Shader \<Rightarrow> 'a Payload \<Rightarrow> 'a Pipeline \<Rightarrow> (fault + 'a Pipeline) option" where
  "renderingTriangles cv eps VS FS begin end interval model shader payload pl =
     map_option (map_sum id (\<lambda>(shader, payload, pl). pl))
       (faces_loop cv eps VS FS model end interval begin (shader, payload, pl))"

definition renderingModel ::
  "('a::{zero,one,plus,minus,uminus,times,inverse,ord}, 'd::{plus,times}) conversions \<Rightarrow> 'a \<Rightarrow>
   ('a, 'u) vertex_shader \<Rightarrow> ('a, 'u) fragment_shader \<Rightarrow> 'a Model \<Rightarrow> ('a, 'u) Shader \<Rightarrow>
   'a Payload \<Rightarrow> 'a Pipeline \<Rightarrow> (fault + 'a Pipeline) option" where
  "renderingModel cv eps VS FS model shader payload pl =
     (let face_num = int (length (faces model))
      in renderingTriangles cv eps VS FS 0 face_num 1 model shader payload pl)"

subsection \<open>Concrete inputs\<close>

text \<open>A pipeline of two by two pixels with an empty depth buffer.\<close>

definition W_pipeline :: "float Pipeline" where
  "W_pipeline = \<lparr>width = 2, height = 2, zbuffer = replicate 4 PInf,
                  framebuffer = replicate 16 7\<rparr>"

text \<open>
  The fan of the specification, in its words: the sub-triangles \<open>(0, j, j + 1)\<close> for
  \<open>j \<in> [1, n - 1]\<close>.
\<close>

definition spec_fan :: "nat \<Rightarrow> nat list list" where
  "spec_fan n = map (\<lambda>j. [0, j, j + 1]) [1..<Suc (n - 1)]"

text \<open>The values of a 32-bit \<open>int\<close>.\<close>

definition is_int :: "int \<Rightarrow> bool" where
  "is_int i = (- INT_MAX - 1 \<le> i \<and> i \<le> INT_MAX)"

text \<open>
  Face \<open>i\<close> can be rendered again and again without a fault: from every state that
  satisfies \<open>I\<close> the body of the loop returns a state that satisfies \<open>I\<close>.
\<close>

definition keeps_rendering ::
  "('a::{zero,one,plus,minus,uminus,times,inverse,ord}, 'd::{plus,times}) conversions \<Rightarrow> 'a \<Rightarrow>
   ('a, 'u) vertex_shader \<Rightarrow> ('a, 'u) fragment_shader \<Rightarrow> 'a Model \<Rightarrow> int \<Rightarrow>
   (('a, 'u) render_state \<Rightarrow> bool) \<Rightarrow> bool" where
  "keeps_rendering cv eps VS FS model i I =
     (\<forall>st. I st \<longrightarrow> (\<exists>st'. render_face cv eps VS FS model i st = Inr st' \<and> I st'))"

text \<open>A model with one face, the triangle of scenario S1, and trivial shaders.\<close>

definition W_face :: Face where
  "W_face = \<lparr>vertex = (\<lambda>j. \<lparr>vertex_index = int j, uv_index = 0, normal_index = 0\<rparr>)\<rparr>"

definition W_model :: "float Model" where
  "W_model = \<lparr>vertices = [S1_v0, S1_v1, S1_v2], normals = [Vector3f (Fin 0) (Fin 0) (Fin 1)],
               uv_coords = [Vector2f (Fin 0) (Fin 0)], faces = [W_face]\<rparr>"

definition W_shader :: "(float, unit) Shader" where
  "W_shader = \<lparr>shader_homo_coords = (\<lambda>i. S1_v0), shader_world_coords = (\<lambda>i. S1_v0),
               shader_normals = (\<lambda>i. Vector3f (Fin 0) (Fin 0) (Fin 1)),
               shader_uvs = (\<lambda>i. Vector2f (Fin 0) (Fin 0)), uniforms = ()\<rparr>"

definition W_VS :: "(float, unit) vertex_shader" where
  "W_VS shader v = v"

definition W_FS :: "(float, unit) fragment_shader" where
  "W_FS shader alpha beta gamma corrector = Vector3f (Fin 300) (Fin (- 5)) (Fin (257 / 2))"

definition W_payload :: "float Payload" where
  "W_payload = N1_payload"

text \<open>
  A triangle inside the view volume, on a pipeline of two by two pixels. In real numbers
  its screen positions are \<open>(1/6, 0)\<close>, \<open>(5/6, 1)\<close> and \<open>(1/2, 1)\<close>, and the centre
  \<open>(1/2, 1/2)\<close> of the pixel \<open>(0, 0)\<close> is the midpoint of its first edge. It is given in
  binary32 (\<open>V\<close>) and in the exact arithmetic (\<open>E\<close>); the fragment shader returns a colour
  with channels on both sides of \<open>[0, 255]\<close>.
\<close>

definition V_v0 :: "binary32 Vector4f" where
  "V_v0 = Vector4f (B32 2 0) (B32 3 0) (B32 0 0) (B32 (- 3) 0)"

definition V_v1 :: "binary32 Vector4f" where
  "V_v1 = Vector4f (B32 (- 2) 0) (B32 (- 3) 0) (B32 0 0) (B32 (- 3) 0)"

definition V_v2 :: "binary32 Vector4f" where
  "V_v2 = Vector4f (B32 0 0) (B32 (- 7) 0) (B32 0 0) (B32 (- 7) 0)"

definition V_payload :: "binary32 Payload" where
  "V_payload = triangle_payload V_v0 V_v1 V_v2
                 (Vector3f (B32 0 0) (B32 0 0) (B32 1 0)) (Vector2f (B32 0 0) (B32 0 0))"

definition V_pipeline :: "binary32 Pipeline" where
  "V_pipeline = \<lparr>width = 2, height = 2, zbuffer = replicate 4 B32_PInf,
                  framebuffer = replicate 16 7\<rparr>"

definition V_shader :: "(binary32, unit) Shader" where
  "V_shader = \<lparr>shader_homo_coords = (\<lambda>i. V_v0), shader_world_coords = (\<lambda>i. V_v0),
               shader_normals = (\<lambda>i. Vector3f (B32 0 0) (B32 0 0) (B32 1 0)),
               shader_uvs = (\<lambda>i. Vector2f (B32 0 0) (B32 0 0)), uniforms = ()\<rparr>"

definition V_FS :: "(binary32, unit) fragment_shader" where
  "V_FS shader alpha beta gamma corrector = Vector3f (B32 300 0) (B32 (- 5) 0) (B32 257 (- 1))"

definition V_screen_pos :: "binary32 Vector3f arr" where
  "V_screen_pos i = screen_position binary32_conversions V_pipeline (homo_coords V_payload i)"

definition E_v0 :: "float Vector4f" where
  "E_v0 = Vector4f (Fin 2) (Fin 3) (Fin 0) (Fin (- 3))"

definition E_v1 :: "float Vector4f" where
  "E_v1 = Vector4f (Fin (- 2)) (Fin (- 3)) (Fin 0) (Fin (- 3))"

definition E_v2 :: "float Vector4f" where
  "E_v2 = Vector4f (Fin 0) (Fin (- 7)) (Fin 0) (Fin (- 7))"

definition E_payload :: "float Payload" where
  "E_payload = triangle_payload E_v0 E_v1 E_v2
                 (Vector3f (Fin 0) (Fin 0) (Fin 1)) (Vector2f (Fin 0) (Fin 0))"

definition E_screen_pos :: "float Vector3f arr" where
  "E_screen_pos i = screen_position exact_conversions W_pipeline (homo_coords E_payload i)"

subsection \<open>The fragment rule of the specification\<close>

text \<open>
  The weights and the corrector in the words of the specification (section 4.3). The
  sample point is the pixel centre \<open>(x + 0.5, y + 0.5)\<close>; \<open>alpha\<close> is the quotient that the
  specification writes out, \<open>beta\<close> is the same quotient with the indices rotated, and
  \<open>gamma = 1 - alpha - beta\<close>; \<open>corrector = 1 / (alpha / w0 + beta / w1 + gamma / w2)\<close>.
\<close>

definition pixel_center :: "('a, 'd::plus) conversions \<Rightarrow> int \<Rightarrow> 'a" where
  "pixel_center cv x = double_to_float cv (int_to_double cv x + double_half cv)"

definition spec_alpha ::
  "'a::{plus,minus,times,inverse} \<Rightarrow> 'a \<Rightarrow> 'a \<Rightarrow> 'a \<Rightarrow> 'a \<Rightarrow> 'a \<Rightarrow> 'a \<Rightarrow> 'a \<Rightarrow> 'a" where
  "spec_alpha x y x0 y0 x1 y1 x2 y2 =
     (x * (y1 - y2) + (x2 - x1) * y + x1 * y2 - x2 * y1) /
     (x0 * (y1 - y2) + (x2 - x1) * y0 + x1 * y2 - x2 * y1)"

definition spec_weights ::
  "('a::{one,plus,minus,times,inverse}, 'd::plus) conversions \<Rightarrow> 'a Vector3f arr \<Rightarrow> int \<Rightarrow> int \<Rightarrow>
   'a \<times> 'a \<times> 'a" where
  "spec_weights cv screen_pos x y =
     (let x0 = tx (screen_pos 0); y0 = ty (screen_pos 0);
          x1 = tx (screen_pos 1); y1 = ty (screen_pos 1);
          x2 = tx (screen_pos 2); y2 = ty (screen_pos 2);
          alpha = spec_alpha (pixel_center cv x) (pixel_center cv y) x0 y0 x1 y1 x2 y2;
          beta = spec_alpha (pixel_center cv x) (pixel_center cv y) x1 y1 x2 y2 x0 y0
      in (alpha, beta, 1 - alpha - beta))"

definition spec_corrector ::
  "'a::{one,plus,inverse} Payload \<Rightarrow> 'a \<Rightarrow> 'a \<Rightarrow> 'a \<Rightarrow> 'a" where
  "spec_corrector payload alpha beta gamma =
     1 / (alpha / vw (homo_coords payload 0) + beta / vw (homo_coords payload 1)
          + gamma / vw (homo_coords payload 2))"

text \<open>A channel, and a colour, within \<open>[0, 255]\<close>.\<close>

definition channel_in_range :: "('a::{zero,ord}, 'd) conversions \<Rightarrow> 'a \<Rightarrow> bool" where
  "channel_in_range cv c = (0 \<le> c \<and> c \<le> float_255 cv)"

definition color_in_range :: "('a::{zero,ord}, 'd) conversions \<Rightarrow> 'a Vector3f \<Rightarrow> bool" where
  "color_in_range cv color =
     (channel_in_range cv (tx color) \<and> channel_in_range cv (ty color) \<and>
      channel_in_range cv (tz color))"

text \<open>
  The pixels of a bounding box \<open>(x_max, x_min, y_max, y_min)\<close> in the order of the
  traversal: row by row, and from left to right in a row.
\<close>

definition box_pixels :: "int \<times> int \<times> int \<times> int \<Rightarrow> (int \<times> int) list" where
  "box_pixels box =
     (case box of (x_max, x_min, y_max, y_min) \<Rightarrow>
        concat (map (\<lambda>y. map (\<lambda>x. (x, y)) [x_min..x_max]) [y_min..y_max]))"

section \<open>PNG decoder: reversing the row filters (png_image.cc)\<close>

text \<open>
  \<open>readPNG\<close>, from the point where \<open>uncompress\<close> has returned \<open>Z_OK\<close>: \<open>filtered_data\<close>
  holds \<open>data_height\<close> scanlines of one filter byte and \<open>data_width\<close> data bytes, and the
  loop over the scanlines fills \<open>data_\<close>. Reading the file, the checksums and the
  decompression by zlib are not modelled. \<open>None\<close> is the jump to \<open>failed\<close>. The buffers
  have the sizes that the code allocates, so every index below is in range; the counters
  are \<open>uint32_t\<close> in the code and natural numbers here.
\<close>

text \<open>\<open>memcpy(data_ + data_begin, filtered_data + filter_begin + 1, data_width)\<close>.\<close>

definition copy_row :: "byte list \<Rightarrow> nat \<Rightarrow> byte list \<Rightarrow> nat \<Rightarrow> nat \<Rightarrow> byte list" where
  "copy_row data dst filtered_data src n =
     fold (\<lambda>j d. d[dst + j := filtered_data ! (src + j)]) [0..<n] data"

text \<open>The bodies of the four inner loops, for the index \<open>k\<close>.\<close>

definition sub_step :: "nat \<Rightarrow> nat \<Rightarrow> byte list \<Rightarrow> byte list" where
  "sub_step bpp k data = data[k := data ! k + data ! (k - bpp)]"

definition up_step :: "nat \<Rightarrow> nat \<Rightarrow> byte list \<Rightarrow> byte list" where
  "up_step data_width k data = data[k := data ! k + data ! (k - data_width)]"

definition average_step :: "nat \<Rightarrow> nat \<Rightarrow> nat \<Rightarrow> byte list \<Rightarrow> byte list" where
  "average_step bpp data_width k data =
     data[k := data ! k +
            word_of_int ((uint (data ! (k - bpp)) + uint (data ! (k - data_width))) div 2)]"

definition paeth_step :: "nat \<Rightarrow> nat \<Rightarrow> nat \<Rightarrow> byte list \<Rightarrow> byte list" where
  "paeth_step bpp data_width k data =
     (let v = \<bar>uint (data ! (k - bpp)) - uint (data ! (k - data_width - bpp))\<bar>;
          h = \<bar>uint (data ! (k - data_width)) - uint (data ! (k - data_width - bpp))\<bar>
      in data[k := data ! k + (if v < h then data ! (k - data_width) else data ! (k - bpp))])"

text \<open>One iteration of the loop over the scanlines.\<close>

definition unfilter_row :: "nat \<Rightarrow> nat \<Rightarrow> byte list \<Rightarrow> nat \<Rightarrow> byte list \<Rightarrow> byte list option" where
  "unfilter_row bpp data_width filtered_data i data =
     (let data_begin = i * data_width;
          filter_begin = i * (data_width + 1);
          data = copy_row data data_begin filtered_data (filter_begin + 1) data_width;
          filter_type = filtered_data ! filter_begin
      in if filter_type = 0 then Some data
         else if filter_type = 1 then
           Some (fold (sub_step bpp) [data_begin + bpp..<data_begin + data_width] data)
         else if filter_type = 2 then
           (if i = 0 then None
            else Some (fold (up_step data_width) [data_begin..<data_begin + data_width] data))
         else if filter_type = 3 then
           (if i = 0 then None
            else Some (fold (average_step bpp data_width)
                         [data_begin + bpp..<data_begin + data_width] data))
         else if filter_type = 4 then
           (if i = 0 then None
            else Some (fold (paeth_step bpp data_width)
                         [data_begin + bpp..<data_begin + data_width] data))
         else None)"

fun unfilter_rows ::
  "(nat \<Rightarrow> byte list \<Rightarrow> byte list option) \<Rightarrow> nat list \<Rightarrow> byte list \<Rightarrow> byte list option" where
  "unfilter_rows f [] data = Some data"
| "unfilter_rows f (i # rows) data =
     (case f i data of None \<Rightarrow> None | Some data \<Rightarrow> unfilter_rows f rows data)"

text \<open>
  The loop, for an image of \<open>width\<close> by \<open>height\<close> pixels of \<open>bpp\<close> bytes. The buffer \<open>data_\<close>
  is allocated without an initial value; every byte is written before it is read, and
  the model starts from zeros.
\<close>

definition readPNG_unfilter :: "nat \<Rightarrow> nat \<Rightarrow> nat \<Rightarrow> byte list \<Rightarrow> byte list option" where
  "readPNG_unfilter bpp image_width image_height filtered_data =
     (let data_width = image_width * bpp; data_height = image_height
      in unfilter_rows (unfilter_row bpp data_width filtered_data) [0..<data_height]
           (replicate (data_width * data_height) 0))"

subsection \<open>The filters of the PNG specification\<close>

text \<open>
  The definitions that the claim refers to, from the PNG specification (filter
  algorithms): a byte is reconstructed as the filtered byte plus a prediction from the
  reconstructed bytes \<open>a\<close> (\<open>bpp\<close> bytes to the left), \<open>b\<close> (above) and \<open>c\<close> (above, to the
  left), each of which is 0 where the image has no such byte.
\<close>

definition PaethPredictor :: "int \<Rightarrow> int \<Rightarrow> int \<Rightarrow> int" where
  "PaethPredictor a b c =
     (let p = a + b - c; pa = \<bar>p - a\<bar>; pb = \<bar>p - b\<bar>; pc = \<bar>p - c\<bar>
      in if pa \<le> pb \<and> pa \<le> pc then a else if pb \<le> pc then b else c)"

definition png_prediction :: "nat \<Rightarrow> byte \<Rightarrow> byte \<Rightarrow> byte \<Rightarrow> byte option" where
  "png_prediction filter_type a b c =
     (if filter_type = 0 then Some 0
      else if filter_type = 1 then Some a
      else if filter_type = 2 then Some b
      else if filter_type = 3 then Some (word_of_int ((uint a + uint b) div 2))
      else if filter_type = 4 then Some (word_of_int (PaethPredictor (uint a) (uint b) (uint c)))
      else None)"

text \<open>
  One scanline: \<open>prior\<close> is the reconstructed scanline above, \<open>recon\<close> the bytes of this
  scanline reconstructed so far.
\<close>

fun png_recon_line ::
  "nat \<Rightarrow> nat \<Rightarrow> byte list \<Rightarrow> byte list \<Rightarrow> byte list \<Rightarrow> byte list option" where
  "png_recon_line filter_type bpp prior [] recon = Some recon"
| "png_recon_line filter_type bpp prior (f # filt) recon =
     (let x = length recon;
          a = (if bpp \<le> x then recon ! (x - bpp) else 0);
          b = prior ! x;
          c = (if bpp \<le> x then prior ! (x - bpp) else 0)
      in case png_prediction filter_type a b c of
           None \<Rightarrow> None
         | Some pred \<Rightarrow> png_recon_line filter_type bpp prior filt (recon @ [f + pred]))"

fun png_recon_lines ::
  "nat \<Rightarrow> nat \<Rightarrow> byte list \<Rightarrow> nat \<Rightarrow> byte list \<Rightarrow> byte list option" where
  "png_recon_lines bpp data_width prior 0 stream = Some []"
| "png_recon_lines bpp data_width prior (Suc n) stream =
     (case png_recon_line (unat (hd stream)) bpp prior (take data_width (tl stream)) [] of
        None \<Rightarrow> None
      | Some line \<Rightarrow>
          (case png_recon_lines bpp data_width line n (drop (data_width + 1) stream) of
             None \<Rightarrow> None
           | Some rest \<Rightarrow> Some (line @ rest)))"

definition png_defilter :: "nat \<Rightarrow> nat \<Rightarrow> nat \<Rightarrow> byte list \<Rightarrow> byte list option" where
  "png_defilter bpp image_width image_height filtered_data =
     png_recon_lines bpp (image_width * bpp) (replicate (image_width * bpp) 0)
       image_height filtered_data"

subsection \<open>Scanlines on which the code and the specification differ\<close>

definition average_image :: "byte list" where
  "average_image = [0, 10, 20, 30,  3, 1, 2, 3]"

definition paeth_image :: "byte list" where
  "paeth_image = [0, 0, 0, 0, 5, 5, 5, 10, 10, 10,  4, 0, 0, 0, 251, 251, 251, 1, 1, 1]"

definition paeth_first_image :: "byte list" where
  "paeth_first_image = [0, 10, 20, 30,  4, 1, 2, 3]"

text \<open>
  The value of \<open>MINIMAL_VAL\<close> in binary32 (the nearest value to \<open>1e-5\<close>), a triangle of
  small integers that crosses the RIGHT plane, and a thin triangle close to the FAR plane.
\<close>

definition MINIMAL_VAL32 :: binary32 where
  "MINIMAL_VAL32 = B32 10995116 (- 40)"

definition R1_v0 :: "binary32 Vector4f" where
  "R1_v0 = Vector4f (B32 (- 3) 0) (B32 0 0) (B32 0 0) (B32 (- 1) 0)"

definition R1_v1 :: "binary32 Vector4f" where
  "R1_v1 = Vector4f (B32 (- 2) 0) (B32 0 0) (B32 0 0) (B32 (- 1) 0)"

definition R1_v2 :: "binary32 Vector4f" where
  "R1_v2 = Vector4f (B32 0 0) (B32 0 0) (B32 (- 2) 0) (B32 (- 3) 0)"

definition R1_payload :: "binary32 Payload" where
  "R1_payload = triangle_payload R1_v0 R1_v1 R1_v2
                  (Vector3f (B32 0 0) (B32 0 0) (B32 1 0)) (Vector2f (B32 0 0) (B32 0 0))"

definition R2_v0 :: "binary32 Vector4f" where
  "R2_v0 = Vector4f (B32 14002496 (- 36)) (B32 12418176 (- 36)) (B32 11988901 (- 37))
                    (B32 (- 11988900) (- 37))"

definition R2_v1 :: "binary32 Vector4f" where
  "R2_v1 = Vector4f (B32 (- 9952661) (- 36)) (B32 (- 14069365) (- 37)) (B32 (- 10744700) (- 38))
                    (B32 10744701 (- 38))"

definition R2_v2 :: "binary32 Vector4f" where
  "R2_v2 = Vector4f (B32 16253244 (- 27)) (B32 (- 8589582) (- 25)) (B32 16247137 (- 25))
                    (B32 (- 16247136) (- 25))"

definition R2_payload :: "binary32 Payload" where
  "R2_payload = triangle_payload R2_v0 R2_v1 R2_v2
                  (Vector3f (B32 0 0) (B32 0 0) (B32 1 0)) (Vector2f (B32 0 0) (B32 0 0))"

section \<open>Properties of the clipper\<close>

subsection \<open>The binary32 instance on known values\<close>

text \<open>
  Quotients that are not representable, ties, the smallest values and the overflow
  threshold of the format, as decimal references give them: \<open>1 / 3\<close> is
  \<open>11184811 / 2 ^ 25\<close>, \<open>3 / 5\<close> is \<open>10066330 / 2 ^ 24\<close>, \<open>2 ^ 24 + 1\<close> and
  \<open>2 ^ 24 + 3\<close> round to the even neighbour, half of the smallest positive value rounds
  to zero, and the largest finite value plus half a unit in its last place overflows.
\<close>

lemma binary32_known_values:
  "b32_same (B32 1 0 / B32 3 0) (B32 11184811 (- 25))"
  "b32_same (B32 3 0 / B32 5 0) (B32 10066330 (- 24))"
  "b32_same (B32 16777216 0 + B32 1 0) (B32 16777216 0)"
  "b32_same (B32 16777216 0 + B32 3 0) (B32 16777220 0)"
  "b32_same (B32 1 (- 149) / B32 2 0) (B32 0 0)"
  "b32_same (B32 3 (- 149) / B32 2 0) (B32 2 (- 149))"
  "b32_same (B32 16777215 104 + B32 1 102) (B32 16777215 104)"
  "B32 16777215 104 + B32 1 103 = B32_PInf"
  "B32 0 0 / B32 0 0 = B32_NaN"
  by code_simp+

text \<open>The sign of zero, and a product with an exact zero of a large exponent.\<close>

lemma binary32_signed_zero_values:
  "b32_same ((B32 8388608 100 - B32 8388608 100) * B32 8388608 100) (B32 0 0)"
  "- B32 0 0 = B32_MZero"
  "b32_same (B32_MZero + B32 0 0) (B32 0 0)"
  "B32_MZero + B32_MZero = B32_MZero"
  "B32 (- 1) (- 149) * B32 1 (- 1) = B32_MZero"
  "B32 1 0 / B32_MZero = B32_NInf"
  "B32 0 0 / B32 (- 3) 0 = B32_MZero"
  "\<not> B32_MZero < B32 0 0 \<and> B32_MZero \<le> B32 0 0 \<and> B32 0 0 \<le> B32_MZero"
  by code_simp+

lemmas float_ops = zero_float_def one_float_def plus_float_def minus_float_def uminus_float_def
  times_float_def divide_float_def less_float_def less_eq_float_def

subsection \<open>From the arrays to the polygon\<close>

lemma coords_of_clip_edge:
  "coords_of (clip_edge eps pl n ins i st) =
   coords_of st @ sh_edge eps pl (fst ins i) (fst ins ((i + 1) mod n))"
  by (cases ins; cases st) (simp add: clip_edge_def coords_of_def sh_edge_def Let_def)

lemma coords_of_fold:
  "coords_of (fold (clip_edge eps pl n ins) [0..<k] st) = coords_of st @ edges_out eps pl (fst ins) n k"
proof (induction k)
  case 0
  show ?case by (simp add: edges_out_def)
next
  case (Suc k)
  then show ?case by (simp add: coords_of_clip_edge edges_out_def)
qed

lemma length_coords_of: "length (coords_of st) = fst st"
  by (simp add: coords_of_def)

lemma edges_out_cong:
  assumes "map f [0..<n] = xs"
  shows "edges_out eps pl f n n = clip_ring eps pl xs"
proof -
  have len: "length xs = n" using assms by auto
  have nth: "\<And>i. i < n \<Longrightarrow> xs ! i = f i" using assms by auto
  show ?thesis
    unfolding clip_ring_def edges_out_def len
    by (rule arg_cong[where f = concat], rule map_cong) (auto simp: nth)
qed


lemma clipWithPlane_even:
  assumes "plane_value pl mod 2 = 0" and "map (clipped_coords_a payload) [0..<n] = xs"
  shows "fst (clipWithPlane eps pl n payload) = length (clip_ring eps pl xs)"
    and "map (clipped_coords_b (snd (clipWithPlane eps pl n payload)))
           [0..<fst (clipWithPlane eps pl n payload)] = clip_ring eps pl xs"
proof -
  let ?r = "fold (clip_edge eps pl n (side_a payload)) [0..<n] (0, side_b payload)"
  have c: "coords_of ?r = clip_ring eps pl xs"
    using coords_of_fold[of eps pl n "side_a payload" n "(0, side_b payload)"]
          edges_out_cong[OF assms(2), of eps pl]
    by (simp add: coords_of_def side_a_def)
  have f: "fst (clipWithPlane eps pl n payload) = fst ?r"
    using assms(1) by (simp add: clipWithPlane_def Let_def)
  show "fst (clipWithPlane eps pl n payload) = length (clip_ring eps pl xs)"
    using c length_coords_of[of ?r] f by simp
  have "clipped_coords_b (snd (clipWithPlane eps pl n payload)) = fst (snd ?r)"
    using assms(1) by (simp add: clipWithPlane_def Let_def set_side_b_def split: prod.splits)
  then show "map (clipped_coords_b (snd (clipWithPlane eps pl n payload)))
           [0..<fst (clipWithPlane eps pl n payload)] = clip_ring eps pl xs"
    using c f by (simp add: coords_of_def)
qed

lemma clipWithPlane_odd:
  assumes "plane_value pl mod 2 = 1" and "map (clipped_coords_b payload) [0..<n] = xs"
  shows "fst (clipWithPlane eps pl n payload) = length (clip_ring eps pl xs)"
    and "map (clipped_coords_a (snd (clipWithPlane eps pl n payload)))
           [0..<fst (clipWithPlane eps pl n payload)] = clip_ring eps pl xs"
proof -
  let ?r = "fold (clip_edge eps pl n (side_b payload)) [0..<n] (0, side_a payload)"
  have c: "coords_of ?r = clip_ring eps pl xs"
    using coords_of_fold[of eps pl n "side_b payload" n "(0, side_a payload)"]
          edges_out_cong[OF assms(2), of eps pl]
    by (simp add: coords_of_def side_b_def)
  have f: "fst (clipWithPlane eps pl n payload) = fst ?r"
    using assms(1) by (simp add: clipWithPlane_def Let_def)
  show "fst (clipWithPlane eps pl n payload) = length (clip_ring eps pl xs)"
    using c length_coords_of[of ?r] f by simp
  have "clipped_coords_a (snd (clipWithPlane eps pl n payload)) = fst (snd ?r)"
    using assms(1) by (simp add: clipWithPlane_def Let_def set_side_a_def split: prod.splits)
  then show "map (clipped_coords_a (snd (clipWithPlane eps pl n payload)))
           [0..<fst (clipWithPlane eps pl n payload)] = clip_ring eps pl xs"
    using c f by (simp add: coords_of_def)
qed

lemma homogeneous_clip_polygon:
  assumes "map (clipped_coords_a payload) [0..<3] = xs"
  shows "fst (homogeneous_clip eps payload) = length (clip_polygon eps xs)"
    and "map (clipped_coords_b (snd (homogeneous_clip eps payload)))
           [0..<fst (homogeneous_clip eps payload)] = clip_polygon eps xs"
proof -
  obtain n1 p1 where r1: "clipWithPlane eps MINIMAL 3 payload = (n1, p1)" by force
  obtain n2 p2 where r2: "clipWithPlane eps RIGHT n1 p1 = (n2, p2)" by force
  obtain n3 p3 where r3: "clipWithPlane eps LEFT n2 p2 = (n3, p3)" by force
  obtain n4 p4 where r4: "clipWithPlane eps TOP n3 p3 = (n4, p4)" by force
  obtain n5 p5 where r5: "clipWithPlane eps BOTTOM n4 p4 = (n5, p5)" by force
  obtain n6 p6 where r6: "clipWithPlane eps NEAR n5 p5 = (n6, p6)" by force
  obtain n7 p7 where r7: "clipWithPlane eps FAR n6 p6 = (n7, p7)" by force
  have h: "homogeneous_clip eps payload = (n7, p7)"
    by (simp add: homogeneous_clip_def r1 r2 r3 r4 r5 r6 r7)
  let ?x1 = "clip_ring eps MINIMAL xs"
  have s1: "n1 = length ?x1" "map (clipped_coords_b p1) [0..<n1] = ?x1"
    using clipWithPlane_even[OF _ assms, of MINIMAL eps] r1 by simp_all
  let ?x2 = "clip_ring eps RIGHT ?x1"
  have s2: "n2 = length ?x2" "map (clipped_coords_a p2) [0..<n2] = ?x2"
    using clipWithPlane_odd[OF _ s1(2), of RIGHT eps] r2 by simp_all
  let ?x3 = "clip_ring eps LEFT ?x2"
  have s3: "n3 = length ?x3" "map (clipped_coords_b p3) [0..<n3] = ?x3"
    using clipWithPlane_even[OF _ s2(2), of LEFT eps] r3 by simp_all
  let ?x4 = "clip_ring eps TOP ?x3"
  have s4: "n4 = length ?x4" "map (clipped_coords_a p4) [0..<n4] = ?x4"
    using clipWithPlane_odd[OF _ s3(2), of TOP eps] r4 by simp_all
  let ?x5 = "clip_ring eps BOTTOM ?x4"
  have s5: "n5 = length ?x5" "map (clipped_coords_b p5) [0..<n5] = ?x5"
    using clipWithPlane_even[OF _ s4(2), of BOTTOM eps] r5 by simp_all
  let ?x6 = "clip_ring eps NEAR ?x5"
  have s6: "n6 = length ?x6" "map (clipped_coords_a p6) [0..<n6] = ?x6"
    using clipWithPlane_odd[OF _ s5(2), of NEAR eps] r6 by simp_all
  let ?x7 = "clip_ring eps FAR ?x6"
  have s7: "n7 = length ?x7" "map (clipped_coords_b p7) [0..<n7] = ?x7"
    using clipWithPlane_even[OF _ s6(2), of FAR eps] r7 by simp_all
  have e: "clip_polygon eps xs = ?x7" by (simp add: clip_polygon_def)
  show "fst (homogeneous_clip eps payload) = length (clip_polygon eps xs)"
    using h s7(1) e by simp
  show "map (clipped_coords_b (snd (homogeneous_clip eps payload)))
           [0..<fst (homogeneous_clip eps payload)] = clip_polygon eps xs"
    using h s7(2) e by simp
qed


lemma upt_0_3: "[0..<3] = [0, Suc 0, 2]"
  by code_simp

lemma clip_ring_Nil: "clip_ring eps pl [] = []"
  by (simp add: clip_ring_def edges_out_def)

lemma clip_ring_3:
  "clip_ring eps pl [a, b, c] = sh_edge eps pl a b @ sh_edge eps pl b c @ sh_edge eps pl c a"
proof -
  have l: "length [a, b, c] = 3" by simp
  show ?thesis
    unfolding clip_ring_def edges_out_def l upt_0_3 by simp
qed

lemma triangle_payload_coords:
  "map (clipped_coords_a (triangle_payload v0 v1 v2 n u)) [0..<3] = [v0, v1, v2]"
  unfolding upt_0_3 by (simp add: triangle_payload_def Let_def)

subsection \<open>The plane table\<close>

text \<open>
  C2. For each of the seven planes the inside test of the code is the inside test of the
  specification's table, the intersection ratio of the code is the table's numerator
  divided by the table's denominator, and \<open>homogeneous_clip\<close> clips against the planes in
  the order MINIMAL, RIGHT, LEFT, TOP, BOTTOM, NEAR, FAR, starting from three vertices.
  This holds for every scalar arithmetic.
\<close>

theorem plane_table_matches_spec:
  "is_inside_plane eps pl v = spec_inside_test eps pl v \<and>
   get_intersect_ratio eps p c pl = spec_ratio_numerator eps pl p / spec_ratio_denominator pl p c \<and>
   homogeneous_clip eps payload =
     fold (\<lambda>pl (num, payload). clipWithPlane eps pl num payload) spec_plane_order (3, payload)"
proof (intro conjI)
  show "is_inside_plane eps pl v = spec_inside_test eps pl v"
    by (cases pl) (simp_all add: spec_inside_test_def)
  show "get_intersect_ratio eps p c pl =
        spec_ratio_numerator eps pl p / spec_ratio_denominator pl p c"
    by (cases pl) (simp_all add: spec_ratio_numerator_def spec_ratio_denominator_def)
  show "homogeneous_clip eps payload =
     fold (\<lambda>pl (num, payload). clipWithPlane eps pl num payload) spec_plane_order (3, payload)"
    by (simp add: homogeneous_clip_def spec_plane_order_def split: prod.splits)
qed

subsection \<open>Scenario S1\<close>

lemma S1_polygon: "clip_polygon MINIMAL_VAL [S1_v0, S1_v1, S1_v2] = []"
  by (simp add: clip_polygon_def clip_ring_3 clip_ring_Nil sh_edge_def MINIMAL_VAL_def
      S1_v0_def S1_v1_def S1_v2_def float_ops)

lemma N1_polygon: "clip_polygon MINIMAL_VAL [N1_v0, N1_v1, N1_v2] = [N1_v1, N1_v2, N1_v0]"
  by (simp add: clip_polygon_def clip_ring_3 clip_ring_Nil sh_edge_def MINIMAL_VAL_def
      N1_v0_def N1_v1_def N1_v2_def float_ops)

text \<open>
  C3, as stated, fails: the three vertices of scenario S1 have \<open>w = 1\<close>, the MINIMAL plane
  keeps a vertex only if \<open>w \<le> -MINIMAL_VAL\<close>, so the first plane already removes all
  three and the clipper returns 0.
\<close>

theorem S1_clipped_away:
  "fst (homogeneous_clip MINIMAL_VAL S1_payload) = 0 \<and>
   fst (homogeneous_clip MINIMAL_VAL S1_payload) \<noteq> 3"
  using homogeneous_clip_polygon(1)[of S1_payload "[S1_v0, S1_v1, S1_v2]" MINIMAL_VAL]
  by (simp add: S1_payload_def triangle_payload_coords S1_polygon)

text \<open>
  C3, amended: the same triangle with \<open>w = -1\<close> lies inside all seven planes; the clipper
  returns 3 and side b holds the three input vertices, rotated by one position
  (every plane appends the end point of each edge, so each plane rotates the ring by one,
  and seven rotations of a triangle are one).
\<close>

theorem S1_negative_w_unchanged:
  "fst (homogeneous_clip MINIMAL_VAL N1_payload) = 3 \<and>
   map (clipped_coords_b (snd (homogeneous_clip MINIMAL_VAL N1_payload))) [0..<3] =
     [N1_v1, N1_v2, N1_v0]"
proof -
  have c: "map (clipped_coords_a N1_payload) [0..<3] = [N1_v0, N1_v1, N1_v2]"
    by (simp add: N1_payload_def triangle_payload_coords)
  have n: "fst (homogeneous_clip MINIMAL_VAL N1_payload) = 3"
    using homogeneous_clip_polygon(1)[OF c, of MINIMAL_VAL] by (simp add: N1_polygon)
  show ?thesis
    using homogeneous_clip_polygon(2)[OF c, of MINIMAL_VAL] unfolding n
    by (simp add: N1_polygon)
qed

subsection \<open>The intersection ratio\<close>

lemma is_fin_iff: "is_fin a \<longleftrightarrow> a = Fin (re a)"
  by (cases a) simp_all

lemma finite4_D:
  assumes "finite4 v"
  obtains x y z w where "v = Vector4f (Fin x) (Fin y) (Fin z) (Fin w)"
proof -
  from assms have "v = Vector4f (Fin (re (vx v))) (Fin (re (vy v))) (Fin (re (vz v))) (Fin (re (vw v)))"
    by (cases v) (simp add: finite4_def is_fin_iff[symmetric])
  then show thesis by (rule that)
qed

lemma inside_plane_fn:
  assumes "finite4 v"
  shows "is_inside_plane (Fin e) pl v \<longleftrightarrow> plane_fn e pl v \<le> 0"
proof -
  from assms obtain x y z w where v: "v = Vector4f (Fin x) (Fin y) (Fin z) (Fin w)"
    by (rule finite4_D)
  show ?thesis
    by (cases pl) (auto simp: v plane_fn_def float_ops)
qed

lemma numerator_plane_fn:
  assumes "finite4 p"
  shows "spec_ratio_numerator (Fin e) pl p = Fin (plane_fn e pl p)"
proof -
  from assms obtain x y z w where v: "p = Vector4f (Fin x) (Fin y) (Fin z) (Fin w)"
    by (rule finite4_D)
  show ?thesis
    by (cases pl) (simp_all add: v plane_fn_def spec_ratio_numerator_def float_ops)
qed

lemma denominator_plane_fn:
  assumes "finite4 p" "finite4 c"
  shows "spec_ratio_denominator pl p c = Fin (plane_fn e pl p - plane_fn e pl c)"
proof -
  from assms obtain x y z w where v: "p = Vector4f (Fin x) (Fin y) (Fin z) (Fin w)"
    by (auto elim: finite4_D)
  from assms obtain x' y' z' w' where v': "c = Vector4f (Fin x') (Fin y') (Fin z') (Fin w')"
    by (auto elim: finite4_D)
  show ?thesis
    by (cases pl) (simp_all add: v v' plane_fn_def spec_ratio_denominator_def float_ops)
qed

lemma ratio_plane_fn:
  assumes "finite4 p" "finite4 c"
  shows "get_intersect_ratio (Fin e) p c pl =
         float_div (Fin (plane_fn e pl p)) (Fin (plane_fn e pl p - plane_fn e pl c))"
proof -
  have "get_intersect_ratio (Fin e) p c pl =
        spec_ratio_numerator (Fin e) pl p / spec_ratio_denominator pl p c"
    by (cases pl) (simp_all add: spec_ratio_numerator_def spec_ratio_denominator_def)
  then show ?thesis
    using numerator_plane_fn[OF assms(1)] denominator_plane_fn[OF assms]
    by (simp add: divide_float_def)
qed

lemma crossing_ratio:
  fixes a b :: real
  assumes "(a \<le> 0) \<noteq> (b \<le> 0)"
  shows "a - b \<noteq> 0" and "0 \<le> a / (a - b)" and "a / (a - b) \<le> 1"
proof -
  show "a - b \<noteq> 0" using assms by auto
  show "0 \<le> a / (a - b)"
  proof (cases "a \<le> 0")
    case True
    then have "a - b < 0" using assms by auto
    with True show ?thesis by (simp add: divide_nonpos_neg)
  next
    case False
    then have "0 < a - b" using assms by auto
    with False show ?thesis by simp
  qed
  show "a / (a - b) \<le> 1"
  proof (cases "a \<le> 0")
    case True
    then have "a - b < 0" using assms by auto
    with True assms show ?thesis by (simp add: divide_le_eq)
  next
    case False
    then have "0 < a - b" using assms by auto
    with False assms show ?thesis by (simp add: divide_le_eq)
  qed
qed

lemma ratio_in_unit:
  assumes "finite4 p" "finite4 c"
    and "is_inside_plane (Fin e) pl p \<noteq> is_inside_plane (Fin e) pl c"
  shows "get_intersect_ratio (Fin e) p c pl =
           Fin (plane_fn e pl p / (plane_fn e pl p - plane_fn e pl c))"
    and "plane_fn e pl p - plane_fn e pl c \<noteq> 0"
    and "0 \<le> plane_fn e pl p / (plane_fn e pl p - plane_fn e pl c)"
    and "plane_fn e pl p / (plane_fn e pl p - plane_fn e pl c) \<le> 1"
proof -
  have d: "(plane_fn e pl p \<le> 0) \<noteq> (plane_fn e pl c \<le> 0)"
    using assms by (simp add: inside_plane_fn)
  show "plane_fn e pl p - plane_fn e pl c \<noteq> 0" using crossing_ratio(1)[OF d] .
  then show "get_intersect_ratio (Fin e) p c pl =
           Fin (plane_fn e pl p / (plane_fn e pl p - plane_fn e pl c))"
    by (simp add: ratio_plane_fn[OF assms(1,2)])
  show "0 \<le> plane_fn e pl p / (plane_fn e pl p - plane_fn e pl c)"
    using crossing_ratio(2)[OF d] .
  show "plane_fn e pl p / (plane_fn e pl p - plane_fn e pl c) \<le> 1"
    using crossing_ratio(3)[OF d] .
qed

text \<open>
  C8, as stated, fails: \<open>get_intersect_ratio\<close> has no clamp. For a vertex on the RIGHT
  plane taken as both ends of the edge, the numerator and the denominator of the table
  are zero and the ratio is \<open>0 / 0\<close>, which is NaN and not 0.
\<close>

theorem zero_over_zero_is_NaN:
  "spec_ratio_numerator MINIMAL_VAL RIGHT on_plane = Fin 0 \<and>
   spec_ratio_denominator RIGHT on_plane on_plane = Fin 0 \<and>
   get_intersect_ratio MINIMAL_VAL on_plane on_plane RIGHT = NaN \<and>
   get_intersect_ratio MINIMAL_VAL on_plane on_plane RIGHT \<noteq> 0"
  by (simp add: spec_ratio_numerator_def spec_ratio_denominator_def on_plane_def float_ops)

text \<open>
  C8, amended: for finite vertices, if the numerator and the denominator are both zero
  the ratio is NaN (nothing clamps it); and for an edge whose ends differ in the inside
  test, the only edges for which \<open>clipWithPlane\<close> computes a ratio, the denominator is
  not zero and the ratio is a finite value between 0 and 1.
\<close>

theorem intersect_ratio_unclamped:
  assumes "finite4 p" and "finite4 c" and "is_fin eps"
  shows "(spec_ratio_numerator eps pl p = Fin 0 \<and> spec_ratio_denominator pl p c = Fin 0
            \<longrightarrow> get_intersect_ratio eps p c pl = NaN) \<and>
         (is_inside_plane eps pl p \<noteq> is_inside_plane eps pl c
            \<longrightarrow> spec_ratio_denominator pl p c \<noteq> Fin 0 \<and>
                (\<exists>t. get_intersect_ratio eps p c pl = Fin t \<and> 0 \<le> t \<and> t \<le> 1))"
proof -
  from assms(3) obtain e where e: "eps = Fin e" by (cases eps) simp_all
  have r: "get_intersect_ratio eps p c pl =
        spec_ratio_numerator eps pl p / spec_ratio_denominator pl p c"
    by (cases pl) (simp_all add: spec_ratio_numerator_def spec_ratio_denominator_def)
  have 1: "spec_ratio_numerator eps pl p = Fin 0 \<and> spec_ratio_denominator pl p c = Fin 0
            \<longrightarrow> get_intersect_ratio eps p c pl = NaN"
    by (simp add: r divide_float_def)
  have 2: "is_inside_plane eps pl p \<noteq> is_inside_plane eps pl c
            \<longrightarrow> spec_ratio_denominator pl p c \<noteq> Fin 0 \<and>
                (\<exists>t. get_intersect_ratio eps p c pl = Fin t \<and> 0 \<le> t \<and> t \<le> 1)"
    using ratio_in_unit[OF assms(1,2), of e pl] denominator_plane_fn[OF assms(1,2), of pl e]
    by (auto simp: e)
  from 1 2 show ?thesis by blast
qed

theorem intersect_ratio_unclamped_witness:
  "finite4 P_in \<and> finite4 P_out \<and> is_fin MINIMAL_VAL \<and>
   is_inside_plane MINIMAL_VAL RIGHT P_in \<noteq> is_inside_plane MINIMAL_VAL RIGHT P_out \<and>
   spec_ratio_denominator RIGHT P_in P_out \<noteq> Fin 0 \<and>
   (\<exists>t. get_intersect_ratio MINIMAL_VAL P_in P_out RIGHT = Fin t \<and> 0 \<le> t \<and> t \<le> 1)"
proof -
  have h: "finite4 P_in" "finite4 P_out" "is_fin MINIMAL_VAL"
    by (simp_all add: finite4_def P_in_def P_out_def MINIMAL_VAL_def)
  have d: "is_inside_plane MINIMAL_VAL RIGHT P_in \<noteq> is_inside_plane MINIMAL_VAL RIGHT P_out"
    by (simp add: P_in_def P_out_def float_ops)
  show ?thesis
    using h d intersect_ratio_unclamped[OF h, of RIGHT] by blast
qed

subsection \<open>Changes around a ring of booleans\<close>

lemma differ_triangle: "differ a c \<le> differ a b + differ b c"
  by (simp add: differ_def)

lemma differ_le_1: "differ a b \<le> 1"
  by (simp add: differ_def)

lemma chg_append: "chg ((x # xs) @ ys) = chg (x # xs) + chg (last (x # xs) # ys)"
proof (induction xs arbitrary: x)
  case Nil
  show ?case by simp
next
  case (Cons y xs)
  then show ?case by simp
qed

lemma chg_sum: "chg (x # xs) = (\<Sum>i<length xs. differ ((x # xs) ! i) ((x # xs) ! Suc i))"
proof (induction xs arbitrary: x)
  case Nil
  show ?case by simp
next
  case (Cons y xs)
  let ?g = "\<lambda>i. differ ((x # y # xs) ! i) ((x # y # xs) ! Suc i)"
  have "(\<Sum>i<Suc (length xs). ?g i) = ?g 0 + (\<Sum>i<length xs. ?g (Suc i))"
    by (rule sum.lessThan_Suc_shift)
  then have "(\<Sum>i<length (y # xs). ?g i) =
        differ x y + (\<Sum>i<length xs. differ ((y # xs) ! i) ((y # xs) ! Suc i))"
    by simp
  with Cons[of y] show ?case by simp
qed

lemma ring_changes_Cons:
  "ring_changes (x # xs) = chg (x # xs) + differ (last (x # xs)) x"
proof -
  let ?bs = "x # xs"
  let ?n = "length xs"
  have a: "(\<Sum>i<?n. differ (?bs ! i) (?bs ! ((i + 1) mod Suc ?n))) =
           (\<Sum>i<?n. differ (?bs ! i) (?bs ! Suc i))"
    by (rule sum.cong) auto
  have l: "last ?bs = ?bs ! ?n"
    by (metis last_conv_nth length_Cons diff_Suc_1 list.distinct(1))
  have "ring_changes ?bs =
        (\<Sum>i<?n. differ (?bs ! i) (?bs ! ((i + 1) mod Suc ?n))) + differ (?bs ! ?n) (?bs ! 0)"
    by (simp add: ring_changes_def)
  then show ?thesis using a l chg_sum[of x xs] by simp
qed

lemma chg_parity: "even (chg (x # xs) + differ x (last (x # xs)))"
proof (induction xs arbitrary: x)
  case Nil
  show ?case by (simp add: differ_def)
next
  case (Cons y xs)
  from Cons[of y] show ?case by (auto simp: differ_def split: if_splits)
qed

lemma ring_changes_even: "even (ring_changes bs)"
proof (cases bs)
  case Nil
  then show ?thesis by (simp add: ring_changes_def)
next
  case (Cons x xs)
  have "differ (last (x # xs)) x = differ x (last (x # xs))" by (simp add: differ_def)
  then show ?thesis using chg_parity[of x xs] by (simp add: Cons ring_changes_Cons)
qed

lemma chg_zero_all_eq: "chg (x # xs) = 0 \<Longrightarrow> \<forall>b\<in>set xs. b = x"
proof (induction xs arbitrary: x)
  case Nil
  show ?case by simp
next
  case (Cons y xs)
  then show ?case by (auto simp: differ_def split: if_splits)
qed

lemma ring_changes_zero_all_eq:
  assumes "ring_changes bs = 0" "a \<in> set bs" "b \<in> set bs"
  shows "a = b"
proof (cases bs)
  case Nil
  with assms show ?thesis by simp
next
  case (Cons x xs)
  with assms(1) have "chg (x # xs) = 0" by (simp add: ring_changes_Cons)
  from chg_zero_all_eq[OF this] assms(2,3) Cons show ?thesis by auto
qed

lemma ring_changes_ge_2:
  assumes "a \<in> set bs" "b \<in> set bs" "a \<noteq> b"
  shows "2 \<le> ring_changes bs"
proof -
  have "ring_changes bs \<noteq> 0" using ring_changes_zero_all_eq assms by blast
  moreover have "even (ring_changes bs)" by (rule ring_changes_even)
  ultimately show ?thesis by (cases "ring_changes bs"; cases "ring_changes bs - 1") auto
qed

lemma ring_changes_le_virtual:
  "ring_changes bs \<le> chg (s # bs) + differ (last (s # bs)) s"
proof (cases bs)
  case Nil
  then show ?thesis by (simp add: ring_changes_def)
next
  case (Cons x xs)
  have "differ (last (x # xs)) x \<le> differ (last (x # xs)) s + differ s x"
    by (rule differ_triangle)
  then show ?thesis by (simp add: Cons ring_changes_Cons)
qed

subsection \<open>The vertex count after one plane\<close>

lemma length_sh_edge:
  "length (sh_edge eps pl p c) =
   differ (is_inside_plane eps pl p) (is_inside_plane eps pl c) +
   (if is_inside_plane eps pl c then 1 else 0)"
  by (simp add: sh_edge_def differ_def)

lemma length_edges_out:
  "length (edges_out eps pl f n k) =
   (\<Sum>i<k. differ (is_inside_plane eps pl (f i)) (is_inside_plane eps pl (f ((i + 1) mod n)))) +
   (\<Sum>i<k. if is_inside_plane eps pl (f ((i + 1) mod n)) then 1 else 0)"
proof (induction k)
  case 0
  show ?case by (simp add: edges_out_def)
next
  case (Suc k)
  have "edges_out eps pl f n (Suc k) =
        edges_out eps pl f n k @ sh_edge eps pl (f k) (f ((k + 1) mod n))"
    by (simp add: edges_out_def)
  then show ?case using Suc by (simp add: length_sh_edge)
qed

lemma length_clip_ring:
  "length (clip_ring eps pl xs) =
   ring_changes (inside_ring eps pl xs) + inside_count (inside_ring eps pl xs)"
proof -
  let ?n = "length xs"
  have m: "(i + 1) mod ?n < ?n" if "i < ?n" for i
  proof -
    from that have "0 < ?n" by auto
    then show ?thesis by (rule mod_less_divisor)
  qed
  have a: "(\<Sum>i<?n. differ (is_inside_plane eps pl (xs ! i))
                        (is_inside_plane eps pl (xs ! ((i + 1) mod ?n)))) =
           ring_changes (inside_ring eps pl xs)"
    unfolding ring_changes_def inside_ring_def
    by (rule sum.cong) (use m in auto)
  have b: "(\<Sum>i<?n. if is_inside_plane eps pl (xs ! ((i + 1) mod ?n)) then 1 else 0) =
           inside_count (inside_ring eps pl xs)"
    unfolding inside_count_def inside_ring_def
    by (rule sum.cong) (use m in auto)
  show ?thesis
    unfolding clip_ring_def length_edges_out a b ..
qed

lemma inside_count_le: "inside_count bs \<le> length bs"
proof -
  have "inside_count bs \<le> (\<Sum>i<length bs. 1)"
    unfolding inside_count_def by (rule sum_mono) simp
  then show ?thesis by simp
qed

lemma ring_pred:
  assumes "j < n"
  shows "\<exists>i<n. (i + 1) mod n = (j::nat)"
proof (cases j)
  case 0
  have "n - 1 < n \<and> (n - 1 + 1) mod n = j" using assms 0 by simp
  then show ?thesis by (rule_tac x = "n - 1" in exI)
next
  case (Suc k)
  have "k < n \<and> (k + 1) mod n = j" using assms Suc by simp
  then show ?thesis by (rule_tac x = k in exI)
qed

lemma ring_changes_const:
  assumes "\<forall>a\<in>set bs. \<forall>b\<in>set bs. a = b"
  shows "ring_changes bs = 0"
proof -
  have "differ (bs ! i) (bs ! ((i + 1) mod length bs)) = 0" if "i < length bs" for i
  proof -
    from that have "0 < length bs" by auto
    then have "(i + 1) mod length bs < length bs" by (rule mod_less_divisor)
    with that assms show ?thesis by (simp add: differ_def)
  qed
  then show ?thesis by (simp add: ring_changes_def)
qed

lemma inside_count_less:
  assumes "j < length bs" "\<not> bs ! j"
  shows "inside_count bs < length bs"
proof -
  from ring_pred[OF assms(1)] obtain i where i: "i < length bs" "(i + 1) mod length bs = j"
    by blast
  let ?g = "\<lambda>i. if bs ! ((i + 1) mod length bs) then 1 else (0::nat)"
  have "(\<Sum>i<length bs. ?g i) < (\<Sum>i<length bs. 1)"
  proof (rule sum_strict_mono_ex1)
    show "finite {..<length bs}" by simp
    show "\<forall>x\<in>{..<length bs}. ?g x \<le> 1" by simp
    show "\<exists>a\<in>{..<length bs}. ?g a < 1" using i assms(2) by auto
  qed
  then show ?thesis by (simp add: inside_count_def)
qed

lemma inside_count_pos:
  assumes "j < length bs" "bs ! j"
  shows "0 < inside_count bs"
proof -
  from ring_pred[OF assms(1)] obtain i where i: "i < length bs" "(i + 1) mod length bs = j"
    by blast
  let ?g = "\<lambda>i. if bs ! ((i + 1) mod length bs) then 1 else (0::nat)"
  have "?g i \<le> (\<Sum>i<length bs. ?g i)"
    by (rule member_le_sum) (use i in auto)
  then show ?thesis using i assms(2) by (simp add: inside_count_def)
qed

lemma ring_succ_mem: "i < length bs \<Longrightarrow> bs ! ((i + 1) mod length bs) \<in> set bs"
proof -
  assume "i < length bs"
  then have "0 < length bs" by auto
  then have "(i + 1) mod length bs < length bs" by (rule mod_less_divisor)
  then show ?thesis by (rule nth_mem)
qed

lemma inside_count_all:
  assumes "\<forall>b\<in>set bs. b"
  shows "inside_count bs = length bs"
proof -
  have "(if bs ! ((i + 1) mod length bs) then 1 else (0::nat)) = 1" if "i < length bs" for i
  proof -
    have "bs ! ((i + 1) mod length bs)" using ring_succ_mem[OF that] assms by blast
    then show ?thesis by simp
  qed
  then show ?thesis by (simp add: inside_count_def)
qed

lemma inside_count_none:
  assumes "\<forall>b\<in>set bs. \<not> b"
  shows "inside_count bs = 0"
proof -
  have "(if bs ! ((i + 1) mod length bs) then 1 else (0::nat)) = 0" if "i < length bs" for i
  proof -
    have "\<not> bs ! ((i + 1) mod length bs)" using ring_succ_mem[OF that] assms by blast
    then show ?thesis by simp
  qed
  then show ?thesis by (simp add: inside_count_def)
qed

text \<open>The count after one plane: never 1 or 2, for every arithmetic.\<close>

lemma clip_ring_count:
  assumes "length xs = 0 \<or> 3 \<le> length xs"
  shows "length (clip_ring eps pl xs) = 0 \<or> 3 \<le> length (clip_ring eps pl xs)"
proof -
  let ?bs = "inside_ring eps pl xs"
  have len: "length ?bs = length xs" by (simp add: inside_ring_def)
  have "(\<forall>b\<in>set ?bs. b) \<or> (\<forall>b\<in>set ?bs. \<not> b) \<or> (True \<in> set ?bs \<and> False \<in> set ?bs)"
  proof (cases "False \<in> set ?bs")
    case f: False
    have "b" if "b \<in> set ?bs" for b
    proof (rule ccontr)
      assume "\<not> b"
      then have "b = False" by simp
      with that f show False by simp
    qed
    then show ?thesis by blast
  next
    case t: True
    show ?thesis
    proof (cases "True \<in> set ?bs")
      case True
      with t show ?thesis by blast
    next
      case f: False
      have "\<not> b" if "b \<in> set ?bs" for b
      proof
        assume "b"
        then have "b = True" by simp
        with that f show False by simp
      qed
      then show ?thesis by blast
    qed
  qed
  then consider (all) "\<forall>b\<in>set ?bs. b" | (none) "\<forall>b\<in>set ?bs. \<not> b"
    | (mixed) "True \<in> set ?bs" "False \<in> set ?bs"
    by blast
  then show ?thesis
  proof cases
    case all
    then have "ring_changes ?bs = 0"
      by (intro ring_changes_const) auto
    with all show ?thesis using assms len by (simp add: length_clip_ring inside_count_all)
  next
    case none
    then have "ring_changes ?bs = 0"
      by (intro ring_changes_const) auto
    with none show ?thesis by (simp add: length_clip_ring inside_count_none)
  next
    case mixed
    then have "2 \<le> ring_changes ?bs" using ring_changes_ge_2 by blast
    moreover from mixed(1) obtain j where "j < length ?bs" "?bs ! j"
      by (metis in_set_conv_nth)
    then have "0 < inside_count ?bs" by (rule inside_count_pos)
    ultimately show ?thesis by (simp add: length_clip_ring)
  qed
qed

text \<open>The count after one plane: at most one more, when the ring crosses the plane at most twice.\<close>

lemma clip_ring_grows_by_1:
  assumes "ring_changes (inside_ring eps pl xs) \<le> 2"
  shows "length (clip_ring eps pl xs) \<le> length xs + 1"
proof -
  let ?bs = "inside_ring eps pl xs"
  have len: "length ?bs = length xs" by (simp add: inside_ring_def)
  show ?thesis
  proof (cases "\<forall>b\<in>set ?bs. b")
    case True
    then have "ring_changes ?bs = 0"
      by (intro ring_changes_const) auto
    then show ?thesis using inside_count_le[of ?bs] len by (simp add: length_clip_ring)
  next
    case False
    then obtain j where "j < length ?bs" "\<not> ?bs ! j"
      by (metis in_set_conv_nth)
    then have "inside_count ?bs < length ?bs" by (rule inside_count_less)
    then show ?thesis using assms len by (simp add: length_clip_ring)
  qed
qed

subsection \<open>Exact arithmetic: the inserted vertex\<close>

lemma convex_nonpos:
  fixes a b t :: real
  assumes "0 \<le> t" "t \<le> 1" "a \<le> 0" "b \<le> 0"
  shows "a + t * (b - a) \<le> 0"
proof -
  have "a + t * (b - a) = (1 - t) * a + t * b" by (simp add: algebra_simps)
  moreover have "(1 - t) * a \<le> 0" using assms by (simp add: mult_nonneg_nonpos)
  moreover have "t * b \<le> 0" using assms by (simp add: mult_nonneg_nonpos)
  ultimately show ?thesis by simp
qed

lemma convex_pos:
  fixes a b t :: real
  assumes "0 \<le> t" "t \<le> 1" "0 < a" "0 < b"
  shows "0 < a + t * (b - a)"
proof -
  have e: "a + t * (b - a) = (1 - t) * a + t * b" by (simp add: algebra_simps)
  show ?thesis
  proof (cases "t = 0")
    case True
    with assms show ?thesis by simp
  next
    case False
    with assms have "0 < t * b" by simp
    moreover have "0 \<le> (1 - t) * a" using assms by simp
    ultimately show ?thesis using e by simp
  qed
qed

lemma vectorInterpolate4_Fin:
  "vectorInterpolate4 (Vector4f (Fin x) (Fin y) (Fin z) (Fin w))
                      (Vector4f (Fin x') (Fin y') (Fin z') (Fin w')) (Fin t) =
   Vector4f (Fin (x + t * (x' - x))) (Fin (y + t * (y' - y)))
            (Fin (z + t * (z' - z))) (Fin (w + t * (w' - w)))"
  by (simp add: vectorInterpolate4_def lerp_def float_ops)

lemma finite4_lerp:
  assumes "finite4 p" "finite4 c"
  shows "finite4 (vectorInterpolate4 p c (Fin t))"
proof -
  from assms obtain x y z w where p: "p = Vector4f (Fin x) (Fin y) (Fin z) (Fin w)"
    by (auto elim: finite4_D)
  from assms obtain x' y' z' w' where c: "c = Vector4f (Fin x') (Fin y') (Fin z') (Fin w')"
    by (auto elim: finite4_D)
  show ?thesis unfolding p c vectorInterpolate4_Fin by (simp add: finite4_def)
qed

lemma plane_fn_lerp:
  assumes "finite4 p" "finite4 c"
  shows "plane_fn e q (vectorInterpolate4 p c (Fin t)) =
         plane_fn e q p + t * (plane_fn e q c - plane_fn e q p)"
proof -
  from assms obtain x y z w where p: "p = Vector4f (Fin x) (Fin y) (Fin z) (Fin w)"
    by (auto elim: finite4_D)
  from assms obtain x' y' z' w' where c: "c = Vector4f (Fin x') (Fin y') (Fin z') (Fin w')"
    by (auto elim: finite4_D)
  show ?thesis unfolding p c vectorInterpolate4_Fin
    by (cases q) (simp_all add: plane_fn_def algebra_simps)
qed

lemma crossing_props:
  assumes "finite4 p" "finite4 c"
    and "is_inside_plane (Fin e) pl p \<noteq> is_inside_plane (Fin e) pl c"
  shows "finite4 (crossing (Fin e) pl p c)"
    and "is_inside_plane (Fin e) pl (crossing (Fin e) pl p c)"
    and "is_inside_plane (Fin e) q p \<Longrightarrow> is_inside_plane (Fin e) q c \<Longrightarrow>
         is_inside_plane (Fin e) q (crossing (Fin e) pl p c)"
    and "\<not> is_inside_plane (Fin e) q p \<Longrightarrow> \<not> is_inside_plane (Fin e) q c \<Longrightarrow>
         \<not> is_inside_plane (Fin e) q (crossing (Fin e) pl p c)"
proof -
  let ?t = "plane_fn e pl p / (plane_fn e pl p - plane_fn e pl c)"
  note r = ratio_in_unit[OF assms]
  have cr: "crossing (Fin e) pl p c = vectorInterpolate4 p c (Fin ?t)"
    by (simp add: crossing_def r(1))
  show fin: "finite4 (crossing (Fin e) pl p c)"
    unfolding cr by (rule finite4_lerp[OF assms(1,2)])
  have pf: "plane_fn e q' (crossing (Fin e) pl p c) =
            plane_fn e q' p + ?t * (plane_fn e q' c - plane_fn e q' p)" for q'
    unfolding cr by (rule plane_fn_lerp[OF assms(1,2)])
  have "?t * (plane_fn e pl p - plane_fn e pl c) = plane_fn e pl p"
    using r(2) by simp
  moreover have "plane_fn e pl (crossing (Fin e) pl p c) =
        plane_fn e pl p - ?t * (plane_fn e pl p - plane_fn e pl c)"
    unfolding pf by (simp only: algebra_simps)
  ultimately have "plane_fn e pl (crossing (Fin e) pl p c) = 0"
    by simp
  then show "is_inside_plane (Fin e) pl (crossing (Fin e) pl p c)"
    by (simp add: inside_plane_fn[OF fin])
  show "is_inside_plane (Fin e) q (crossing (Fin e) pl p c)"
    if "is_inside_plane (Fin e) q p" "is_inside_plane (Fin e) q c"
    using that convex_nonpos[OF r(3,4), of "plane_fn e q p" "plane_fn e q c"]
    by (simp add: inside_plane_fn[OF fin] inside_plane_fn[OF assms(1)]
        inside_plane_fn[OF assms(2)] pf)
  show "\<not> is_inside_plane (Fin e) q (crossing (Fin e) pl p c)"
    if "\<not> is_inside_plane (Fin e) q p" "\<not> is_inside_plane (Fin e) q c"
    using that convex_pos[OF r(3,4), of "plane_fn e q p" "plane_fn e q c"]
    by (simp add: inside_plane_fn[OF fin] inside_plane_fn[OF assms(1)]
        inside_plane_fn[OF assms(2)] pf)
qed

lemma sh_edge_crossing:
  "sh_edge eps pl p c =
     (if is_inside_plane eps pl p \<noteq> is_inside_plane eps pl c then [crossing eps pl p c] else []) @
     (if is_inside_plane eps pl c then [c] else [])"
  by (simp add: sh_edge_def crossing_def)

lemma sh_edge_finite:
  assumes "finite4 p" "finite4 c" "v \<in> set (sh_edge (Fin e) pl p c)"
  shows "finite4 v"
  using assms crossing_props(1)[OF assms(1,2), of e pl]
  by (auto simp: sh_edge_crossing split: if_splits)

lemma sh_edge_inside_self:
  assumes "finite4 p" "finite4 c" "v \<in> set (sh_edge (Fin e) pl p c)"
  shows "is_inside_plane (Fin e) pl v"
  using assms crossing_props(2)[OF assms(1,2), of e pl]
  by (auto simp: sh_edge_crossing split: if_splits)

lemma sh_edge_inside_other:
  assumes "finite4 p" "finite4 c" "v \<in> set (sh_edge (Fin e) pl p c)"
    and "is_inside_plane (Fin e) q p" "is_inside_plane (Fin e) q c"
  shows "is_inside_plane (Fin e) q v"
  using assms crossing_props(3)[OF assms(1,2), of e pl q]
  by (auto simp: sh_edge_crossing split: if_splits)

text \<open>One edge does not add sign changes with respect to any plane.\<close>

lemma edge_potential_bool:
  assumes "blk = [] \<or> blk = [b] \<or> ((a = b \<longrightarrow> qi = a) \<and> (blk = [qi] \<or> blk = [qi, b]))"
  shows "chg (l # blk) + differ (last (l # blk)) b \<le> differ l a + differ a b"
  using assms by (cases qi; cases l; cases a; cases b) (auto simp: differ_def)

lemma sh_edge_pattern:
  fixes e :: real and q :: Plane
  assumes "finite4 p" "finite4 c"
  defines "Q \<equiv> is_inside_plane (Fin e) q"
  shows "map Q (sh_edge (Fin e) pl p c) = [] \<or> map Q (sh_edge (Fin e) pl p c) = [Q c] \<or>
         ((Q p = Q c \<longrightarrow> Q (crossing (Fin e) pl p c) = Q p) \<and>
          (map Q (sh_edge (Fin e) pl p c) = [Q (crossing (Fin e) pl p c)] \<or>
           map Q (sh_edge (Fin e) pl p c) = [Q (crossing (Fin e) pl p c), Q c]))"
proof (cases "is_inside_plane (Fin e) pl p \<noteq> is_inside_plane (Fin e) pl c")
  case False
  then show ?thesis by (auto simp: sh_edge_crossing)
next
  case True
  have "Q (crossing (Fin e) pl p c) = Q p" if "Q p = Q c"
    using that crossing_props(3,4)[OF assms(1,2) True, of q] unfolding Q_def by blast
  then show ?thesis using True by (auto simp: sh_edge_crossing)
qed

lemma edge_potential:
  fixes e :: real and q :: Plane
  assumes "finite4 p" "finite4 c"
  defines "Q \<equiv> is_inside_plane (Fin e) q"
  shows "chg (l # map Q (sh_edge (Fin e) pl p c)) +
         differ (last (l # map Q (sh_edge (Fin e) pl p c))) (Q c) \<le>
         differ l (Q p) + differ (Q p) (Q c)"
  using sh_edge_pattern[OF assms(1,2), of e q pl] unfolding Q_def
  by (intro edge_potential_bool) blast

subsection \<open>Exact arithmetic: clipping does not add crossings\<close>

lemma last_append_Cons: "last ((x # xs) @ ys) = last (last (x # xs) # ys)"
  by (cases ys) simp_all

lemma potential:
  fixes e :: real and q :: Plane
  assumes fin: "\<forall>i<n. finite4 (f i)" and k: "k \<le> n"
  defines "Q \<equiv> is_inside_plane (Fin e) q"
  shows "chg (Q (f 0) # map Q (edges_out (Fin e) pl f n k)) +
         differ (last (Q (f 0) # map Q (edges_out (Fin e) pl f n k))) (Q (f (k mod n))) \<le>
         (\<Sum>i<k. differ (Q (f i)) (Q (f ((i + 1) mod n))))"
  using k
proof (induction k)
  case 0
  show ?case by (simp add: edges_out_def differ_def)
next
  case (Suc k)
  then have kn: "k < n" and IH:
    "chg (Q (f 0) # map Q (edges_out (Fin e) pl f n k)) +
     differ (last (Q (f 0) # map Q (edges_out (Fin e) pl f n k))) (Q (f (k mod n))) \<le>
     (\<Sum>i<k. differ (Q (f i)) (Q (f ((i + 1) mod n))))"
    by simp_all
  let ?out = "map Q (edges_out (Fin e) pl f n k)"
  let ?c = "f ((k + 1) mod n)"
  let ?blk = "map Q (sh_edge (Fin e) pl (f k) ?c)"
  let ?l = "last (Q (f 0) # ?out)"
  have km: "k mod n = k" using kn by simp
  have cm: "(k + 1) mod n < n" using kn by simp
  have fp: "finite4 (f k)" and fc: "finite4 ?c" using fin kn cm by blast+
  have out': "map Q (edges_out (Fin e) pl f n (Suc k)) = ?out @ ?blk"
    by (simp add: edges_out_def)
  have c1: "chg (Q (f 0) # map Q (edges_out (Fin e) pl f n (Suc k))) =
            chg (Q (f 0) # ?out) + chg (?l # ?blk)"
    unfolding out' using chg_append[of "Q (f 0)" ?out ?blk] by simp
  have l1: "last (Q (f 0) # map Q (edges_out (Fin e) pl f n (Suc k))) = last (?l # ?blk)"
    unfolding out' using last_append_Cons[of "Q (f 0)" ?out ?blk] by simp
  have ep: "chg (?l # ?blk) + differ (last (?l # ?blk)) (Q ?c) \<le>
            differ ?l (Q (f k)) + differ (Q (f k)) (Q ?c)"
    unfolding Q_def by (rule edge_potential[OF fp fc])
  have sm: "Suc k mod n = (k + 1) mod n" by simp
  have "chg (Q (f 0) # map Q (edges_out (Fin e) pl f n (Suc k))) +
        differ (last (Q (f 0) # map Q (edges_out (Fin e) pl f n (Suc k)))) (Q (f (Suc k mod n)))
        = chg (Q (f 0) # ?out) + (chg (?l # ?blk) + differ (last (?l # ?blk)) (Q ?c))"
    unfolding c1 l1 sm by simp
  also have "\<dots> \<le> chg (Q (f 0) # ?out) + (differ ?l (Q (f k)) + differ (Q (f k)) (Q ?c))"
    using ep by simp
  also have "\<dots> \<le> (\<Sum>i<k. differ (Q (f i)) (Q (f ((i + 1) mod n)))) + differ (Q (f k)) (Q ?c)"
    using IH unfolding km by simp
  finally show ?case by simp
qed

lemma ring_changes_index:
  "(\<Sum>i<length xs. differ (is_inside_plane eps q (xs ! i))
                      (is_inside_plane eps q (xs ! ((i + 1) mod length xs)))) =
   ring_changes (inside_ring eps q xs)"
proof -
  have m: "(i + 1) mod length xs < length xs" if "i < length xs" for i
  proof -
    from that have "0 < length xs" by auto
    then show ?thesis by (rule mod_less_divisor)
  qed
  show ?thesis
    unfolding ring_changes_def inside_ring_def
    by (rule sum.cong) (use m in auto)
qed

lemma clip_ring_changes:
  assumes "\<forall>v\<in>set xs. finite4 v"
  shows "ring_changes (inside_ring (Fin e) q (clip_ring (Fin e) pl xs)) \<le>
         ring_changes (inside_ring (Fin e) q xs)"
proof -
  let ?Q = "is_inside_plane (Fin e) q"
  let ?n = "length xs"
  let ?bs = "map ?Q (clip_ring (Fin e) pl xs)"
  have fin: "\<forall>i<?n. finite4 (xs ! i)" using assms by simp
  have "chg (?Q (xs ! 0) # ?bs) + differ (last (?Q (xs ! 0) # ?bs)) (?Q (xs ! (?n mod ?n))) \<le>
        (\<Sum>i<?n. differ (?Q (xs ! i)) (?Q (xs ! ((i + 1) mod ?n))))"
    unfolding clip_ring_def by (rule potential[OF fin]) simp
  then have "chg (?Q (xs ! 0) # ?bs) + differ (last (?Q (xs ! 0) # ?bs)) (?Q (xs ! 0)) \<le>
        ring_changes (inside_ring (Fin e) q xs)"
    unfolding ring_changes_index mod_self .
  moreover have "ring_changes ?bs \<le>
        chg (?Q (xs ! 0) # ?bs) + differ (last (?Q (xs ! 0) # ?bs)) (?Q (xs ! 0))"
    by (rule ring_changes_le_virtual)
  ultimately show ?thesis by (simp add: inside_ring_def)
qed

lemma in_clip_ring:
  assumes "v \<in> set (clip_ring eps pl xs)"
  obtains p c where "p \<in> set xs" "c \<in> set xs" "v \<in> set (sh_edge eps pl p c)"
proof -
  from assms obtain i where i: "i < length xs"
      and v: "v \<in> set (sh_edge eps pl (xs ! i) (xs ! ((i + 1) mod length xs)))"
    by (auto simp: clip_ring_def edges_out_def)
  from i have "0 < length xs" by auto
  then have "(i + 1) mod length xs < length xs" by (rule mod_less_divisor)
  then have c: "xs ! ((i + 1) mod length xs) \<in> set xs" by (rule nth_mem)
  have p: "xs ! i \<in> set xs" using i by (rule nth_mem)
  show thesis by (rule that[OF p c v])
qed

lemma clip_ring_finite:
  assumes "\<forall>v\<in>set xs. finite4 v" "v \<in> set (clip_ring (Fin e) pl xs)"
  shows "finite4 v"
proof -
  from assms(2) obtain p c where "p \<in> set xs" "c \<in> set xs" "v \<in> set (sh_edge (Fin e) pl p c)"
    by (rule in_clip_ring)
  with assms(1) show ?thesis using sh_edge_finite by blast
qed

lemma clip_ring_inside_self:
  assumes "\<forall>v\<in>set xs. finite4 v" "v \<in> set (clip_ring (Fin e) pl xs)"
  shows "is_inside_plane (Fin e) pl v"
proof -
  from assms(2) obtain p c where "p \<in> set xs" "c \<in> set xs" "v \<in> set (sh_edge (Fin e) pl p c)"
    by (rule in_clip_ring)
  with assms(1) show ?thesis using sh_edge_inside_self by blast
qed

lemma clip_ring_inside_other:
  assumes "\<forall>v\<in>set xs. finite4 v" "\<forall>v\<in>set xs. is_inside_plane (Fin e) q v"
    and "v \<in> set (clip_ring (Fin e) pl xs)"
  shows "is_inside_plane (Fin e) q v"
proof -
  from assms(3) obtain p c where "p \<in> set xs" "c \<in> set xs" "v \<in> set (sh_edge (Fin e) pl p c)"
    by (rule in_clip_ring)
  with assms(1,2) show ?thesis using sh_edge_inside_other by blast
qed

lemma convex_ring_step:
  assumes "convex_ring e xs"
  shows "convex_ring e (clip_ring (Fin e) pl xs)"
    and "length (clip_ring (Fin e) pl xs) \<le> length xs + 1"
proof -
  from assms have fin: "\<forall>v\<in>set xs. finite4 v"
    and ch: "\<And>q. ring_changes (inside_ring (Fin e) q xs) \<le> 2"
    by (simp_all add: convex_ring_def)
  have "ring_changes (inside_ring (Fin e) q (clip_ring (Fin e) pl xs)) \<le> 2" for q
    using clip_ring_changes[OF fin, of e q pl] ch[of q] by simp
  then show "convex_ring e (clip_ring (Fin e) pl xs)"
    using clip_ring_finite[OF fin] by (simp add: convex_ring_def)
  show "length (clip_ring (Fin e) pl xs) \<le> length xs + 1"
    by (rule clip_ring_grows_by_1) (rule ch)
qed

lemma ring_changes_le_length: "ring_changes bs \<le> length bs"
proof -
  have "ring_changes bs \<le> (\<Sum>i<length bs. 1)"
    unfolding ring_changes_def by (rule sum_mono) (simp add: differ_def)
  then show ?thesis by simp
qed

lemma convex_ring_triangle:
  assumes "finite4 v0" "finite4 v1" "finite4 v2"
  shows "convex_ring e [v0, v1, v2]"
proof -
  have "ring_changes (inside_ring (Fin e) q [v0, v1, v2]) \<le> 2" for q
  proof -
    let ?bs = "inside_ring (Fin e) q [v0, v1, v2]"
    have "ring_changes ?bs \<le> 3" using ring_changes_le_length[of ?bs] by (simp add: inside_ring_def)
    moreover have "even (ring_changes ?bs)" by (rule ring_changes_even)
    ultimately show ?thesis by (cases "ring_changes ?bs = 3") auto
  qed
  with assms show ?thesis by (simp add: convex_ring_def)
qed

lemma fold_clip_ring_convex:
  assumes "convex_ring e xs"
  shows "convex_ring e (fold (clip_ring (Fin e)) pls xs) \<and>
         length (fold (clip_ring (Fin e)) pls xs) \<le> length xs + length pls"
  using assms
proof (induction pls arbitrary: xs)
  case Nil
  then show ?case by simp
next
  case (Cons pl pls)
  from convex_ring_step[OF Cons.prems, of pl] Cons.IH[of "clip_ring (Fin e) pl xs"]
  show ?case by simp
qed

lemma fold_clip_ring_count:
  assumes "length xs = 0 \<or> 3 \<le> length xs"
  shows "length (fold (clip_ring eps) pls xs) = 0 \<or> 3 \<le> length (fold (clip_ring eps) pls xs)"
  using assms
proof (induction pls arbitrary: xs)
  case Nil
  then show ?case by simp
next
  case (Cons pl pls)
  from clip_ring_count[OF Cons.prems, of eps pl] Cons.IH[of "clip_ring eps pl xs"]
  show ?case by simp
qed

lemma fold_clip_ring_inside:
  assumes "\<forall>v\<in>set xs. finite4 v" "\<forall>v\<in>set xs. \<forall>q\<in>S. is_inside_plane (Fin e) q v"
  shows "\<forall>v\<in>set (fold (clip_ring (Fin e)) pls xs).
           finite4 v \<and> (\<forall>q\<in>S \<union> set pls. is_inside_plane (Fin e) q v)"
  using assms
proof (induction pls arbitrary: xs S)
  case Nil
  then show ?case by simp
next
  case (Cons pl pls)
  let ?ys = "clip_ring (Fin e) pl xs"
  have f: "\<forall>v\<in>set ?ys. finite4 v"
    using clip_ring_finite[OF Cons.prems(1)] by blast
  have i: "\<forall>v\<in>set ?ys. \<forall>q\<in>insert pl S. is_inside_plane (Fin e) q v"
    using clip_ring_inside_self[OF Cons.prems(1)] clip_ring_inside_other[OF Cons.prems(1)]
      Cons.prems(2) by blast
  from Cons.IH[OF f i] show ?case by simp
qed

lemma all_planes: "pl \<in> set [MINIMAL, RIGHT, LEFT, TOP, BOTTOM, NEAR, FAR]"
  by (cases pl) simp_all

subsection \<open>Cardinality and containment\<close>

lemma upt_0_4: "[0..<4] = [0, Suc 0, 2, 3]"
  by code_simp

lemma clip_ring_4:
  "clip_ring eps pl [a, b, c, d] =
   sh_edge eps pl a b @ sh_edge eps pl b c @ sh_edge eps pl c d @ sh_edge eps pl d a"
proof -
  have l: "length [a, b, c, d] = 4" by simp
  show ?thesis
    unfolding clip_ring_def edges_out_def l upt_0_4 by simp
qed

lemma X1_polygon:
  "clip_polygon MINIMAL_VAL [X1_v0, X1_v1, X1_v2] =
    [Vector4f (Fin (- 1)) (Fin (- (1 / 2))) (Fin 0) (Fin (- 1)),
     Vector4f (Fin (- 1)) (Fin (1 / 2)) (Fin 0) (Fin (- 1)), X1_v1, X1_v2]"
  by (simp add: clip_polygon_def clip_ring_3 clip_ring_4 clip_ring_Nil sh_edge_def MINIMAL_VAL_def
      X1_v0_def X1_v1_def X1_v2_def float_ops vectorInterpolate4_def lerp_def)

lemma coords_a_list:
  "map (clipped_coords_a payload) [0..<3] =
   [clipped_coords_a payload 0, clipped_coords_a payload 1, clipped_coords_a payload 2]"
  unfolding upt_0_3 by simp

lemma homogeneous_clip_count_any:
  "fst (homogeneous_clip eps payload) = 0 \<or> 3 \<le> fst (homogeneous_clip eps payload)"
proof -
  let ?xs = "map (clipped_coords_a payload) [0..<3]"
  have "length ?xs = 0 \<or> 3 \<le> length ?xs" by simp
  from fold_clip_ring_count[OF this, of eps "[MINIMAL, RIGHT, LEFT, TOP, BOTTOM, NEAR, FAR]"]
  show ?thesis
    using homogeneous_clip_polygon(1)[of payload ?xs eps]
    by (simp add: clip_polygon_def)
qed

lemma triangle_convex_ring:
  assumes "\<forall>i<3. finite4 (clipped_coords_a payload i)"
  shows "convex_ring e (map (clipped_coords_a payload) [0..<3])"
  unfolding coords_a_list using assms by (intro convex_ring_triangle) simp_all

lemma homogeneous_clip_count_le_10:
  assumes "\<forall>i<3. finite4 (clipped_coords_a payload i)"
  shows "fst (homogeneous_clip (Fin e) payload) \<le> 10"
proof -
  let ?xs = "map (clipped_coords_a payload) [0..<3]"
  from fold_clip_ring_convex[OF triangle_convex_ring[OF assms, of e],
      of "[MINIMAL, RIGHT, LEFT, TOP, BOTTOM, NEAR, FAR]"]
  have "length (clip_polygon (Fin e) ?xs) \<le> 10"
    by (simp add: clip_polygon_def)
  then show ?thesis
    using homogeneous_clip_polygon(1)[of payload ?xs "Fin e"] by simp
qed

text \<open>
  C4, as stated, fails in binary32 arithmetic: rounding makes a thin triangle next to the
  FAR plane cross that plane more than twice. The counts after the seven planes are
  4, 5, 6, 7, 8, 8 and 11.
\<close>

theorem rounding_breaks_cardinality:
  "fst (homogeneous_clip MINIMAL_VAL32 R2_payload) = 11 \<and>
   \<not> fst (homogeneous_clip MINIMAL_VAL32 R2_payload) \<le> 10"
proof -
  have "length (clip_polygon MINIMAL_VAL32 [R2_v0, R2_v1, R2_v2]) = 11"
    by code_simp
  then show ?thesis
    using homogeneous_clip_polygon(1)[of R2_payload "[R2_v0, R2_v1, R2_v2]" MINIMAL_VAL32]
    by (simp add: R2_payload_def triangle_payload_coords)
qed

text \<open>
  C4, amended. The count returned by \<open>homogeneous_clip\<close> is never 1 and never 2, whatever the
  scalar arithmetic and the input are: a ring with an inside and an outside vertex is
  crossed at least twice. In exact arithmetic on finite positions the count is moreover
  at most 10: a convex ring is crossed at most twice by a plane, so that each of the
  seven planes adds at most one vertex to the three of the triangle.
\<close>

theorem clip_count_0_or_3_to_10:
  fixes eps' :: "'a::{plus,minus,uminus,times,inverse,ord}" and payload' :: "'a Payload"
    and eps :: float and payload :: "float Payload"
  shows "(fst (homogeneous_clip eps' payload') = 0 \<or> 3 \<le> fst (homogeneous_clip eps' payload')) \<and>
         (is_fin eps \<and> (\<forall>i<3. finite4 (clipped_coords_a payload i)) \<longrightarrow>
            fst (homogeneous_clip eps payload) = 0 \<or>
            (3 \<le> fst (homogeneous_clip eps payload) \<and> fst (homogeneous_clip eps payload) \<le> 10))"
proof (intro conjI impI)
  show "fst (homogeneous_clip eps' payload') = 0 \<or> 3 \<le> fst (homogeneous_clip eps' payload')"
    by (rule homogeneous_clip_count_any)
  assume a: "is_fin eps \<and> (\<forall>i<3. finite4 (clipped_coords_a payload i))"
  then obtain e where e: "eps = Fin e" by (cases eps) simp_all
  from a have "fst (homogeneous_clip eps payload) \<le> 10"
    unfolding e by (intro homogeneous_clip_count_le_10) simp
  then show "fst (homogeneous_clip eps payload) = 0 \<or>
            (3 \<le> fst (homogeneous_clip eps payload) \<and> fst (homogeneous_clip eps payload) \<le> 10)"
    using homogeneous_clip_count_any[of eps payload] by auto
qed

lemma X1_payload_finite: "\<forall>i<3. finite4 (clipped_coords_a X1_payload i)"
  by (simp add: X1_payload_def triangle_payload_def Let_def finite4_def
      X1_v0_def X1_v1_def X1_v2_def)

lemma X1_count: "fst (homogeneous_clip MINIMAL_VAL X1_payload) = 4"
  using homogeneous_clip_polygon(1)[of X1_payload "[X1_v0, X1_v1, X1_v2]" MINIMAL_VAL]
  by (simp add: X1_payload_def triangle_payload_coords X1_polygon)

theorem clip_count_0_or_3_to_10_witness:
  "is_fin MINIMAL_VAL \<and> finite4 (clipped_coords_a X1_payload 0) \<and>
   finite4 (clipped_coords_a X1_payload 1) \<and> finite4 (clipped_coords_a X1_payload 2) \<and>
   fst (homogeneous_clip MINIMAL_VAL X1_payload) = 4 \<and>
   3 \<le> fst (homogeneous_clip MINIMAL_VAL X1_payload) \<and>
   fst (homogeneous_clip MINIMAL_VAL X1_payload) \<le> 10"
proof -
  have h: "is_fin MINIMAL_VAL \<and> (\<forall>i<3. finite4 (clipped_coords_a X1_payload i))"
    using X1_payload_finite by (simp add: MINIMAL_VAL_def)
  from clip_count_0_or_3_to_10[of MINIMAL_VAL X1_payload MINIMAL_VAL X1_payload] h
  have "fst (homogeneous_clip MINIMAL_VAL X1_payload) = 0 \<or>
        (3 \<le> fst (homogeneous_clip MINIMAL_VAL X1_payload) \<and>
         fst (homogeneous_clip MINIMAL_VAL X1_payload) \<le> 10)"
    by blast
  with h X1_count show ?thesis by simp
qed

text \<open>
  C5, as stated, fails in binary32 arithmetic. The triangle \<open>(-3, 0, 0, -1)\<close>,
  \<open>(-2, 0, 0, -1)\<close>, \<open>(0, 0, -2, -3)\<close> has one vertex inside the RIGHT plane. On the edge
  from the third vertex to the first the ratio is \<open>3 / 5\<close>, rounded to
  \<open>10066330 / 2 ^ 24\<close>; the inserted vertex has \<open>x = - 15099495 / 2 ^ 23\<close> and
  \<open>w = - 15099494 / 2 ^ 23\<close>, and \<open>x \<ge> w\<close> is false.
\<close>

theorem rounding_breaks_containment:
  "fst (homogeneous_clip MINIMAL_VAL32 R1_payload) = 3 \<and>
   \<not> is_inside_plane MINIMAL_VAL32 RIGHT
       (clipped_coords_b (snd (homogeneous_clip MINIMAL_VAL32 R1_payload)) 0)"
proof -
  have c: "map (clipped_coords_a R1_payload) [0..<3] = [R1_v0, R1_v1, R1_v2]"
    by (simp add: R1_payload_def triangle_payload_coords)
  have l: "length (clip_polygon MINIMAL_VAL32 [R1_v0, R1_v1, R1_v2]) = 3"
    by code_simp
  have b: "\<not> is_inside_plane MINIMAL_VAL32 RIGHT
            (clip_polygon MINIMAL_VAL32 [R1_v0, R1_v1, R1_v2] ! 0)"
    by code_simp
  have n: "fst (homogeneous_clip MINIMAL_VAL32 R1_payload) = 3"
    using homogeneous_clip_polygon(1)[OF c, of MINIMAL_VAL32] l by simp
  have "clipped_coords_b (snd (homogeneous_clip MINIMAL_VAL32 R1_payload)) 0 =
        map (clipped_coords_b (snd (homogeneous_clip MINIMAL_VAL32 R1_payload)))
          [0..<fst (homogeneous_clip MINIMAL_VAL32 R1_payload)] ! 0"
    unfolding n by simp
  also have "\<dots> = clip_polygon MINIMAL_VAL32 [R1_v0, R1_v1, R1_v2] ! 0"
    using homogeneous_clip_polygon(2)[OF c, of MINIMAL_VAL32] by simp
  finally show ?thesis using n b by simp
qed

text \<open>
  C5, amended. In exact arithmetic on finite positions, every position of the polygon that
  \<open>homogeneous_clip\<close> leaves in side b satisfies the inside test of each of the seven
  planes: a vertex inserted on an edge lies on the clip plane, and it is a convex
  combination of the ends of the edge, which satisfy the tests of the earlier planes.
\<close>

theorem clip_output_inside_all_planes:
  assumes "is_fin eps" and "\<forall>i<3. finite4 (clipped_coords_a payload i)"
  shows "\<forall>i<fst (homogeneous_clip eps payload). \<forall>pl.
           is_inside_plane eps pl (clipped_coords_b (snd (homogeneous_clip eps payload)) i)"
proof (intro allI impI)
  fix i pl
  assume i: "i < fst (homogeneous_clip eps payload)"
  from assms(1) obtain e where e: "eps = Fin e" by (cases eps) simp_all
  let ?xs = "map (clipped_coords_a payload) [0..<3]"
  let ?r = "homogeneous_clip eps payload"
  have fin: "\<forall>v\<in>set ?xs. finite4 v" using assms(2) by simp
  have m: "map (clipped_coords_b (snd ?r)) [0..<fst ?r] = clip_polygon eps ?xs"
    by (rule homogeneous_clip_polygon(2)) simp
  have "clipped_coords_b (snd ?r) i = map (clipped_coords_b (snd ?r)) [0..<fst ?r] ! i"
    using i by simp
  moreover have "i < length (clip_polygon eps ?xs)"
    using i homogeneous_clip_polygon(1)[of payload ?xs eps] by simp
  ultimately have mem: "clipped_coords_b (snd ?r) i \<in> set (clip_polygon eps ?xs)"
    unfolding m by (metis nth_mem)
  from fold_clip_ring_inside[OF fin, of "{}" e "[MINIMAL, RIGHT, LEFT, TOP, BOTTOM, NEAR, FAR]"]
  have "\<forall>v\<in>set (clip_polygon eps ?xs).
          \<forall>q\<in>set [MINIMAL, RIGHT, LEFT, TOP, BOTTOM, NEAR, FAR]. is_inside_plane eps q v"
    unfolding clip_polygon_def e by simp
  with mem all_planes[of pl]
  show "is_inside_plane eps pl (clipped_coords_b (snd ?r) i)" by blast
qed

theorem clip_output_inside_all_planes_witness:
  "is_fin MINIMAL_VAL \<and> finite4 (clipped_coords_a X1_payload 0) \<and>
   finite4 (clipped_coords_a X1_payload 1) \<and> finite4 (clipped_coords_a X1_payload 2) \<and>
   fst (homogeneous_clip MINIMAL_VAL X1_payload) = 4 \<and>
   list_all (\<lambda>i. list_all (\<lambda>pl. is_inside_plane MINIMAL_VAL pl
       (clipped_coords_b (snd (homogeneous_clip MINIMAL_VAL X1_payload)) i))
       [MINIMAL, RIGHT, LEFT, TOP, BOTTOM, NEAR, FAR]) [0, 1, 2, 3]"
proof -
  have h: "is_fin MINIMAL_VAL" by (simp add: MINIMAL_VAL_def)
  have a: "\<forall>i<4. \<forall>pl. is_inside_plane MINIMAL_VAL pl
             (clipped_coords_b (snd (homogeneous_clip MINIMAL_VAL X1_payload)) i)"
    using clip_output_inside_all_planes[OF h X1_payload_finite] unfolding X1_count .
  have "list_all (\<lambda>i. list_all (\<lambda>pl. is_inside_plane MINIMAL_VAL pl
       (clipped_coords_b (snd (homogeneous_clip MINIMAL_VAL X1_payload)) i))
       [MINIMAL, RIGHT, LEFT, TOP, BOTTOM, NEAR, FAR]) [0, 1, 2, 3]"
    unfolding list_all_iff
  proof (intro ballI)
    fix i :: nat and pl
    assume "i \<in> set [0, 1, 2, 3]"
    then have "i < 4" by auto
    with a show "is_inside_plane MINIMAL_VAL pl
       (clipped_coords_b (snd (homogeneous_clip MINIMAL_VAL X1_payload)) i)" by blast
  qed
  with h X1_payload_finite X1_count show ?thesis by simp
qed

section \<open>Properties of the rasterizer and the driver\<close>

subsection \<open>setColor\<close>

lemma bindF_Inr [simp]: "bindF (Inr v) f = f v"
  by (simp add: bindF_def)

lemma bindF_Inl [simp]: "bindF (Inl e) f = Inl e"
  by (simp add: bindF_def)

lemma pixel_offset_bounds:
  fixes x y w h :: int
  assumes "0 \<le> x" "x < w" "0 \<le> y" "y < h"
  shows "0 \<le> ((h - y - 1) * w + x) * 4" and "((h - y - 1) * w + x) * 4 + 3 < 4 * w * h"
proof -
  have a: "0 \<le> (h - y - 1) * w" using assms by simp
  then show "0 \<le> ((h - y - 1) * w + x) * 4" using assms by simp
  have "(h - y - 1) * w \<le> (h - 1) * w"
    using assms by (intro mult_right_mono) simp_all
  then have "(h - y - 1) * w + x \<le> (h - 1) * w + (w - 1)" using assms by linarith
  also have "\<dots> = w * h - 1" by (simp add: algebra_simps)
  finally show "((h - y - 1) * w + x) * 4 + 3 < 4 * w * h" by simp
qed

text \<open>
  C7. For a pixel inside the image of a pipeline whose framebuffer has
  \<open>4 * width * height\<close> bytes, and a colour \<open>(R, G, B)\<close> whose channels convert to the
  bytes \<open>r\<close>, \<open>g\<close>, \<open>b\<close>, \<open>setColor\<close> stores \<open>b\<close>, \<open>g\<close>, \<open>r\<close> at the offsets
  \<open>((height - y - 1) * width + x) * 4 + 0, 1, 2\<close>. Every other byte of the framebuffer,
  the fourth byte of the pixel among them, keeps its value, and nothing else of the
  pipeline changes. This holds in every arithmetic.
\<close>

theorem setColor_layout:
  assumes "0 \<le> x" and "x < width pl" and "0 \<le> y" and "y < height pl"
    and "int (length (framebuffer pl)) = 4 * width pl * height pl"
    and "float_to_uchar cv R = Inr r" and "float_to_uchar cv G = Inr g"
    and "float_to_uchar cv B = Inr b"
  defines "idx \<equiv> nat (((height pl - y - 1) * width pl + x) * 4)"
  shows "setColor cv x y (Vector3f R G B) pl =
           Inr (pl\<lparr>framebuffer := (framebuffer pl)[idx + 2 := r, idx + 1 := g, idx := b]\<rparr>) \<and>
         idx + 3 < length (framebuffer pl) \<and>
         (framebuffer pl)[idx + 2 := r, idx + 1 := g, idx := b] ! idx = b \<and>
         (framebuffer pl)[idx + 2 := r, idx + 1 := g, idx := b] ! (idx + 1) = g \<and>
         (framebuffer pl)[idx + 2 := r, idx + 1 := g, idx := b] ! (idx + 2) = r \<and>
         (\<forall>j. j \<noteq> idx \<and> j \<noteq> idx + 1 \<and> j \<noteq> idx + 2 \<longrightarrow>
              (framebuffer pl)[idx + 2 := r, idx + 1 := g, idx := b] ! j = framebuffer pl ! j)"
proof -
  let ?i = "((height pl - y - 1) * width pl + x) * 4"
  note b = pixel_offset_bounds[OF assms(1-4)]
  have i0: "0 \<le> ?i" by (rule b(1))
  have i3: "?i + 3 < int (length (framebuffer pl))" using b(2) assms(5) by simp
  have n: "int idx = ?i" using i0 by (simp add: idx_def)
  have len: "idx + 3 < length (framebuffer pl)" using i3 n by linarith
  have n2: "nat (?i + 2) = idx + 2" and n1: "nat (?i + 1) = idx + 1"
    using i0 by (simp_all add: idx_def nat_add_distrib)
  have "setColor cv x y (Vector3f R G B) pl =
           Inr (pl\<lparr>framebuffer := (framebuffer pl)[idx + 2 := r, idx + 1 := g, idx := b]\<rparr>)"
    using i0 i3 assms(6-8) n1 n2
    by (simp add: setColor_def Let_def store_def idx_def)
  moreover have "(framebuffer pl)[idx + 2 := r, idx + 1 := g, idx := b] ! idx = b"
    using len by simp
  moreover have "(framebuffer pl)[idx + 2 := r, idx + 1 := g, idx := b] ! (idx + 1) = g"
    using len by simp
  moreover have "(framebuffer pl)[idx + 2 := r, idx + 1 := g, idx := b] ! (idx + 2) = r"
    using len by simp
  moreover have "\<forall>j. j \<noteq> idx \<and> j \<noteq> idx + 1 \<and> j \<noteq> idx + 2 \<longrightarrow>
              (framebuffer pl)[idx + 2 := r, idx + 1 := g, idx := b] ! j = framebuffer pl ! j"
    by simp
  ultimately show ?thesis using len by blast
qed

theorem setColor_layout_witness:
  "(0::int) \<le> 1 \<and> 1 < width W_pipeline \<and> (0::int) \<le> 0 \<and> 0 < height W_pipeline \<and>
   int (length (framebuffer W_pipeline)) = 4 * width W_pipeline * height W_pipeline \<and>
   float_to_uchar exact_conversions (Fin 10) = Inr 10 \<and>
   float_to_uchar exact_conversions (Fin (41 / 2)) = Inr 20 \<and>
   float_to_uchar exact_conversions (Fin 255) = Inr 255 \<and>
   setColor exact_conversions 1 0 (Vector3f (Fin 10) (Fin (41 / 2)) (Fin 255)) W_pipeline =
     Inr (W_pipeline\<lparr>framebuffer := [7, 7, 7, 7, 7, 7, 7, 7, 7, 7, 7, 7, 255, 20, 10, 7]\<rparr>)"
proof -
  have h: "(0::int) \<le> 1" "1 < width W_pipeline" "(0::int) \<le> 0" "0 < height W_pipeline"
    "int (length (framebuffer W_pipeline)) = 4 * width W_pipeline * height W_pipeline"
    by (simp_all add: W_pipeline_def)
  have c: "float_to_uchar exact_conversions (Fin 10) = Inr 10"
    "float_to_uchar exact_conversions (Fin (41 / 2)) = Inr 20"
    "float_to_uchar exact_conversions (Fin 255) = Inr 255"
    by (simp_all add: exact_conversions_def trunc_def)
  have i: "nat (((height W_pipeline - 0 - 1) * width W_pipeline + 1) * 4) = 12"
    by (simp add: W_pipeline_def)
  have f: "(framebuffer W_pipeline)[12 + 2 := 10, 12 + 1 := 20, 12 := 255] =
           [7, 7, 7, 7, 7, 7, 7, 7, 7, 7, 7, 7, 255, 20, 10, 7::byte]"
    by (simp add: W_pipeline_def numeral_eq_Suc)
  from setColor_layout[OF h c] have
    "setColor exact_conversions 1 0 (Vector3f (Fin 10) (Fin (41 / 2)) (Fin 255)) W_pipeline =
     Inr (W_pipeline\<lparr>framebuffer := (framebuffer W_pipeline)[12 + 2 := 10, 12 + 1 := 20, 12 := 255]\<rparr>)"
    unfolding i by blast
  then show ?thesis using h c unfolding f by simp
qed

subsection \<open>The conversions of the rounded arithmetic on known values\<close>

text \<open>
  The screen position \<open>0.5 * 99 * (2 / -3 + 1)\<close> of a pipeline that is 100 pixels wide is
  \<open>16.499998\<close>, not \<open>16.5\<close>; a pixel centre beyond \<open>2 ^ 24\<close> is rounded.
\<close>

lemma binary32_conversions_known_values:
  "b32_same (B32 2 0 / B32 (- 3) 0 + 1) (B32 11184810 (- 25))"
  "b32_same (double_to_float binary32_conversions
     (double_half binary32_conversions * int_to_double binary32_conversions 99 *
      float_to_double binary32_conversions (B32 11184810 (- 25)))) (B32 8650751 (- 19))"
  "b32_same (pixel_center binary32_conversions 16) (B32 33 (- 1))"
  "b32_same (pixel_center binary32_conversions 16777217) (B32 8388609 1)"
  "float_to_int binary32_conversions (B32 (- 7) (- 1)) = Inr (- 3)"
  "float_to_int binary32_conversions (B32 1 31) = Inl BadConversion"
  "float_to_int binary32_conversions B32_NaN = Inl BadConversion"
  "std_ceil binary32_conversions (B32 (- 1) (- 1)) = B32_MZero"
  "b32_same (std_ceil binary32_conversions (B32 8650751 (- 19))) (B32 17 0)"
  "float_to_uchar binary32_conversions (B32 511 (- 1)) = Inr 255"
  "float_to_uchar binary32_conversions (B32 256 0) = Inl BadConversion"
  by code_simp+

subsection \<open>The fragment stage\<close>

text \<open>
  The clamp returns 0, 255 or a value strictly between them, whatever the order of the
  arithmetic is; a NaN becomes 255.
\<close>

lemma clamp_channel_cases:
  fixes lo hi c :: "'a::ord"
  shows "std_max lo (std_min hi c) = lo \<or> std_max lo (std_min hi c) = hi \<or>
         (lo < std_max lo (std_min hi c) \<and> std_max lo (std_min hi c) < hi)"
  by (auto simp: std_max_def std_min_def)

lemma clamp_channel_range:
  "channel_in_range exact_conversions (std_max 0 (std_min (float_255 exact_conversions) c))"
  by (cases c)
    (simp_all add: channel_in_range_def exact_conversions_def std_max_def std_min_def float_ops)

lemma b32_less_le: "b32_less a b \<Longrightarrow> b32_le a b"
  by (cases a; cases b) (auto simp: Let_def)

lemma clamp_channel_range32:
  "channel_in_range binary32_conversions (std_max 0 (std_min (float_255 binary32_conversions) c))"
proof -
  have z: "b32_le (B32 0 0) (B32 0 0)" "b32_le (B32 0 0) (B32 255 0)"
    "b32_le (B32 255 0) (B32 255 0)"
    by code_simp+
  have "std_max (B32 0 0) (std_min (B32 255 0) c) = B32 0 0 \<or>
        std_max (B32 0 0) (std_min (B32 255 0) c) = B32 255 0 \<or>
        (B32 0 0 < std_max (B32 0 0) (std_min (B32 255 0) c) \<and>
         std_max (B32 0 0) (std_min (B32 255 0) c) < B32 255 0)"
    by (rule clamp_channel_cases)
  then show ?thesis
    using z
    by (auto simp: channel_in_range_def binary32_conversions_def zero_binary32_def
        less_binary32_def less_eq_binary32_def intro: b32_less_le)
qed

text \<open>The function of the code computes the weights of the specification.\<close>

lemma computeBarycentricCoords2D_spec:
  "computeBarycentricCoords2D (pixel_center cv x) (pixel_center cv y) screen_pos =
   spec_weights cv screen_pos x y"
  by (simp add: computeBarycentricCoords2D_def spec_weights_def spec_alpha_def Let_def)

text \<open>The two nested loops visit the pixels of the box in the order of \<open>box_pixels\<close>.\<close>

lemma foldF_append: "foldF f (xs @ ys) s = bindF (foldF f xs s) (foldF f ys)"
proof (induction xs arbitrary: s)
  case Nil
  show ?case by simp
next
  case (Cons a xs)
  show ?case by (cases "f a s") (simp_all add: Cons)
qed

lemma foldF_map: "foldF f (map g xs) s = foldF (\<lambda>x. f (g x)) xs s"
proof (induction xs arbitrary: s)
  case Nil
  show ?case by simp
next
  case (Cons a xs)
  show ?case by (cases "f (g a) s") (simp_all add: Cons)
qed

lemma foldF_rows:
  "foldF (\<lambda>y. foldF (f y) xs) ys s =
   foldF (\<lambda>(x, y). f y x) (concat (map (\<lambda>y. map (\<lambda>x. (x, y)) xs) ys)) s"
proof (induction ys arbitrary: s)
  case Nil
  show ?case by simp
next
  case (Cons y ys)
  show ?case
    by (cases "foldF (f y) xs s") (simp_all add: foldF_append foldF_map Cons)
qed

text \<open>
  C1. The weights are the ones that the code computes, in its own arithmetic, from the
  screen positions that it has computed; the statement holds for every arithmetic, the
  rounded one of the program included. \<open>rasterize\<close> applies \<open>rasterize_pixel\<close> to the pixels
  of its bounding box, row by row. For such a pixel \<open>(x, y)\<close> whose depth entry exists,
  with the weights \<open>alpha\<close>, \<open>beta\<close>, \<open>gamma\<close> of the specification at the pixel centre,
  \<open>corrector\<close> as in the specification and \<open>z = - corrector\<close>: if the three weights are
  greater than zero and the stored depth is greater than \<open>z\<close>, the depth entry becomes
  \<open>z\<close> and \<open>setColor\<close> writes the clamped result of the fragment shader, called with
  \<open>(alpha, beta, gamma, corrector)\<close>; otherwise the pipeline is unchanged. Every channel
  of a clamped colour lies in \<open>[0, 255]\<close>, in the exact arithmetic and in binary32.
\<close>

theorem rasterize_pixel_writes_iff:
  fixes cv :: "('a::{zero,one,plus,minus,uminus,times,inverse,ord}, 'd::{plus,times}) conversions"
  assumes "0 \<le> y * width pl + x" and "y * width pl + x < int (length (zbuffer pl))"
    and "spec_weights cv screen_pos x y = (alpha, beta, gamma)"
    and "corrector = spec_corrector payload alpha beta gamma"
    and "z = - corrector" and "index = nat (y * width pl + x)"
  shows "rasterize_pixel cv FS payload shader screen_pos y x pl =
           (if alpha > 0 \<and> beta > 0 \<and> gamma > 0 \<and> zbuffer pl ! index > z
            then setColor cv x y (clamp_color cv (FS shader alpha beta gamma corrector))
                   (pl\<lparr>zbuffer := (zbuffer pl)[index := z]\<rparr>)
            else Inr pl) \<and>
         rasterize cv FS payload shader pl =
           bindF (foldF (bounding_step cv)
                    (map (\<lambda>i. screen_position cv pl (homo_coords payload i)) [0, 1, 2])
                    (0, width pl, 0, height pl))
             (\<lambda>(x_max, x_min, y_max, y_min).
                if y_min \<le> y_max \<and> (y_max = INT_MAX \<or> x_max = INT_MAX) then Inl Overflow
                else foldF (\<lambda>(x, y). rasterize_pixel cv FS payload shader
                                       (\<lambda>i. screen_position cv pl (homo_coords payload i)) y x)
                       (box_pixels (x_max, x_min, y_max, y_min)) pl) \<and>
         color_in_range exact_conversions (clamp_color exact_conversions c) \<and>
         color_in_range binary32_conversions (clamp_color binary32_conversions c')"
proof (intro conjI)
  show "rasterize_pixel cv FS payload shader screen_pos y x pl =
           (if alpha > 0 \<and> beta > 0 \<and> gamma > 0 \<and> zbuffer pl ! index > z
            then setColor cv x y (clamp_color cv (FS shader alpha beta gamma corrector))
                   (pl\<lparr>zbuffer := (zbuffer pl)[index := z]\<rparr>)
            else Inr pl)"
    using assms computeBarycentricCoords2D_spec[of cv x y screen_pos]
    by (auto simp: rasterize_pixel_def pixel_center_def spec_corrector_def inside_triangle_def
        Let_def load_def store_def)
  show "rasterize cv FS payload shader pl =
           bindF (foldF (bounding_step cv)
                    (map (\<lambda>i. screen_position cv pl (homo_coords payload i)) [0, 1, 2])
                    (0, width pl, 0, height pl))
             (\<lambda>(x_max, x_min, y_max, y_min).
                if y_min \<le> y_max \<and> (y_max = INT_MAX \<or> x_max = INT_MAX) then Inl Overflow
                else foldF (\<lambda>(x, y). rasterize_pixel cv FS payload shader
                                       (\<lambda>i. screen_position cv pl (homo_coords payload i)) y x)
                       (box_pixels (x_max, x_min, y_max, y_min)) pl)"
    unfolding rasterize_def Let_def box_pixels_def prod.case foldF_rows ..
  show "color_in_range exact_conversions (clamp_color exact_conversions c)"
    by (simp add: color_in_range_def clamp_color_def clamp_channel_range)
  show "color_in_range binary32_conversions (clamp_color binary32_conversions c')"
    by (simp add: color_in_range_def clamp_color_def clamp_channel_range32)
qed

text \<open>
  The theorem on the triangle \<open>V\<close>, in binary32, at the pixel \<open>(0, 0)\<close>. The weights are
  \<open>1/2\<close>, \<open>1/2 - 2 ^ -25\<close> and \<open>2 ^ -25\<close>, the depth written is \<open>3 + 2 ^ -22\<close>, and the colour
  \<open>(300, -5, 128.5)\<close> of the shader is stored as the bytes \<open>128, 0, 255\<close> of the pixel in
  the lower row of the image.
\<close>

lemma V_weights:
  "spec_weights binary32_conversions V_screen_pos 0 0 =
     (B32 8388608 (- 24), B32 16777215 (- 25), B32 8388608 (- 48))"
  by code_simp

lemma V_corrector:
  "spec_corrector V_payload (B32 8388608 (- 24)) (B32 16777215 (- 25)) (B32 8388608 (- 48)) =
     B32 (- 12582913) (- 22)"
  by code_simp

theorem rasterize_pixel_writes_iff_witness:
  "(0::int) \<le> 0 * width V_pipeline + 0 \<and>
   0 * width V_pipeline + 0 < int (length (zbuffer V_pipeline)) \<and>
   spec_weights binary32_conversions V_screen_pos 0 0 =
     (B32 8388608 (- 24), B32 16777215 (- 25), B32 8388608 (- 48)) \<and>
   spec_corrector V_payload (B32 8388608 (- 24)) (B32 16777215 (- 25)) (B32 8388608 (- 48)) =
     B32 (- 12582913) (- 22) \<and>
   B32 8388608 (- 24) > 0 \<and> B32 16777215 (- 25) > 0 \<and> B32 8388608 (- 48) > 0 \<and>
   zbuffer V_pipeline ! 0 > - B32 (- 12582913) (- 22) \<and>
   rasterize_pixel binary32_conversions V_FS V_payload V_shader V_screen_pos 0 0 V_pipeline =
     Inr (V_pipeline\<lparr>zbuffer := [B32 12582913 (- 22), B32_PInf, B32_PInf, B32_PInf],
            framebuffer := [7, 7, 7, 7, 7, 7, 7, 7, 128, 0, 255, 7, 7, 7, 7, 7]\<rparr>)"
proof -
  have h: "(0::int) \<le> 0 * width V_pipeline + 0"
    "0 * width V_pipeline + 0 < int (length (zbuffer V_pipeline))"
    by (simp_all add: V_pipeline_def)
  have i: "(0::nat) = nat (0 * width V_pipeline + 0)" by simp
  have a: "B32 8388608 (- 24) > 0 \<and> B32 16777215 (- 25) > 0 \<and> B32 8388608 (- 48) > 0 \<and>
           zbuffer V_pipeline ! 0 > - B32 (- 12582913) (- 22)"
    by code_simp
  have s: "setColor binary32_conversions 0 0
             (clamp_color binary32_conversions
                (V_FS V_shader (B32 8388608 (- 24)) (B32 16777215 (- 25)) (B32 8388608 (- 48))
                   (B32 (- 12582913) (- 22))))
             (V_pipeline\<lparr>zbuffer := (zbuffer V_pipeline)[0 := - B32 (- 12582913) (- 22)]\<rparr>) =
           Inr (V_pipeline\<lparr>zbuffer := [B32 12582913 (- 22), B32_PInf, B32_PInf, B32_PInf],
            framebuffer := [7, 7, 7, 7, 7, 7, 7, 7, 128, 0, 255, 7, 7, 7, 7, 7]\<rparr>)"
    by code_simp
  from rasterize_pixel_writes_iff[OF h V_weights V_corrector[symmetric] refl i,
      of V_FS V_shader] a s
  have "rasterize_pixel binary32_conversions V_FS V_payload V_shader V_screen_pos 0 0 V_pipeline =
     Inr (V_pipeline\<lparr>zbuffer := [B32 12582913 (- 22), B32_PInf, B32_PInf, B32_PInf],
            framebuffer := [7, 7, 7, 7, 7, 7, 7, 7, 128, 0, 255, 7, 7, 7, 7, 7]\<rparr>)"
    by simp
  with h V_weights V_corrector a show ?thesis by simp
qed

text \<open>
  \<open>rasterize\<close> on the triangle \<open>V\<close> visits the four pixels of the image and writes this one
  pixel.
\<close>

lemma V_rasterize:
  "rasterize binary32_conversions V_FS V_payload V_shader V_pipeline =
     Inr (V_pipeline\<lparr>zbuffer := [B32 12582913 (- 22), B32_PInf, B32_PInf, B32_PInf],
            framebuffer := [7, 7, 7, 7, 7, 7, 7, 7, 128, 0, 255, 7, 7, 7, 7, 7]\<rparr>)"
  by code_simp

text \<open>
  In the exact arithmetic the third weight of the same pixel is zero, the centre of the
  pixel being on the first edge of the triangle, and the pixel is not written: which
  pixels pass the test depends on the arithmetic in which the weights are computed.
\<close>

lemma E_screen:
  "E_screen_pos 0 = Vector3f (Fin (1 / 6)) (Fin 0) (Fin 3)"
  "E_screen_pos (Suc 0) = Vector3f (Fin (5 / 6)) (Fin 1) (Fin 3)"
  "E_screen_pos 2 = Vector3f (Fin (1 / 2)) (Fin 1) (Fin 7)"
  by (simp_all add: E_screen_pos_def screen_position_def exact_conversions_def W_pipeline_def
      E_payload_def triangle_payload_def Let_def E_v0_def E_v1_def E_v2_def of_int_float_def
      float_ops)

lemma E_weights:
  "spec_weights exact_conversions E_screen_pos 0 0 = (Fin (1 / 2), Fin (1 / 2), Fin 0)"
  by (simp add: spec_weights_def spec_alpha_def pixel_center_def exact_conversions_def Let_def
      E_screen of_int_float_def float_ops)

lemma E_pixel_not_written:
  "rasterize_pixel exact_conversions W_FS E_payload W_shader E_screen_pos 0 0 W_pipeline =
     Inr W_pipeline"
  using E_weights computeBarycentricCoords2D_spec[of exact_conversions 0 0 E_screen_pos]
  by (simp add: rasterize_pixel_def pixel_center_def inside_triangle_def float_ops)

subsection \<open>The fan\<close>

lemma fan_from_eq: "fan_from j n = map (\<lambda>j. [0, j, j + 1]) [j..<n - 1]"
proof (induction j n rule: fan_from.induct)
  case (1 j n)
  show ?case
  proof (cases "int j < int n - 1")
    case True
    then have "j < n - 1" by linarith
    then have "[j..<n - 1] = j # [j + 1..<n - 1]" by (simp add: upt_conv_Cons)
    with 1[OF True] True show ?thesis by (subst fan_from.simps) simp
  next
    case False
    then have "\<not> j < n - 1" by linarith
    with False show ?thesis by (subst fan_from.simps) simp
  qed
qed

text \<open>
  C6, as stated, fails: for a polygon of three vertices the loop
  \<open>for (j = 1; j < vertex_num - 1; j++)\<close> draws the one triangle \<open>(0, 1, 2)\<close>, whereas
  \<open>j \<in> [1, n - 1]\<close> also names \<open>(0, 2, 3)\<close>, whose last vertex is not a vertex of the
  polygon.
\<close>

theorem fan_stops_before_last_vertex:
  "fan_from 1 3 = [[0, 1, 2]] \<and> spec_fan 3 = [[0, 1, 2], [0, 2, 3]] \<and> fan_from 1 3 \<noteq> spec_fan 3"
proof -
  have a: "[Suc 0..<2] = [Suc 0]" by (simp add: upt_conv_Cons)
  have b: "[Suc 0..<3] = [Suc 0, 2]" by (simp add: upt_conv_Cons)
  show ?thesis by (simp add: fan_from_eq spec_fan_def a b)
qed

text \<open>
  C6, amended: the sub-triangles are \<open>(0, j, j + 1)\<close> for \<open>1 \<le> j < n - 1\<close>, which are
  \<open>n - 2\<close> triangles (none when \<open>n < 3\<close>; the subtraction is the one of the natural
  numbers). The driver prepares and rasterizes each of them once, in this order, as long
  as no fault occurs.
\<close>

theorem fan_triangulation:
  "fan_from 1 vertex_num = map (\<lambda>j. [0, j, j + 1]) [1..<vertex_num - 1] \<and>
   length (fan_from 1 vertex_num) = vertex_num - 2 \<and>
   render_face cv eps VS FS model i (shader, payload, pl) =
     bindF (load (faces model) i) (\<lambda>face.
     bindF (foldF (fill_vertex VS model shader (vertex face)) [0, 1, 2] payload) (\<lambda>payload.
       foldF (render_sub_triangle cv FS)
         (map (\<lambda>j. [0, j, j + 1]) [1..<fst (homogeneous_clip eps payload) - 1])
         (shader, snd (homogeneous_clip eps payload), pl)))"
proof (intro conjI)
  show "fan_from 1 vertex_num = map (\<lambda>j. [0, j, j + 1]) [1..<vertex_num - 1]"
    by (rule fan_from_eq)
  show "length (fan_from 1 vertex_num) = vertex_num - 2"
    unfolding fan_from_eq by simp
  show "render_face cv eps VS FS model i (shader, payload, pl) =
     bindF (load (faces model) i) (\<lambda>face.
     bindF (foldF (fill_vertex VS model shader (vertex face)) [0, 1, 2] payload) (\<lambda>payload.
       foldF (render_sub_triangle cv FS)
         (map (\<lambda>j. [0, j, j + 1]) [1..<fst (homogeneous_clip eps payload) - 1])
         (shader, snd (homogeneous_clip eps payload), pl)))"
    unfolding render_face_def fan_from_eq by (simp only: prod.case split_beta fst_conv snd_conv)
qed

subsection \<open>Termination of the face loop\<close>

lemma faces_loop_terminates:
  assumes "1 \<le> interval"
  shows "\<exists>r. faces_loop cv eps VS FS model end interval i st = Some r"
proof (induction "nat (end - i)" arbitrary: i st rule: less_induct)
  case less
  show ?case
  proof (cases "i < end")
    case False
    then show ?thesis by (subst faces_loop.simps) simp
  next
    case True
    show ?thesis
    proof (cases "render_face cv eps VS FS model i st")
      case (Inl e)
      with True show ?thesis by (subst faces_loop.simps) simp
    next
      case (Inr st')
      show ?thesis
      proof (cases "i + interval > INT_MAX \<or> i + interval < - INT_MAX - 1")
        case o: True
        with True Inr show ?thesis by (subst faces_loop.simps) simp
      next
        case o: False
        have "nat (end - (i + interval)) < nat (end - i)" using assms True by linarith
        from less[OF this, of st'] obtain r where
          "faces_loop cv eps VS FS model end interval (i + interval) st' = Some r" by blast
        with True Inr o show ?thesis by (subst faces_loop.simps) simp
      qed
    qed
  qed
qed

lemma render_face_negative: "i < 0 \<Longrightarrow> render_face cv eps VS FS model i st = Inl OutOfRange"
  by (cases st) (simp add: render_face_def load_def)

lemma faces_loop_negative_interval:
  assumes "interval < 0" and "i < end"
  shows "\<exists>e. faces_loop cv eps VS FS model end interval i st = Some (Inl e)"
  using assms(2)
proof (induction "nat (i + 1)" arbitrary: i st rule: less_induct)
  case less
  show ?case
  proof (cases "render_face cv eps VS FS model i st")
    case (Inl e)
    with less.prems show ?thesis by (subst faces_loop.simps) simp
  next
    case (Inr st')
    then have i0: "0 \<le> i" using render_face_negative[of i cv eps VS FS model st] by (cases "i < 0") auto
    show ?thesis
    proof (cases "i + interval > INT_MAX \<or> i + interval < - INT_MAX - 1")
      case o: True
      with less.prems Inr show ?thesis by (subst faces_loop.simps) simp
    next
      case o: False
      have "nat (i + interval + 1) < nat (i + 1)" using assms(1) i0 by linarith
      moreover have "i + interval < end" using assms(1) less.prems by linarith
      ultimately obtain e where
        "faces_loop cv eps VS FS model end interval (i + interval) st' = Some (Inl e)"
        using less.hyps[of "i + interval" st'] by blast
      with less.prems Inr o show ?thesis by (subst faces_loop.simps) simp
    qed
  qed
qed

lemma faces_loop_zero_interval:
  fixes cv :: "('a::{zero,one,plus,minus,uminus,times,inverse,ord}, 'd::{plus,times}) conversions"
    and VS :: "('a, 'u) vertex_shader" and FS :: "('a, 'u) fragment_shader"
  assumes "i < end" and "is_int i" and "keeps_rendering cv eps VS FS model i I" and "I st"
  shows "faces_loop cv eps VS FS model end 0 i st = None"
proof (rule ccontr)
  assume "faces_loop cv eps VS FS model end 0 i st \<noteq> None"
  then obtain y where y: "faces_loop cv eps VS FS model end 0 i st = Some y" by blast
  define P where "P = (\<lambda>(cv'::('a, 'd) conversions) (eps'::'a) (VS'::('a, 'u) vertex_shader)
      (FS'::('a, 'u) fragment_shader) (model'::'a Model) (end'::int) (interval'::int) (i'::int)
      (st'::('a, 'u) render_state) (y'::fault + ('a, 'u) render_state).
      \<not> (interval' = 0 \<and> i' < end' \<and> is_int i' \<and>
         keeps_rendering cv' eps' VS' FS' model' i' I \<and> I st'))"
  have "P cv eps VS FS model end 0 i st y"
  proof (rule faces_loop.raw_induct[where P = P, OF _ y])
    fix f :: "('a, 'd) conversions \<Rightarrow> 'a \<Rightarrow> ('a, 'u) vertex_shader \<Rightarrow> ('a, 'u) fragment_shader \<Rightarrow>
              'a Model \<Rightarrow> int \<Rightarrow> int \<Rightarrow> int \<Rightarrow> ('a, 'u) render_state \<Rightarrow>
              (fault + ('a, 'u) render_state) option"
      and cv eps VS FS model e interval i st y
    assume IH: "\<And>cv eps VS FS model e interval i st y.
        f cv eps VS FS model e interval i st = Some y \<Longrightarrow> P cv eps VS FS model e interval i st y"
      and step: "(if i < e
          then case render_face cv eps VS FS model i st of
                 Inl e \<Rightarrow> Some (Inl e)
               | Inr st \<Rightarrow>
                   if INT_MAX < i + interval \<or> i + interval < - INT_MAX - 1
                   then Some (Inl Overflow)
                   else f cv eps VS FS model e interval (i + interval) st
          else Some (Inr st)) = Some y"
    show "P cv eps VS FS model e interval i st y"
      unfolding P_def
    proof
      assume a: "interval = 0 \<and> i < e \<and> is_int i \<and> keeps_rendering cv eps VS FS model i I \<and> I st"
      then obtain st' where r: "render_face cv eps VS FS model i st = Inr st'" and I': "I st'"
        unfolding keeps_rendering_def by blast
      from a have no: "\<not> (INT_MAX < i + interval \<or> i + interval < - INT_MAX - 1)"
        by (simp add: is_int_def)
      from step a r no have "f cv eps VS FS model e interval (i + interval) st' = Some y"
        by simp
      from IH[OF this] a I' show False by (simp add: P_def)
    qed
  qed
  with assms show False by (simp add: P_def)
qed

lemma W_face_clipped:
  "\<exists>st'. render_face exact_conversions MINIMAL_VAL W_VS W_FS W_model 0 st = Inr st'"
proof -
  obtain shader payload pl where st: "st = (shader, payload, pl)" by (cases st) auto
  let ?p = "payload\<lparr>
       clipped_coords_a := (clipped_coords_a payload)(0 := S1_v0),
       clipped_world_coords_a := (clipped_world_coords_a payload)(0 := S1_v0),
       clipped_normals_a := (clipped_normals_a payload)(0 := Vector3f (Fin 0) (Fin 0) (Fin 1)),
       clipped_uvs_a := (clipped_uvs_a payload)(0 := Vector2f (Fin 0) (Fin 0))\<rparr>"
  obtain p where f: "foldF (fill_vertex W_VS W_model shader (vertex W_face)) [0, 1, 2] payload = Inr p"
    and c: "map (clipped_coords_a p) [0..<3] = [S1_v0, S1_v1, S1_v2]"
    unfolding upt_0_3
    by (simp add: fill_vertex_def W_model_def W_face_def W_VS_def load_def)
  have n: "fst (homogeneous_clip MINIMAL_VAL p) = 0"
    using homogeneous_clip_polygon(1)[OF c, of MINIMAL_VAL] by (simp add: S1_polygon)
  then obtain p' where hc: "homogeneous_clip MINIMAL_VAL p = (0, p')"
    by (cases "homogeneous_clip MINIMAL_VAL p") auto
  have e: "fan_from 1 0 = []" by (simp add: fan_from_eq)
  have l: "load (faces W_model) 0 = Inr W_face" by (simp add: load_def W_model_def)
  have "render_face exact_conversions MINIMAL_VAL W_VS W_FS W_model 0 st = Inr (shader, p', pl)"
    unfolding st render_face_def prod.case l bindF_Inr f hc e by simp
  then show ?thesis by blast
qed

text \<open>
  C10, amended: with \<open>interval \<ge> 1\<close> the loop of \<open>renderingTriangles\<close> returns (or
  meets undefined behaviour after finitely many faces). With \<open>interval < 0\<close> and
  \<open>begin < end\<close> the index moves away from \<open>end\<close> and the run ends in undefined
  behaviour, at the latest when it reads \<open>model.faces[i]\<close> for a negative \<open>i\<close>. With
  \<open>interval = 0\<close> and \<open>begin < end\<close> the same face is rendered forever, provided that
  rendering it never faults. So \<open>interval \<ge> 1\<close> is a precondition.
\<close>

theorem renderingTriangles_termination:
  fixes cv :: "('a::{zero,one,plus,minus,uminus,times,inverse,ord}, 'd::{plus,times}) conversions"
    and VS :: "('a, 'u) vertex_shader" and FS :: "('a, 'u) fragment_shader"
  shows "(1 \<le> interval \<longrightarrow>
            (\<exists>r. renderingTriangles cv eps VS FS begin end interval model shader payload pl = Some r)) \<and>
         (interval < 0 \<and> begin < end \<longrightarrow>
            (\<exists>e. renderingTriangles cv eps VS FS begin end interval model shader payload pl =
                    Some (Inl e))) \<and>
         (interval = 0 \<and> begin < end \<and> is_int begin \<and> I (shader, payload, pl) \<and>
            keeps_rendering cv eps VS FS model begin I \<longrightarrow>
            renderingTriangles cv eps VS FS begin end interval model shader payload pl = None)"
proof (intro conjI impI)
  assume "1 \<le> interval"
  from faces_loop_terminates[OF this, of cv eps VS FS model "end" "begin" "(shader, payload, pl)"]
  show "\<exists>r. renderingTriangles cv eps VS FS begin end interval model shader payload pl = Some r"
    by (auto simp: renderingTriangles_def)
next
  assume "interval < 0 \<and> begin < end"
  then have "\<exists>e. faces_loop cv eps VS FS model end interval begin (shader, payload, pl) = Some (Inl e)"
    by (intro faces_loop_negative_interval) simp_all
  then show "\<exists>e. renderingTriangles cv eps VS FS begin end interval model shader payload pl =
                    Some (Inl e)"
    by (auto simp: renderingTriangles_def)
next
  assume a: "interval = 0 \<and> begin < end \<and> is_int begin \<and> I (shader, payload, pl) \<and>
            keeps_rendering cv eps VS FS model begin I"
  then have "faces_loop cv eps VS FS model end 0 begin (shader, payload, pl) = None"
    by (intro faces_loop_zero_interval[where I = I]) simp_all
  with a show "renderingTriangles cv eps VS FS begin end interval model shader payload pl = None"
    by (simp add: renderingTriangles_def)
qed

lemma W_keeps_rendering: "keeps_rendering exact_conversions MINIMAL_VAL W_VS W_FS W_model 0 (\<lambda>st. True)"
  unfolding keeps_rendering_def using W_face_clipped by blast

text \<open>
  C10, as stated, fails for a negative interval: with \<open>begin = 0\<close>, \<open>end = 1\<close> and
  \<open>interval = -1\<close> the second iteration reads \<open>model.faces[-1]\<close>; the run does not go
  on forever.
\<close>

theorem negative_interval_faults:
  "(- 1::int) \<le> 0 \<and> (0::int) < 1 \<and>
   renderingTriangles exact_conversions MINIMAL_VAL W_VS W_FS 0 1 (- 1) W_model W_shader W_payload W_pipeline =
     Some (Inl OutOfRange) \<and>
   renderingTriangles exact_conversions MINIMAL_VAL W_VS W_FS 0 1 (- 1) W_model W_shader W_payload W_pipeline \<noteq> None"
proof -
  obtain st' where r: "render_face exact_conversions MINIMAL_VAL W_VS W_FS W_model 0 (W_shader, W_payload, W_pipeline) = Inr st'"
    using W_face_clipped by blast
  have 2: "faces_loop exact_conversions MINIMAL_VAL W_VS W_FS W_model 1 (- 1) (- 1) st' = Some (Inl OutOfRange)"
    by (subst faces_loop.simps) (simp add: render_face_negative)
  have "faces_loop exact_conversions MINIMAL_VAL W_VS W_FS W_model 1 (- 1) 0 (W_shader, W_payload, W_pipeline) =
        Some (Inl OutOfRange)"
    by (subst faces_loop.simps) (simp add: r 2 INT_MAX_def)
  then show ?thesis by (simp add: renderingTriangles_def)
qed

theorem renderingTriangles_termination_witness:
  "(1::int) \<le> 1 \<and>
   (\<exists>r. renderingTriangles exact_conversions MINIMAL_VAL W_VS W_FS 0 1 1 W_model W_shader W_payload W_pipeline = Some r) \<and>
   (- 1::int) < 0 \<and> (0::int) < 1 \<and>
   (\<exists>e. renderingTriangles exact_conversions MINIMAL_VAL W_VS W_FS 0 1 (- 1) W_model W_shader W_payload W_pipeline =
      Some (Inl e)) \<and>
   is_int 0 \<and> keeps_rendering exact_conversions MINIMAL_VAL W_VS W_FS W_model 0 (\<lambda>st. True) \<and>
   renderingTriangles exact_conversions MINIMAL_VAL W_VS W_FS 0 1 0 W_model W_shader W_payload W_pipeline = None"
proof -
  have i: "is_int 0" by (simp add: is_int_def INT_MAX_def)
  note t = renderingTriangles_termination[of _ exact_conversions MINIMAL_VAL W_VS W_FS 0 1 W_model W_shader W_payload
      W_pipeline "\<lambda>st. True"]
  from t[of 1] have 1:
    "\<exists>r. renderingTriangles exact_conversions MINIMAL_VAL W_VS W_FS 0 1 1 W_model W_shader W_payload W_pipeline = Some r"
    by simp
  from t[of "- 1"] have 2:
    "\<exists>e. renderingTriangles exact_conversions MINIMAL_VAL W_VS W_FS 0 1 (- 1) W_model W_shader W_payload W_pipeline =
      Some (Inl e)"
    by simp
  from t[of 0] i W_keeps_rendering have 3:
    "renderingTriangles exact_conversions MINIMAL_VAL W_VS W_FS 0 1 0 W_model W_shader W_payload W_pipeline = None"
    by simp
  from 1 2 3 i W_keeps_rendering show ?thesis by simp
qed

section \<open>Properties of the PNG decoder\<close>

text \<open>
  The two failures of the unfilter loop: a filter byte above 4, and a filter of type 2,
  3 or 4 on the first scanline.
\<close>

lemma unfilter_row_bad_filter:
  assumes "4 < filtered_data ! (i * (data_width + 1))"
  shows "unfilter_row bpp data_width filtered_data i data = None"
proof -
  let ?t = "filtered_data ! (i * (data_width + 1))"
  from assms have "?t \<noteq> 0" "?t \<noteq> 1" "?t \<noteq> 2" "?t \<noteq> 3" "?t \<noteq> 4" by auto
  then show ?thesis by (simp add: unfilter_row_def Let_def)
qed

lemma unfilter_row_no_previous_row:
  assumes "filtered_data ! 0 \<in> {2, 3, 4}"
  shows "unfilter_row bpp data_width filtered_data 0 data = None"
  using assms by (auto simp: unfilter_row_def Let_def)

text \<open>
  C9 does not hold of the code. For the filters Average and Paeth the loops start at the
  byte \<open>data_begin + bpp\<close>, so the first pixel of such a scanline is copied and not
  reconstructed, although the specification of PNG predicts it from the byte above; and
  the Paeth loop chooses between the bytes above and to the left only, never the byte
  above to the left. Three images show it: a scanline of type Average below
  \<open>(10, 20, 30)\<close>, a scanline of type Paeth below the same pixel, and a scanline of type
  Paeth whose third pixel has the neighbours \<open>a = 0\<close>, \<open>b = 10\<close>, \<open>c = 5\<close>.
\<close>

theorem average_and_paeth_not_reversed:
  "readPNG_unfilter 3 1 2 average_image = Some [10, 20, 30, 1, 2, 3] \<and>
   png_defilter 3 1 2 average_image = Some [10, 20, 30, 6, 12, 18] \<and>
   readPNG_unfilter 3 1 2 paeth_first_image = Some [10, 20, 30, 1, 2, 3] \<and>
   png_defilter 3 1 2 paeth_first_image = Some [10, 20, 30, 11, 22, 33] \<and>
   readPNG_unfilter 3 3 2 paeth_image =
     Some [0, 0, 0, 5, 5, 5, 10, 10, 10, 0, 0, 0, 0, 0, 0, 1, 1, 1] \<and>
   png_defilter 3 3 2 paeth_image =
     Some [0, 0, 0, 5, 5, 5, 10, 10, 10, 0, 0, 0, 0, 0, 0, 6, 6, 6]"
  by code_simp

end
